(* ===== verification/Prelude.thy ===== *)
theory Prelude
  imports Main "HOL-Library.Word" "HOL-Library.Char_ord" "HOL-Library.List_Lexorder"
    "HOL-Library.Multiset" "HOL-Library.Sublist"
begin

text \<open>
  What every component shares: the byte and integer types, results, and the part of the
  Rust standard library the sources use on byte slices and strings.

  A Rust \<^verbatim>\<open>u8\<close> is an Isabelle \<^typ>\<open>char\<close> (both have exactly 256 values), so a byte buffer and
  the UTF-8 bytes of a Rust string have the same type. Fixed-width integers are words. A
  \<^verbatim>\<open>Result<T, E>\<close> is a sum with \<^verbatim>\<open>Inl\<close> for the error.
\<close>

section \<open>Types and results\<close>

type_synonym byte = char
type_synonym bytes = "byte list"
type_synonym u8 = "8 word"
type_synonym u16 = "16 word"
type_synonym u32 = "32 word"

named_theorems codec_simps \<open>round trips of the byte codecs\<close>
named_theorems str_simps \<open>facts about the string functions of the standard library\<close>

text \<open>The \<^verbatim>\<open>?\<close> operator: go on with the value, return the error.\<close>

definition and_then :: "'e + 'a \<Rightarrow> ('a \<Rightarrow> 'e + 'b) \<Rightarrow> 'e + 'b" where
  "and_then r f = (case r of Inl e \<Rightarrow> Inl e | Inr a \<Rightarrow> f a)"

lemma and_then_simps [simp]:
  "and_then (Inl e) f = Inl e"
  "and_then (Inr a) f = f a"
  by (simp_all add: and_then_def)

lemma and_then_Inr_iff:
  "and_then r f = Inr b \<longleftrightarrow> (\<exists>a. r = Inr a \<and> f a = Inr b)"
  by (cases r) auto

text \<open>\<^verbatim>\<open>ensure!(c, e)\<close>: an early error return unless the condition holds.\<close>

definition ensure :: "bool \<Rightarrow> 'e \<Rightarrow> 'e + unit" where
  "ensure c e = (if c then Inr () else Inl e)"

lemma ensure_simps [simp]:
  "ensure True e = Inr ()"
  "ensure False e = Inl e"
  by (simp_all add: ensure_def)

lemma ensure_Inr_iff [simp]: "ensure c e = Inr u \<longleftrightarrow> c"
  by (simp add: ensure_def)

section \<open>Lists\<close>

lemma in_set_tlD: "x \<in> set (tl xs) \<Longrightarrow> x \<in> set xs"
  by (cases xs) auto

section \<open>Big-endian integers\<close>

fun be_nat :: "nat \<Rightarrow> nat \<Rightarrow> bytes" where
  "be_nat 0 n = []"
| "be_nat (Suc k) n = char_of (n div 256 ^ k) # be_nat k n"

definition from_be :: "bytes \<Rightarrow> nat" where
  "from_be bs = foldl (\<lambda>a b. 256 * a + of_char b) 0 bs"

lemma length_be_nat [simp]: "length (be_nat k n) = k"
  by (induction k) auto

lemma foldl_be_nat:
  "foldl (\<lambda>a b. 256 * a + of_char b) acc (be_nat k n) = acc * 256 ^ k + n mod 256 ^ k"
proof (induction k arbitrary: acc)
  case 0
  then show ?case by simp
next
  case (Suc k)
  have "n mod 256 ^ Suc k = 256 ^ k * (n div 256 ^ k mod 256) + n mod 256 ^ k"
    using mod_mult2_eq [of n "256 ^ k" 256] by (simp only: power_Suc mult.commute)
  then show ?case
    by (simp add: Suc.IH) (simp add: algebra_simps)
qed

lemma from_be_be_nat [codec_simps]: "from_be (be_nat k n) = n mod 256 ^ k"
  by (simp add: from_be_def foldl_be_nat)

lemma from_be_snoc: "from_be (bs @ [b]) = 256 * from_be bs + of_char b"
  by (simp add: from_be_def)

lemma of_char_less_256: "(of_char c :: nat) < 256"
  by (rule nat_of_char_less_256)

lemma from_be_bound: "from_be bs < 256 ^ length bs"
proof (induction bs rule: rev_induct)
  case Nil
  then show ?case by (simp add: from_be_def)
next
  case (snoc b bs)
  then have "256 * from_be bs + 256 \<le> 256 * 256 ^ length bs"
    by simp
  moreover have "(of_char b :: nat) < 256" by (rule of_char_less_256)
  ultimately have "256 * from_be bs + of_char b < 256 * 256 ^ length bs"
    by linarith
  then show ?case by (simp add: from_be_snoc)
qed

lemma be_nat_snoc: "be_nat (Suc k) n = be_nat k (n div 256) @ [char_of (n mod 256)]"
proof (induction k)
  case 0
  have "char_of n = (char_of (n mod 256) :: char)"
    by (metis char_of_mod_256)
  then show ?case by simp
next
  case (Suc k)
  have "char_of (n div 256 ^ Suc k) = (char_of (n div 256 div 256 ^ k) :: char)"
    by (simp add: div_mult2_eq)
  then show ?case using Suc by simp
qed

lemma be_nat_from_be [codec_simps]: "be_nat (length bs) (from_be bs) = bs"
proof (induction bs rule: rev_induct)
  case Nil
  then show ?case by simp
next
  case (snoc b bs)
  have lt: "(of_char b :: nat) < 256" by (rule of_char_less_256)
  have "from_be (bs @ [b]) div 256 = from_be bs" and "from_be (bs @ [b]) mod 256 = of_char b"
    using lt by (simp_all add: from_be_snoc)
  then show ?case using snoc
    by (simp only: length_append_singleton be_nat_snoc) simp
qed

text \<open>\<^verbatim>\<open>u16::to_be_bytes\<close>, \<^verbatim>\<open>u32::to_be_bytes\<close> and their inverses.\<close>

definition be16 :: "u16 \<Rightarrow> bytes" where
  "be16 w = be_nat 2 (unat w)"

definition from_be16 :: "bytes \<Rightarrow> u16" where
  "from_be16 bs = word_of_nat (from_be bs)"

definition be32 :: "u32 \<Rightarrow> bytes" where
  "be32 w = be_nat 4 (unat w)"

definition from_be32 :: "bytes \<Rightarrow> u32" where
  "from_be32 bs = word_of_nat (from_be bs)"

lemma length_be16 [simp]: "length (be16 w) = 2"
  by (simp add: be16_def)

lemma length_be32 [simp]: "length (be32 w) = 4"
  by (simp add: be32_def)

lemma from_be16_be16 [simp]: "from_be16 (be16 w) = w"
proof -
  have "unat w < 2 ^ 16" using unsigned_less [of w] by simp
  then have "unat w mod 256 ^ 2 = unat w" by simp
  then show ?thesis by (simp add: be16_def from_be16_def codec_simps)
qed

lemma from_be32_be32 [simp]: "from_be32 (be32 w) = w"
proof -
  have "unat w < 2 ^ 32" using unsigned_less [of w] by simp
  then have "unat w mod 256 ^ 4 = unat w" by simp
  then show ?thesis by (simp add: be32_def from_be32_def codec_simps)
qed

lemma be16_from_be16: "length bs = 2 \<Longrightarrow> be16 (from_be16 bs) = bs"
proof -
  assume len: "length bs = 2"
  have "from_be bs < 2 ^ 16" using from_be_bound [of bs] len by simp
  then have "unat (word_of_nat (from_be bs) :: u16) = from_be bs"
    by (simp add: unsigned_of_nat take_bit_nat_eq_self)
  then show ?thesis
    using be_nat_from_be [of bs] len by (simp add: be16_def from_be16_def)
qed

section \<open>Reading from a byte stream\<close>

text \<open>
  A reader is the list of bytes it will still deliver before its end.
  \<^verbatim>\<open>read_exact\<close> takes exactly the bytes asked for or fails with \<^verbatim>\<open>UnexpectedEof\<close>.
\<close>

datatype io_error = UnexpectedEof | OtherIo

definition read_exact :: "nat \<Rightarrow> bytes \<Rightarrow> io_error + bytes \<times> bytes" where
  "read_exact n s = (if n \<le> length s then Inr (take n s, drop n s) else Inl UnexpectedEof)"

lemma read_exact_append [simp]: "length bs = n \<Longrightarrow> read_exact n (bs @ rest) = Inr (bs, rest)"
  by (auto simp: read_exact_def)

lemma read_exact_1 [simp]: "read_exact (Suc 0) (c # s) = Inr ([c], s)"
  by (simp add: read_exact_def)

lemma read_exact_Inr_iff:
  "read_exact n s = Inr (bs, rest) \<longleftrightarrow> s = bs @ rest \<and> length bs = n"
  by (auto simp: read_exact_def min_def)

lemma read_exact_short [simp]: "length s < n \<Longrightarrow> read_exact n s = Inl UnexpectedEof"
  by (simp add: read_exact_def)

end
