(* ===== verification/RustStr.thy ===== *)
theory RustStr
  imports Prelude
begin

text \<open>
  The functions of Rust's \<^verbatim>\<open>str\<close> and \<^verbatim>\<open>[u8]\<close> the sources call, on UTF-8 byte lists: ASCII case
  mapping, trimming (of the Unicode \<^verbatim>\<open>White_Space\<close> characters, as their UTF-8 sequences), splitting,
  prefixes and suffixes, UTF-8 validation, and printing and parsing of decimal numbers.
  The Unicode case tables of \<^verbatim>\<open>to_lowercase\<close> and \<^verbatim>\<open>to_uppercase\<close> are not modelled: a definition
  that uses them takes the mapping as an argument.
\<close>

section \<open>ASCII classes and case\<close>

abbreviation byte_val :: "byte \<Rightarrow> nat" where
  "byte_val c \<equiv> of_char c"

definition is_ascii_upper :: "char \<Rightarrow> bool" where
  "is_ascii_upper c \<longleftrightarrow> 65 \<le> byte_val c \<and> byte_val c \<le> 90"

definition is_ascii_lowercase :: "char \<Rightarrow> bool" where
  "is_ascii_lowercase c \<longleftrightarrow> 97 \<le> byte_val c \<and> byte_val c \<le> 122"

definition is_ascii_digit :: "char \<Rightarrow> bool" where
  "is_ascii_digit c \<longleftrightarrow> 48 \<le> byte_val c \<and> byte_val c \<le> 57"

definition is_ascii_alphabetic :: "char \<Rightarrow> bool" where
  "is_ascii_alphabetic c \<longleftrightarrow> is_ascii_upper c \<or> is_ascii_lowercase c"

definition is_ascii_alphanumeric :: "char \<Rightarrow> bool" where
  "is_ascii_alphanumeric c \<longleftrightarrow> is_ascii_alphabetic c \<or> is_ascii_digit c"

definition ascii_lower :: "char \<Rightarrow> char" where
  "ascii_lower c = (if is_ascii_upper c then char_of (byte_val c + 32) else c)"

definition to_ascii_lowercase :: "string \<Rightarrow> string" where
  "to_ascii_lowercase s = map ascii_lower s"

definition eq_ignore_ascii_case :: "string \<Rightarrow> string \<Rightarrow> bool" where
  "eq_ignore_ascii_case a b \<longleftrightarrow> to_ascii_lowercase a = to_ascii_lowercase b"

lemma ascii_lower_idem [simp]: "ascii_lower (ascii_lower c) = ascii_lower c"
proof (cases "is_ascii_upper c")
  case True
  then have "byte_val (char_of (byte_val c + 32)) = byte_val c + 32"
    by (simp add: is_ascii_upper_def)
  then show ?thesis using True by (simp add: ascii_lower_def is_ascii_upper_def)
next
  case False
  then show ?thesis by (simp add: ascii_lower_def)
qed

lemma to_ascii_lowercase_simps [simp]:
  "to_ascii_lowercase [] = []"
  "to_ascii_lowercase (x # xs) = ascii_lower x # to_ascii_lowercase xs"
  "to_ascii_lowercase (xs @ ys) = to_ascii_lowercase xs @ to_ascii_lowercase ys"
  "length (to_ascii_lowercase xs) = length xs"
  "to_ascii_lowercase (to_ascii_lowercase xs) = to_ascii_lowercase xs"
  by (simp_all add: to_ascii_lowercase_def)

lemma ascii_lower_not_upper [simp]: "\<not> is_ascii_upper c \<Longrightarrow> ascii_lower c = c"
  by (simp add: ascii_lower_def)

section \<open>Prefixes, suffixes, trimming\<close>

abbreviation starts_with :: "'a list \<Rightarrow> 'a list \<Rightarrow> bool" where
  "starts_with s p \<equiv> prefix p s"

abbreviation ends_with :: "'a list \<Rightarrow> 'a list \<Rightarrow> bool" where
  "ends_with s p \<equiv> suffix p s"

definition strip_prefix :: "'a list \<Rightarrow> 'a list \<Rightarrow> 'a list option" where
  "strip_prefix s p = (if prefix p s then Some (drop (length p) s) else None)"

definition strip_suffix :: "'a list \<Rightarrow> 'a list \<Rightarrow> 'a list option" where
  "strip_suffix s p = (if suffix p s then Some (take (length s - length p) s) else None)"

lemma strip_prefix_Some_iff: "strip_prefix s p = Some t \<longleftrightarrow> s = p @ t"
  by (auto simp: strip_prefix_def prefix_def)

lemma strip_suffix_Some_iff: "strip_suffix s p = Some t \<longleftrightarrow> s = t @ p"
  by (auto simp: strip_suffix_def suffix_def)

definition trim_start_matches :: "char \<Rightarrow> string \<Rightarrow> string" where
  "trim_start_matches c s = dropWhile (\<lambda>x. x = c) s"

definition trim_end_matches :: "char \<Rightarrow> string \<Rightarrow> string" where
  "trim_end_matches c s = rev (dropWhile (\<lambda>x. x = c) (rev s))"

lemma trim_end_matches_id: "s = [] \<or> last s \<noteq> c \<Longrightarrow> trim_end_matches c s = s"
  by (cases s rule: rev_cases) (auto simp: trim_end_matches_def)

text \<open>The UTF-8 sequences of the characters with the Unicode property \<^verbatim>\<open>White_Space\<close>.\<close>

definition ws_seqs :: "string list" where
  "ws_seqs =
     [[CHR 0x09], [CHR 0x0A], [CHR 0x0B], [CHR 0x0C], [CHR 0x0D], [CHR 0x20],
      [CHR 0xC2, CHR 0x85], [CHR 0xC2, CHR 0xA0],
      [CHR 0xE1, CHR 0x9A, CHR 0x80],
      [CHR 0xE2, CHR 0x80, CHR 0x80], [CHR 0xE2, CHR 0x80, CHR 0x81],
      [CHR 0xE2, CHR 0x80, CHR 0x82], [CHR 0xE2, CHR 0x80, CHR 0x83],
      [CHR 0xE2, CHR 0x80, CHR 0x84], [CHR 0xE2, CHR 0x80, CHR 0x85],
      [CHR 0xE2, CHR 0x80, CHR 0x86], [CHR 0xE2, CHR 0x80, CHR 0x87],
      [CHR 0xE2, CHR 0x80, CHR 0x88], [CHR 0xE2, CHR 0x80, CHR 0x89],
      [CHR 0xE2, CHR 0x80, CHR 0x8A], [CHR 0xE2, CHR 0x80, CHR 0xA8],
      [CHR 0xE2, CHR 0x80, CHR 0xA9], [CHR 0xE2, CHR 0x80, CHR 0xAF],
      [CHR 0xE2, CHR 0x81, CHR 0x9F], [CHR 0xE3, CHR 0x80, CHR 0x80]]"

function strip_seqs :: "string list \<Rightarrow> string \<Rightarrow> string" where
  "strip_seqs ws s =
     (case find (\<lambda>w. w \<noteq> [] \<and> prefix w s) ws of
        None \<Rightarrow> s
      | Some w \<Rightarrow> strip_seqs ws (drop (length w) s))"
  by pat_completeness auto
termination
proof (relation "measure (\<lambda>(ws, s). length s)", goal_cases)
  case 1
  show ?case by simp
next
  case (2 ws s w)
  then have "w \<noteq> [] \<and> prefix w s"
    by (metis (mono_tags, lifting) find_Some_iff)
  then show ?case by (auto simp: prefix_def)
qed

declare strip_seqs.simps [simp del]

definition trim_start :: "string \<Rightarrow> string" where
  "trim_start s = strip_seqs ws_seqs s"

definition trim_end :: "string \<Rightarrow> string" where
  "trim_end s = rev (strip_seqs (map rev ws_seqs) (rev s))"

definition trim :: "string \<Rightarrow> string" where
  "trim s = trim_end (trim_start s)"

lemma strip_seqs_suffix: "suffix (strip_seqs ws s) s"
proof (induction ws s rule: strip_seqs.induct)
  case (1 ws s)
  show ?case
  proof (cases "find (\<lambda>w. w \<noteq> [] \<and> prefix w s) ws")
    case None
    then show ?thesis by (simp add: strip_seqs.simps [of ws s])
  next
    case (Some w)
    from "1.IH" [OF Some] have "suffix (strip_seqs ws (drop (length w) s)) s"
      using suffix_drop suffix_order.trans by blast
    with Some show ?thesis by (simp add: strip_seqs.simps [of ws s])
  qed
qed

text \<open>Trimming keeps a string whose first and last bytes are printable ASCII.\<close>

definition ws_edge :: "char \<Rightarrow> bool" where
  "ws_edge c \<longleftrightarrow> c \<in> set (map hd ws_seqs) \<or> c \<in> set (map last ws_seqs)"

lemma ws_seqs_nonempty: "\<forall>w \<in> set ws_seqs. w \<noteq> []"
  by (simp add: ws_seqs_def)

lemma strip_seqs_id:
  assumes "s = [] \<or> hd s \<notin> set (map hd ws)"
  shows "strip_seqs ws s = s"
proof -
  have "find (\<lambda>w. w \<noteq> [] \<and> prefix w s) ws = None"
    using assms by (auto simp: find_None_iff prefix_def)
  then show ?thesis by (simp add: strip_seqs.simps)
qed

lemma trim_id:
  assumes "s = [] \<or> \<not> ws_edge (hd s) \<and> \<not> ws_edge (last s)"
  shows "trim s = s"
proof -
  have 1: "strip_seqs ws_seqs s = s"
    using assms by (intro strip_seqs_id) (auto simp: ws_edge_def)
  have hdrev: "\<And>w. w \<in> set ws_seqs \<Longrightarrow> hd (rev w) = last w"
    using ws_seqs_nonempty by (metis hd_rev)
  have "rev s = [] \<or> hd (rev s) \<notin> set (map hd (map rev ws_seqs))"
    using assms hdrev by (cases s rule: rev_cases) (auto simp: ws_edge_def)
  then have 2: "strip_seqs (map rev ws_seqs) (rev s) = rev s"
    by (rule strip_seqs_id)
  show ?thesis by (simp add: trim_def trim_start_def trim_end_def 1 2)
qed

section \<open>Splitting and joining\<close>

text \<open>\<^verbatim>\<open>split\<close> at every occurrence of one byte: always at least one piece.\<close>

fun split_on :: "'a \<Rightarrow> 'a list \<Rightarrow> 'a list list" where
  "split_on c [] = [[]]"
| "split_on c (x # xs) =
     (if x = c then [] # split_on c xs
      else case split_on c xs of [] \<Rightarrow> [[x]] | y # ys \<Rightarrow> (x # y) # ys)"

text \<open>\<^verbatim>\<open>[T]::join\<close> with a separator.\<close>

fun join :: "'a list \<Rightarrow> 'a list list \<Rightarrow> 'a list" where
  "join sep [] = []"
| "join sep [x] = x"
| "join sep (x # y # ys) = x @ sep @ join sep (y # ys)"

lemma split_on_nonempty [simp]: "split_on c xs \<noteq> []"
  by (induction xs) (auto split: list.splits)

lemma split_on_free: "c \<notin> set xs \<Longrightarrow> split_on c xs = [xs]"
  by (induction xs) auto

lemma split_on_append: "c \<notin> set xs \<Longrightarrow> split_on c (xs @ c # ys) = xs # split_on c ys"
  by (induction xs) auto

lemma split_on_pieces: "p \<in> set (split_on c xs) \<Longrightarrow> c \<notin> set p"
proof (induction xs arbitrary: p)
  case Nil
  then show ?case by simp
next
  case (Cons x xs)
  then show ?case
    by (cases "split_on c xs") (auto split: if_splits)
qed

lemma split_on_hd_tl: "x \<noteq> c \<Longrightarrow> split_on c (x # xs) = (x # hd (split_on c xs)) # tl (split_on c xs)"
  by (cases "split_on c xs") auto

lemma join_split_on [str_simps]: "join [c] (split_on c xs) = xs"
proof (induction xs)
  case Nil
  then show ?case by simp
next
  case (Cons x xs)
  then show ?case
    by (cases "split_on c xs" rule: list.exhaust;
        cases "tl (split_on c xs)") auto
qed

lemma split_on_join [str_simps]:
  "ps \<noteq> [] \<Longrightarrow> \<forall>p \<in> set ps. c \<notin> set p \<Longrightarrow> split_on c (join [c] ps) = ps"
  by (induction "[c]" ps rule: join.induct) (auto simp: split_on_free split_on_append simp del: split_on.simps)

lemma hd_split_on: "hd (split_on c xs) = takeWhile (\<lambda>x. x \<noteq> c) xs"
  by (induction xs) (auto split: list.splits)

section \<open>UTF-8\<close>

abbreviation byte_in :: "nat \<Rightarrow> nat \<Rightarrow> byte \<Rightarrow> bool" where
  "byte_in lo hi c \<equiv> lo \<le> byte_val c \<and> byte_val c \<le> hi"

text \<open>\<^verbatim>\<open>str::from_utf8\<close> succeeds exactly on these byte lists (the well-formed sequences).\<close>

fun valid_utf8 :: "bytes \<Rightarrow> bool" where
  "valid_utf8 [] = True"
| "valid_utf8 (a # s) =
     (if byte_val a < 0x80 then valid_utf8 s
      else case s of
        [] \<Rightarrow> False
      | b # s2 \<Rightarrow>
          if byte_in 0xC2 0xDF a then byte_in 0x80 0xBF b \<and> valid_utf8 s2
          else case s2 of
            [] \<Rightarrow> False
          | c # s3 \<Rightarrow>
              if byte_val a = 0xE0 then byte_in 0xA0 0xBF b \<and> byte_in 0x80 0xBF c \<and> valid_utf8 s3
              else if byte_val a = 0xED then
                byte_in 0x80 0x9F b \<and> byte_in 0x80 0xBF c \<and> valid_utf8 s3
              else if byte_in 0xE1 0xEF a then
                byte_in 0x80 0xBF b \<and> byte_in 0x80 0xBF c \<and> valid_utf8 s3
              else case s3 of
                [] \<Rightarrow> False
              | d # s4 \<Rightarrow>
                  (byte_val a = 0xF0 \<and> byte_in 0x90 0xBF b
                   \<or> byte_in 0xF1 0xF3 a \<and> byte_in 0x80 0xBF b
                   \<or> byte_val a = 0xF4 \<and> byte_in 0x80 0x8F b)
                  \<and> byte_in 0x80 0xBF c \<and> byte_in 0x80 0xBF d \<and> valid_utf8 s4)"

lemma valid_utf8_ascii: "\<forall>c \<in> set s. byte_val c < 128 \<Longrightarrow> valid_utf8 s"
  by (induction s) auto

section \<open>Decimal numbers\<close>

definition digit_char :: "nat \<Rightarrow> char" where
  "digit_char n = char_of (48 + n)"

fun nat_str :: "nat \<Rightarrow> string" where
  "nat_str n = (if n < 10 then [digit_char n] else nat_str (n div 10) @ [digit_char (n mod 10)])"

declare nat_str.simps [simp del]

text \<open>Evaluation on literals.\<close>

lemma digit_char_literals [simp]:
  "digit_char 0 = CHR ''0''" "digit_char (Suc 0) = CHR ''1''" "digit_char 2 = CHR ''2''"
  "digit_char 3 = CHR ''3''" "digit_char 4 = CHR ''4''" "digit_char 5 = CHR ''5''"
  "digit_char 6 = CHR ''6''" "digit_char 7 = CHR ''7''" "digit_char 8 = CHR ''8''"
  "digit_char 9 = CHR ''9''"
  by code_simp+

lemma nat_str_literals [simp]:
  "nat_str 0 = ''0''" "nat_str (Suc 0) = ''1''"
  "nat_str (numeral w) = (if (numeral w :: nat) < 10 then [digit_char (numeral w)]
                          else nat_str (numeral w div 10) @ [digit_char (numeral w mod 10)])"
  by (simp_all add: nat_str.simps [of 0] nat_str.simps [of "Suc 0"] nat_str.simps [of "numeral w"])

definition int_str :: "int \<Rightarrow> string" where
  "int_str i = (if i < 0 then CHR ''-'' # nat_str (nat (- i)) else nat_str (nat i))"

definition digits_val :: "string \<Rightarrow> nat" where
  "digits_val ds = foldl (\<lambda>a d. 10 * a + (byte_val d - 48)) 0 ds"

text \<open>\<^verbatim>\<open>parse\<close> of an unsigned type with the given largest value: an optional \<^verbatim>\<open>+\<close>, then digits.\<close>

definition parse_uint :: "nat \<Rightarrow> string \<Rightarrow> nat option" where
  "parse_uint mx s =
     (let ds = (case s of [] \<Rightarrow> [] | c # r \<Rightarrow> if c = CHR ''+'' then r else s) in
      if ds = [] \<or> \<not> list_all is_ascii_digit ds then None
      else if digits_val ds \<le> mx then Some (digits_val ds) else None)"

text \<open>\<^verbatim>\<open>parse\<close> of a signed type: an optional sign, then digits.\<close>

definition parse_int :: "int \<Rightarrow> int \<Rightarrow> string \<Rightarrow> int option" where
  "parse_int lo hi s =
     (let neg = (s \<noteq> [] \<and> hd s = CHR ''-'');
          ds = (case s of [] \<Rightarrow> []
                | c # r \<Rightarrow> if c = CHR ''+'' \<or> c = CHR ''-'' then r else s);
          v = (if neg then - int (digits_val ds) else int (digits_val ds))
      in if ds = [] \<or> \<not> list_all is_ascii_digit ds then None
         else if lo \<le> v \<and> v \<le> hi then Some v else None)"

lemma digit_char_digit: "n < 10 \<Longrightarrow> is_ascii_digit (digit_char n)"
  by (simp add: digit_char_def is_ascii_digit_def)

lemma byte_val_digit_char: "n < 10 \<Longrightarrow> byte_val (digit_char n) = 48 + n"
  by (simp add: digit_char_def)

lemma nat_str_digits: "list_all is_ascii_digit (nat_str n)"
proof (induction n rule: nat_str.induct)
  case (1 n)
  then show ?case
    by (subst nat_str.simps) (simp add: digit_char_digit)
qed

lemma nat_str_nonempty [simp]: "nat_str n \<noteq> []"
  by (subst nat_str.simps) simp

lemma digits_val_snoc: "digits_val (ds @ [d]) = 10 * digits_val ds + (byte_val d - 48)"
  by (simp add: digits_val_def)

lemma digits_val_nat_str [str_simps]: "digits_val (nat_str n) = n"
proof (induction n rule: nat_str.induct)
  case (1 n)
  show ?case
  proof (cases "n < 10")
    case True
    then show ?thesis
      by (subst nat_str.simps) (simp add: digits_val_def byte_val_digit_char)
  next
    case False
    with 1 show ?thesis
      by (subst nat_str.simps) (simp add: digits_val_snoc byte_val_digit_char)
  qed
qed

lemma nat_str_inj [simp]: "nat_str m = nat_str n \<longleftrightarrow> m = n"
  by (metis digits_val_nat_str)

lemma digit_not_special:
  "is_ascii_digit c \<Longrightarrow> c \<noteq> CHR ''+'' \<and> c \<noteq> CHR ''-'' \<and> c \<noteq> CHR '':'' \<and> c \<noteq> CHR '','' \<and> c \<noteq> CHR ''.''"
  by (auto simp: is_ascii_digit_def)

lemma nat_str_free:
  "CHR '':'' \<notin> set (nat_str n)" "CHR '','' \<notin> set (nat_str n)" "CHR ''.'' \<notin> set (nat_str n)"
  using nat_str_digits [of n] digit_not_special by (auto simp: list_all_iff)

lemma parse_uint_nat_str [str_simps]: "n \<le> mx \<Longrightarrow> parse_uint mx (nat_str n) = Some n"
proof -
  assume le: "n \<le> mx"
  obtain c r where cr: "nat_str n = c # r" by (cases "nat_str n") auto
  then have "c \<noteq> CHR ''+''"
    using nat_str_digits [of n] digit_not_special [of c] by simp
  then show ?thesis
    using le cr nat_str_digits [of n] digits_val_nat_str [of n]
    by (simp add: parse_uint_def)
qed

lemma parse_uint_bound: "parse_uint mx s = Some n \<Longrightarrow> n \<le> mx"
  by (auto simp: parse_uint_def Let_def split: if_splits)

lemma parse_int_int_str [str_simps]: "lo \<le> i \<Longrightarrow> i \<le> hi \<Longrightarrow> parse_int lo hi (int_str i) = Some i"
proof -
  assume le: "lo \<le> i" "i \<le> hi"
  show ?thesis
  proof (cases "i < 0")
    case True
    then show ?thesis
      using le nat_str_digits [of "nat (- i)"]
      by (simp add: parse_int_def int_str_def str_simps)
  next
    case False
    obtain c r where cr: "nat_str (nat i) = c # r" by (cases "nat_str (nat i)") auto
    then have "c \<noteq> CHR ''+''" "c \<noteq> CHR ''-''"
      using nat_str_digits [of "nat i"] digit_not_special [of c] by simp_all
    then show ?thesis
      using le False cr nat_str_digits [of "nat i"] digits_val_nat_str [of "nat i"]
      by (simp add: parse_int_def int_str_def)
  qed
qed

lemma int_str_inj [simp]: "int_str i = int_str j \<longleftrightarrow> i = j"
proof
  assume "int_str i = int_str j"
  then have "parse_int (min i j) (max i j) (int_str i) = parse_int (min i j) (max i j) (int_str j)"
    by simp
  then show "i = j" by (simp add: str_simps)
qed simp

text \<open>The range of \<^verbatim>\<open>i64\<close>.\<close>

definition i64_max :: int where
  "i64_max = 9223372036854775807"

definition i64_min :: int where
  "i64_min = - i64_max - 1"

section \<open>Splitting once, quoting\<close>

definition split_once :: "char \<Rightarrow> string \<Rightarrow> (string \<times> string) option" where
  "split_once c s =
     (if c \<in> set s then Some (takeWhile (\<lambda>x. x \<noteq> c) s, tl (dropWhile (\<lambda>x. x \<noteq> c) s)) else None)"

lemma split_once_append [str_simps]: "c \<notin> set a \<Longrightarrow> split_once c (a @ c # b) = Some (a, b)"
  by (induction a) (auto simp: split_once_def)

lemma split_once_Some_iff: "split_once c s = Some (a, b) \<longleftrightarrow> s = a @ c # b \<and> c \<notin> set a"
proof
  assume "split_once c s = Some (a, b)"
  then have c: "c \<in> set s" and a: "a = takeWhile (\<lambda>x. x \<noteq> c) s" and b: "b = tl (dropWhile (\<lambda>x. x \<noteq> c) s)"
    by (auto simp: split_once_def split: if_splits)
  have "dropWhile (\<lambda>x. x \<noteq> c) s = c # b" using c b by (induction s) auto
  then show "s = a @ c # b \<and> c \<notin> set a"
    using a takeWhile_dropWhile_id [of "\<lambda>x. x \<noteq> c" s] by (metis (mono_tags, lifting) set_takeWhileD)
qed (simp add: split_once_append)

definition quoted :: "string \<Rightarrow> string" where
  "quoted s = [CHR 0x27] @ s @ [CHR 0x27]"

end
