(* ===== verification/Proto.thy ===== *)
theory Proto
  imports RustStr
begin

text \<open>
  The shared wire protocol (\<^verbatim>\<open>natforge-proto/src/lib.rs\<close>): route modes, the claims of a tunnel
  token and their structural check, the preamble that opens every multiplexed stream, the framing
  of UDP datagrams on a stream, and the length-prefixed control frames of the handshake.

  Writers are modelled by the bytes they send, readers by functions of the bytes they will receive
  that return the value and the bytes left over. \<^verbatim>\<open>encode_preamble\<close> is modelled in the release
  profile: its \<^verbatim>\<open>debug_assert!\<close> is off and a longer replay is cut.
\<close>

section \<open>JSON values\<close>

text \<open>A JSON value as \<^verbatim>\<open>serde_json\<close> decodes it; an object has one field per name.\<close>

datatype Json = JNull | JBool bool | JInt int | JStr string | JArr "Json list" | JObj "(string \<times> Json) list"

section \<open>Route modes\<close>

datatype RouteMode = Http | Https | Tcp | Udp | Both

fun as_str :: "RouteMode \<Rightarrow> string" where
  "as_str Http = ''http''"
| "as_str Https = ''https''"
| "as_str Tcp = ''tcp''"
| "as_str Udp = ''udp''"
| "as_str Both = ''both''"

fun is_host_routed :: "RouteMode \<Rightarrow> bool" where
  "is_host_routed Http = True"
| "is_host_routed Https = True"
| "is_host_routed Tcp = False"
| "is_host_routed Udp = False"
| "is_host_routed Both = False"

lemma as_str_inj [simp]: "as_str m = as_str n \<longleftrightarrow> m = n"
  by (cases m; cases n) simp_all

lemma as_str_free: "CHR '':'' \<notin> set (as_str m)" "CHR '','' \<notin> set (as_str m)"
  by (cases m; simp)+

lemma as_str_nonempty [simp]: "as_str m \<noteq> []"
  by (cases m) simp_all

text \<open>
  Modes are ordered by their spelling, the order in which their names sort in a route signature.
\<close>

instantiation RouteMode :: linorder
begin

definition less_eq_RouteMode :: "RouteMode \<Rightarrow> RouteMode \<Rightarrow> bool" where
  "less_eq_RouteMode m n \<longleftrightarrow> as_str m \<le> as_str n"

definition less_RouteMode :: "RouteMode \<Rightarrow> RouteMode \<Rightarrow> bool" where
  "less_RouteMode m n \<longleftrightarrow> as_str m < as_str n"

instance
proof
  fix x y z :: RouteMode
  show "x < y \<longleftrightarrow> x \<le> y \<and> \<not> y \<le> x"
    unfolding less_eq_RouteMode_def less_RouteMode_def by (rule less_le_not_le)
  show "x \<le> x"
    unfolding less_eq_RouteMode_def by (rule order_refl)
  show "x \<le> z" if "x \<le> y" "y \<le> z"
    using that unfolding less_eq_RouteMode_def by (rule order_trans)
  show "x = y" if "x \<le> y" "y \<le> x"
    using antisym [of "as_str x" "as_str y"] that unfolding less_eq_RouteMode_def by simp
  show "x \<le> y \<or> y \<le> x"
    unfolding less_eq_RouteMode_def by (rule linear)
qed

end

section \<open>Handshake records and token claims\<close>

record AgentRouteBinding =
  b_route_id :: u16
  b_local_port :: u16

definition ROLE_SERVICE_HOST :: string where
  "ROLE_SERVICE_HOST = ''service_host''"

record AgentHello =
  hello_token :: string
  hello_role :: string
  hello_routes :: "AgentRouteBinding list"

record RouteResult =
  rr_route_id :: u16
  rr_mode :: RouteMode
  rr_public_endpoint :: string

datatype CoreReply =
    ReplyOk (reply_tunnel_id: int) (reply_subdomain: string) (reply_routes: "RouteResult list")
  | ReplyError (reply_message: string)

record RouteClaim =
  rc_route_id :: u16
  rc_mode :: RouteMode
  rc_host :: "string option"
  rc_public_port :: "u16 option"
  rc_srv_service :: "string option"

record TunnelClaims =
  tc_v :: u8
  tc_sub :: int
  tc_tunnel_id :: int
  tc_subdomain :: string
  tc_purpose :: string
  tc_routes :: "RouteClaim list"
  tc_custom_domain :: "string option"
  tc_exp :: nat

text \<open>
  \<^verbatim>\<open>validate_shape\<close>: version, purpose, then one pass over the routes with the set of ids seen.
\<close>

definition check_route_shape :: "RouteClaim \<Rightarrow> string + unit" where
  "check_route_shape r =
     (case rc_mode r of
        Http \<Rightarrow>
          if rc_host r = None \<or> rc_public_port r \<noteq> None
          then Inl (''route '' @ nat_str (unat (rc_route_id r)) @ '' (http/https) must carry host and no port'')
          else Inr ()
      | Https \<Rightarrow>
          if rc_host r = None \<or> rc_public_port r \<noteq> None
          then Inl (''route '' @ nat_str (unat (rc_route_id r)) @ '' (http/https) must carry host and no port'')
          else Inr ()
      | _ \<Rightarrow>
          if rc_public_port r = None \<or> rc_host r \<noteq> None
          then Inl (''route '' @ nat_str (unat (rc_route_id r)) @ '' (tcp/udp) must carry port and no host'')
          else Inr ())"

fun validate_routes :: "u16 list \<Rightarrow> RouteClaim list \<Rightarrow> string + unit" where
  "validate_routes seen [] = Inr ()"
| "validate_routes seen (r # rs) =
     (if rc_route_id r \<in> set seen
      then Inl (''duplicate route_id '' @ nat_str (unat (rc_route_id r)))
      else and_then (check_route_shape r) (\<lambda>_. validate_routes (rc_route_id r # seen) rs))"

definition validate_shape :: "TunnelClaims \<Rightarrow> string + unit" where
  "validate_shape c =
     (if tc_v c \<noteq> 1 then Inl (''unsupported token version '' @ nat_str (unat (tc_v c)))
      else if tc_purpose c \<noteq> ''tunnel'' then Inl ''token is not a tunnel token''
      else validate_routes [] (tc_routes c))"

text \<open>What a well-shaped claim is, stated without the loop.\<close>

definition route_shape_ok :: "RouteClaim \<Rightarrow> bool" where
  "route_shape_ok r \<longleftrightarrow>
     (if is_host_routed (rc_mode r) then rc_host r \<noteq> None \<and> rc_public_port r = None
      else rc_host r = None \<and> rc_public_port r \<noteq> None)"

lemma check_route_shape_iff [simp]: "check_route_shape r = Inr u \<longleftrightarrow> route_shape_ok r"
  by (cases "rc_mode r") (auto simp: check_route_shape_def route_shape_ok_def)

lemma validate_routes_iff:
  "validate_routes seen rs = Inr () \<longleftrightarrow>
     list_all route_shape_ok rs \<and> distinct (map rc_route_id rs)
     \<and> set (map rc_route_id rs) \<inter> set seen = {}"
  by (induction rs arbitrary: seen) (auto simp: and_then_Inr_iff)

lemma validate_shape_Inr_iff:
  "validate_shape c = Inr u \<longleftrightarrow>
     tc_v c = 1 \<and> tc_purpose c = ''tunnel'' \<and> list_all route_shape_ok (tc_routes c)
     \<and> distinct (map rc_route_id (tc_routes c))"
  using validate_routes_iff [of "[]" "tc_routes c"] by (auto simp: validate_shape_def)

section \<open>The contract of a prefix codec\<close>

text \<open>
  Every message of the protocol is written by an encoder and read back from a stream that goes on
  with other data. The contract: on the values it may carry, decoding an encoding gives the value
  and exactly the bytes after it.
\<close>

fun decode_many :: "(bytes \<Rightarrow> 'e + 'a \<times> bytes) \<Rightarrow> nat \<Rightarrow> bytes \<Rightarrow> 'e + 'a list \<times> bytes" where
  "decode_many dec 0 s = Inr ([], s)"
| "decode_many dec (Suc n) s =
     and_then (dec s) (\<lambda>(x, s').
       and_then (decode_many dec n s') (\<lambda>(xs, s''). Inr (x # xs, s'')))"

locale prefix_codec =
  fixes enc :: "'a \<Rightarrow> bytes"
    and dec :: "bytes \<Rightarrow> 'e + 'a \<times> bytes"
    and carries :: "'a \<Rightarrow> bool"
  assumes dec_enc: "carries x \<Longrightarrow> dec (enc x @ rest) = Inr (x, rest)"
begin

lemma dec_enc_end: "carries x \<Longrightarrow> dec (enc x) = Inr (x, [])"
  using dec_enc [of x "[]"] by simp

lemma enc_inj: "carries x \<Longrightarrow> carries y \<Longrightarrow> enc x = enc y \<Longrightarrow> x = y"
  by (metis Pair_inject dec_enc_end sum.inject(2))

lemma enc_prefix_free: "carries x \<Longrightarrow> carries y \<Longrightarrow> prefix (enc x) (enc y) \<Longrightarrow> x = y"
  by (auto simp: prefix_def) (metis Pair_inject dec_enc dec_enc_end sum.inject(2))

lemma enc_unambiguous:
  "carries x \<Longrightarrow> carries y \<Longrightarrow> enc x @ r = enc y @ r' \<Longrightarrow> x = y \<and> r = r'"
  by (metis Pair_inject dec_enc sum.inject(2))

lemma decode_many_enc:
  "\<forall>x \<in> set xs. carries x \<Longrightarrow>
     decode_many dec (length xs) (concat (map enc xs) @ rest) = Inr (xs, rest)"
  by (induction xs) (auto simp: dec_enc)

end

section \<open>The stream preamble\<close>

datatype IpAddr = V4 "32 word" | V6 "128 word"

datatype SocketAddr = SocketAddr (sa_ip: IpAddr) (sa_port: u16)

definition octets4 :: "32 word \<Rightarrow> bytes" where
  "octets4 w = be_nat 4 (unat w)"

definition octets6 :: "128 word \<Rightarrow> bytes" where
  "octets6 w = be_nat 16 (unat w)"

definition STREAM_MAGIC :: bytes where
  "STREAM_MAGIC = ''NFS1''"

definition STREAM_VERSION :: byte where
  "STREAM_VERSION = CHR 0x01"

definition MAX_REPLAY :: nat where
  "MAX_REPLAY = 65535"

definition encode_peer_ip :: "SocketAddr option \<Rightarrow> bytes" where
  "encode_peer_ip peer =
     (case peer of
        Some (SocketAddr (V4 v4) p) \<Rightarrow> CHR 0x04 # octets4 v4
      | Some (SocketAddr (V6 v6) p) \<Rightarrow> CHR 0x06 # octets6 v6
      | None \<Rightarrow> [CHR 0x00])"

definition encode_preamble :: "u16 \<Rightarrow> SocketAddr option \<Rightarrow> bytes \<Rightarrow> bytes" where
  "encode_preamble route_id peer replay =
     (let peer_port = (case peer of Some addr \<Rightarrow> sa_port addr | None \<Rightarrow> 0);
          rl = min (length replay) MAX_REPLAY
      in STREAM_MAGIC @ [STREAM_VERSION] @ be16 route_id @ encode_peer_ip peer
         @ be16 peer_port @ be16 (word_of_nat rl) @ take rl replay)"

datatype proto_error =
    Io io_error
  | BadMagic
  | BadVersion byte
  | BadAddrKind byte
  | ReplayTooLong nat
  | FrameTooLarge nat

definition lift_io :: "io_error + 'a \<Rightarrow> proto_error + 'a" where
  "lift_io r = (case r of Inl e \<Rightarrow> Inl (Io e) | Inr a \<Rightarrow> Inr a)"

lemma lift_io_simps [simp]:
  "lift_io (Inl e) = Inl (Io e)"
  "lift_io (Inr a) = Inr a"
  by (simp_all add: lift_io_def)

lemma lift_io_Inr_iff [simp]: "lift_io r = Inr a \<longleftrightarrow> r = Inr a"
  by (cases r) auto

definition read_peer_ip :: "bytes \<Rightarrow> proto_error + IpAddr option \<times> bytes" where
  "read_peer_ip s =
     and_then (lift_io (read_exact 1 s)) (\<lambda>(kind, s).
       if hd kind = CHR 0x04 then
         and_then (lift_io (read_exact 4 s)) (\<lambda>(o4, s). Inr (Some (V4 (word_of_nat (from_be o4))), s))
       else if hd kind = CHR 0x06 then
         and_then (lift_io (read_exact 16 s)) (\<lambda>(o6, s). Inr (Some (V6 (word_of_nat (from_be o6))), s))
       else if hd kind = CHR 0x00 then Inr (None, s)
       else Inl (BadAddrKind (hd kind)))"

definition read_preamble :: "bytes \<Rightarrow> proto_error + (u16 \<times> SocketAddr option \<times> bytes) \<times> bytes" where
  "read_preamble s =
     and_then (lift_io (read_exact 7 s)) (\<lambda>(hdr, s).
     and_then (ensure (take 4 hdr = STREAM_MAGIC) BadMagic) (\<lambda>_.
     and_then (ensure (hdr ! 4 = STREAM_VERSION) (BadVersion (hdr ! 4))) (\<lambda>_.
     and_then (read_peer_ip s) (\<lambda>(ip, s).
     and_then (lift_io (read_exact 2 s)) (\<lambda>(p, s).
     and_then (lift_io (read_exact 2 s)) (\<lambda>(rl, s).
     let replay_len = unat (from_be16 rl) in
     and_then (ensure (replay_len \<le> MAX_REPLAY) (ReplayTooLong replay_len)) (\<lambda>_.
     and_then (lift_io (read_exact replay_len s)) (\<lambda>(replay, s).
       Inr ((from_be16 (drop 5 hdr),
             (case ip of Some addr \<Rightarrow> Some (SocketAddr addr (from_be16 p)) | None \<Rightarrow> None),
             replay), s)))))))))"

lemma octets4_roundtrip [simp]: "(word_of_nat (from_be (octets4 w)) :: 32 word) = w"
proof -
  have "unat w < 2 ^ 32" using unsigned_less [of w] by simp
  then have "unat w mod 256 ^ 4 = unat w" by simp
  then show ?thesis by (simp add: octets4_def codec_simps)
qed

lemma octets6_roundtrip [simp]: "(word_of_nat (from_be (octets6 w)) :: 128 word) = w"
proof -
  have "unat w < 2 ^ 128" using unsigned_less [of w] by simp
  then have "unat w mod 256 ^ 16 = unat w" by simp
  then show ?thesis by (simp add: octets6_def codec_simps)
qed

lemma length_octets [simp]: "length (octets4 w) = 4" "length (octets6 v) = 16"
  by (simp_all add: octets4_def octets6_def)

lemma read_peer_ip_encode [codec_simps]:
  "read_peer_ip (encode_peer_ip peer @ rest) = Inr (map_option sa_ip peer, rest)"
  by (simp add: read_peer_ip_def encode_peer_ip_def split: option.split SocketAddr.split IpAddr.split)

lemma unat_of_nat_u16 [simp]: "n \<le> 65535 \<Longrightarrow> unat (word_of_nat n :: u16) = n"
  by (simp add: unsigned_of_nat take_bit_nat_eq_self)

lemma read_preamble_encode:
  assumes "length replay \<le> MAX_REPLAY"
  shows "read_preamble (encode_preamble rid peer replay @ rest) = Inr ((rid, peer, replay), rest)"
proof -
  let ?hdr = "STREAM_MAGIC @ [STREAM_VERSION] @ be16 rid"
  have hdr: "length ?hdr = 7" "take 4 ?hdr = STREAM_MAGIC" "?hdr ! 4 = STREAM_VERSION"
    "drop 5 ?hdr = be16 rid"
    by (simp_all add: STREAM_MAGIC_def)
  have rl: "min (length replay) MAX_REPLAY = length replay"
    "unat (word_of_nat (length replay) :: u16) = length replay"
    using assms by (simp_all add: MAX_REPLAY_def)
  let ?port = "case peer of Some addr \<Rightarrow> sa_port addr | None \<Rightarrow> 0"
  let ?tail = "encode_peer_ip peer @ be16 ?port @ be16 (word_of_nat (length replay)) @ replay @ rest"
  have "encode_preamble rid peer replay @ rest = ?hdr @ ?tail"
    by (simp add: encode_preamble_def Let_def rl(1))
  moreover have "read_exact 7 (?hdr @ ?tail) = Inr (?hdr, ?tail)"
    by (rule read_exact_append) (rule hdr(1))
  moreover have "(case map_option sa_ip peer of Some addr \<Rightarrow> Some (SocketAddr addr ?port) | None \<Rightarrow> None) = peer"
    by (simp split: option.split)
  ultimately show ?thesis
    using assms hdr
    by (simp only: read_preamble_def)
      (simp add: codec_simps rl(2) Let_def split: option.split)
qed

text \<open>
  The reader accepts nothing but encodings: if it reports a peer, the bytes it took are the
  encoding of what it returned. (Without a peer the two port bytes are read and ignored.)
\<close>

lemma word_of_from_be_octets4: "length bs = 4 \<Longrightarrow> octets4 (word_of_nat (from_be bs)) = bs"
proof -
  assume len: "length bs = 4"
  have "from_be bs < 2 ^ 32" using from_be_bound [of bs] len by simp
  then have "unat (word_of_nat (from_be bs) :: 32 word) = from_be bs"
    by (simp add: unsigned_of_nat take_bit_nat_eq_self)
  then show ?thesis using be_nat_from_be [of bs] len by (simp add: octets4_def)
qed

lemma word_of_from_be_octets6: "length bs = 16 \<Longrightarrow> octets6 (word_of_nat (from_be bs)) = bs"
proof -
  assume len: "length bs = 16"
  have "from_be bs < 2 ^ 128" using from_be_bound [of bs] len by simp
  then have "unat (word_of_nat (from_be bs) :: 128 word) = from_be bs"
    by (simp add: unsigned_of_nat take_bit_nat_eq_self)
  then show ?thesis using be_nat_from_be [of bs] len by (simp add: octets6_def)
qed

lemma read_peer_ip_Inr:
  assumes "read_peer_ip s = Inr (ip, rest)"
  shows "s = encode_peer_ip (map_option (\<lambda>a. SocketAddr a p) ip) @ rest"
  using assms
  by (auto simp: read_peer_ip_def and_then_Inr_iff read_exact_Inr_iff encode_peer_ip_def
      word_of_from_be_octets4 word_of_from_be_octets6 length_Suc_conv split: if_splits)

lemma read_preamble_Inr:
  assumes "read_preamble s = Inr ((rid, Some peer, replay), rest)"
  shows "s = encode_preamble rid (Some peer) replay @ rest"
proof -
  from assms obtain hdr s1 ip s2 p s3 rl s4 where
      hdr: "s = hdr @ s1" "length hdr = 7" "take 4 hdr = STREAM_MAGIC" "hdr ! 4 = STREAM_VERSION"
        "rid = from_be16 (drop 5 hdr)"
    and ip: "read_peer_ip s1 = Inr (Some ip, s2)" "peer = SocketAddr ip (from_be16 p)"
    and p: "s2 = p @ s3" "length p = 2"
    and rl: "s3 = rl @ s4" "length rl = 2" "unat (from_be16 rl) \<le> MAX_REPLAY"
    and rep: "s4 = replay @ rest" "length replay = unat (from_be16 rl)"
    by (auto simp: read_preamble_def and_then_Inr_iff read_exact_Inr_iff Let_def
        split: option.splits)
  have "hdr = take 4 hdr @ [hdr ! 4] @ drop 5 hdr"
    using id_take_nth_drop [of 4 hdr] hdr(2) by simp
  then have h: "hdr = STREAM_MAGIC @ [STREAM_VERSION] @ be16 rid"
    using hdr by (simp add: be16_from_be16)
  have s1: "s1 = encode_peer_ip (Some peer) @ s2"
    using read_peer_ip_Inr [OF ip(1), of "from_be16 p"] ip(2) by simp
  have "be16 (word_of_nat (length replay)) = rl"
    using rep(2) rl(2) by (simp add: be16_from_be16)
  then show ?thesis
    using h s1 hdr(1) ip(2) p rl rep
    by (simp add: encode_preamble_def Let_def be16_from_be16)
qed

section \<open>UDP datagram framing\<close>

definition MAX_DATAGRAM :: nat where
  "MAX_DATAGRAM = 65535"

definition write_datagram :: "bytes \<Rightarrow> bytes" where
  "write_datagram data =
     (let len = min (length data) MAX_DATAGRAM in be16 (word_of_nat len) @ take len data)"

text \<open>
  A stream that ends before or inside the two length bytes is a clean end: \<^verbatim>\<open>None\<close>. An end inside
  the payload is the error.
\<close>

definition read_datagram :: "bytes \<Rightarrow> io_error + bytes option \<times> bytes" where
  "read_datagram s =
     (case read_exact 2 s of
        Inl UnexpectedEof \<Rightarrow> Inr (None, [])
      | Inl e \<Rightarrow> Inl e
      | Inr (lb, s) \<Rightarrow>
          and_then (read_exact (unat (from_be16 lb)) s) (\<lambda>(buf, s). Inr (Some buf, s)))"

text \<open>\<^verbatim>\<open>while let Ok(Some(d)) = read_datagram(..)\<close>: the datagrams delivered until the stream ends.\<close>

function read_datagrams :: "bytes \<Rightarrow> bytes list" where
  "read_datagrams s =
     (case read_datagram s of
        Inr (Some d, s') \<Rightarrow> d # read_datagrams s'
      | _ \<Rightarrow> [])"
  by pat_completeness auto
termination
  by (relation "measure length")
    (auto simp: read_datagram_def and_then_Inr_iff read_exact_Inr_iff
      split: sum.splits io_error.splits)

declare read_datagrams.simps [simp del]

lemma read_write_datagram [codec_simps]:
  "length d \<le> MAX_DATAGRAM \<Longrightarrow> read_datagram (write_datagram d @ rest) = Inr (Some d, rest)"
  by (simp add: read_datagram_def write_datagram_def MAX_DATAGRAM_def Let_def)

lemma read_datagram_Nil [simp]: "read_datagram [] = Inr (None, [])"
  by (simp add: read_datagram_def)

lemma read_datagrams_Nil [simp]: "read_datagrams [] = []"
  by (subst read_datagrams.simps) simp

lemma read_datagrams_write:
  "\<forall>d \<in> set ds. length d \<le> MAX_DATAGRAM \<Longrightarrow> read_datagrams (concat (map write_datagram ds)) = ds"
  by (induction ds) (simp_all add: read_datagrams.simps [of "write_datagram d @ s" for d s] codec_simps)

text \<open>A stream cut at any point still delivers a prefix of the datagrams, never a damaged one.\<close>

lemma length_write_datagram: "length d \<le> MAX_DATAGRAM \<Longrightarrow> length (write_datagram d) = 2 + length d"
  by (simp add: write_datagram_def Let_def)

lemma read_datagram_cut:
  assumes "length d \<le> MAX_DATAGRAM" and "n < length (write_datagram d)"
  shows "read_datagrams (take n (write_datagram d)) = []"
proof (cases "n < 2")
  case True
  then show ?thesis by (subst read_datagrams.simps) (simp add: read_datagram_def)
next
  case False
  have "take n (write_datagram d) = be16 (word_of_nat (length d)) @ take (n - 2) d"
    using False assms(1) by (simp add: write_datagram_def Let_def)
  moreover have "length (take (n - 2) d) < length d"
    using assms False by (simp add: length_write_datagram)
  ultimately show ?thesis
    using assms(1) by (subst read_datagrams.simps) (simp add: read_datagram_def MAX_DATAGRAM_def)
qed

section \<open>Control frames\<close>

definition MAX_FRAME :: nat where
  "MAX_FRAME = 2 ^ 20"

definition read_frame :: "bytes \<Rightarrow> proto_error + bytes \<times> bytes" where
  "read_frame s =
     and_then (lift_io (read_exact 4 s)) (\<lambda>(lb, s).
       let len = unat (from_be32 lb) in
       if MAX_FRAME < len then Inl (FrameTooLarge len)
       else lift_io (read_exact len s))"

definition write_frame :: "bytes \<Rightarrow> bytes" where
  "write_frame data = be32 (word_of_nat (length data)) @ data"

lemma read_write_frame [codec_simps]:
  assumes "length data \<le> MAX_FRAME"
  shows "read_frame (write_frame data @ rest) = Inr (data, rest)"
proof -
  have "unat (word_of_nat (length data) :: u32) = length data"
    using assms by (simp add: MAX_FRAME_def unsigned_of_nat take_bit_nat_eq_self)
  then show ?thesis using assms by (simp add: read_frame_def write_frame_def Let_def)
qed

section \<open>The codecs meet the contract\<close>

interpretation preamble: prefix_codec
  "\<lambda>(rid, peer, replay). encode_preamble rid peer replay" read_preamble
  "\<lambda>(rid, peer, replay). length replay \<le> MAX_REPLAY"
  by unfold_locales (auto simp: read_preamble_encode)

interpretation datagram: prefix_codec
  "\<lambda>d. write_datagram (the d)" read_datagram "\<lambda>d. d \<noteq> None \<and> length (the d) \<le> MAX_DATAGRAM"
  by unfold_locales (auto simp: codec_simps)

interpretation frame: prefix_codec write_frame read_frame "\<lambda>d. length d \<le> MAX_FRAME"
  by unfold_locales (simp add: codec_simps)

section \<open>Properties\<close>

text \<open>
  The function \<^verbatim>\<open>validate_shape\<close> accepts exactly the claims with version 1, the purpose \<^verbatim>\<open>tunnel\<close>, pairwise
  distinct route ids, a host and no port on every http/https route and a port and no host on every
  other route.
\<close>

theorem validate_shape_exact:
  "validate_shape c = Inr () \<longleftrightarrow>
     tc_v c = 1 \<and> tc_purpose c = ''tunnel'' \<and> distinct (map rc_route_id (tc_routes c))
     \<and> list_all (\<lambda>r. if is_host_routed (rc_mode r) then rc_host r \<noteq> None \<and> rc_public_port r = None
                     else rc_host r = None \<and> rc_public_port r \<noteq> None) (tc_routes c)"
  by (auto simp: validate_shape_Inr_iff route_shape_ok_def list_all_iff)



text \<open>
  The preamble reader accepts only what the writer produces: when it reports a peer, the bytes
  it consumed are the encoding of the values it returned, and those values fit the format.
\<close>

theorem read_preamble_exact:
  assumes "read_preamble s = Inr ((route_id, Some peer, replay), rest)"
  shows "s = encode_preamble route_id (Some peer) replay @ rest"
  by (rule read_preamble_Inr [OF assms])

theorem read_preamble_exact_witness:
  "encode_preamble 3 (Some (SocketAddr (V4 1) 9)) ''x'' @ ''y''
     = encode_preamble 3 (Some (SocketAddr (V4 1) 9)) ''x'' @ ''y''"
  by (rule read_preamble_exact) (rule read_preamble_encode, simp add: MAX_REPLAY_def)

lemma read_datagrams_cut_lemma:
  "\<forall>d \<in> set ds. length d \<le> MAX_DATAGRAM \<Longrightarrow> length d' \<le> MAX_DATAGRAM \<Longrightarrow> n < length (write_datagram d')
     \<Longrightarrow> read_datagrams (concat (map write_datagram ds) @ take n (write_datagram d')) = ds"
  by (induction ds)
    (simp_all add: read_datagram_cut read_datagrams.simps [of "write_datagram d @ s" for d s] codec_simps)

text \<open>
  Datagrams keep their boundaries on a stream: what was written with \<^verbatim>\<open>write_datagram\<close> is read
  back in order, one value per datagram (empty ones included); and a stream cut inside a further
  datagram yields exactly the datagrams before it, never a damaged one.
\<close>

theorem datagram_stream_roundtrip:
  assumes "\<forall>d \<in> set ds. length d \<le> MAX_DATAGRAM" and "length d' \<le> MAX_DATAGRAM"
    and "n < length (write_datagram d')"
  shows "read_datagrams (concat (map write_datagram ds)) = ds
    \<and> read_datagrams (concat (map write_datagram ds) @ take n (write_datagram d')) = ds"
  using read_datagrams_write [OF assms(1)] read_datagrams_cut_lemma [OF assms] by blast

theorem datagram_stream_roundtrip_witness:
  "read_datagrams (concat (map write_datagram [''ab'', [], ''c''])) = [''ab'', [], ''c'']
   \<and> read_datagrams (concat (map write_datagram [''ab'', [], ''c'']) @ take 3 (write_datagram ''lost''))
     = [''ab'', [], ''c'']"
  by (rule datagram_stream_roundtrip) (simp_all add: MAX_DATAGRAM_def length_write_datagram)

text \<open>
  A control frame of at most 1 MiB is read back exactly, and a frame that announces more than
  1 MiB is refused from its four length bytes alone, whatever else the peer sends.
\<close>

theorem frame_roundtrip_and_limit:
  "(length data \<le> MAX_FRAME \<longrightarrow> read_frame (write_frame data @ rest) = Inr (data, rest))
   \<and> (MAX_FRAME < unat len \<longrightarrow> read_frame (be32 len @ anything) = Inl (FrameTooLarge (unat len)))"
  using read_write_frame [of data rest] by (simp add: read_frame_def)

theorem frame_roundtrip_and_limit_witness:
  "read_frame (write_frame ''{}'' @ ''x'') = Inr (''{}'', ''x'')
   \<and> read_frame (be32 0x00100001 @ ''x'') = Inl (FrameTooLarge 0x00100001)"
  using frame_roundtrip_and_limit [of "''{}''" "''x''" "0x00100001" "''x''"]
  by (simp add: MAX_FRAME_def)

end
