(* ===== verification/NodeConfig.thy ===== *)
theory NodeConfig
  imports RustStr
begin

text \<open>
  The node's configuration (\<^verbatim>\<open>natforge-node/src/config.rs\<close>). The process environment is a map
  from names to values (a variable that is not Unicode counts as absent, as \<^verbatim>\<open>env::var\<close> reports it).
\<close>

type_synonym environ = "string \<Rightarrow> string option"

record Config =
  internal_api_port :: nat
  control_port :: nat
  http_port :: nat
  https_port :: nat
  public_host :: string
  node_id :: string
  node_name :: string
  node_region :: "string option"
  control_endpoint :: string
  internal_url :: string
  public_port_min :: int
  public_port_max :: int
  website_url :: string
  redis_url :: string
  jwt_secret :: string
  internal_secret :: string
  max_header_bytes :: nat
  geoip_db :: string
  dashboard_addr :: string
  cf_api_token :: string
  cf_zone_id :: string
  wildcard_cert_path :: "string option"
  wildcard_key_path :: "string option"
  acme_enabled :: bool
  acme_email :: string
  acme_dir :: string
  acme_staging :: bool
  acme_directory_url :: "string option"

definition env_or :: "environ \<Rightarrow> string \<Rightarrow> string \<Rightarrow> string" where
  "env_or env key dflt = (case env key of Some v \<Rightarrow> v | None \<Rightarrow> dflt)"

definition env_nonblank :: "environ \<Rightarrow> string \<Rightarrow> string option" where
  "env_nonblank env key =
     (case env key of Some s \<Rightarrow> if trim s \<noteq> [] then Some s else None | None \<Rightarrow> None)"

definition env_bool :: "environ \<Rightarrow> string \<Rightarrow> bool \<Rightarrow> bool" where
  "env_bool env key dflt =
     (case env key of Some v \<Rightarrow> v = ''1'' \<or> eq_ignore_ascii_case v ''true'' | None \<Rightarrow> dflt)"

definition env_u16 :: "environ \<Rightarrow> string \<Rightarrow> nat \<Rightarrow> nat" where
  "env_u16 env key dflt =
     (case (case env key of Some v \<Rightarrow> parse_uint 65535 v | None \<Rightarrow> None) of
        Some n \<Rightarrow> n
      | None \<Rightarrow> dflt)"

definition env_usize :: "environ \<Rightarrow> string \<Rightarrow> nat \<Rightarrow> nat" where
  "env_usize env key dflt =
     (case env key of
        Some v \<Rightarrow> (case parse_uint (2 ^ 64 - 1) v of Some n \<Rightarrow> n | None \<Rightarrow> dflt)
      | None \<Rightarrow> dflt)"

definition from_env :: "environ \<Rightarrow> Config" where
  "from_env env =
     (let control_port = env_u16 env ''CORE_CONTROL_PORT'' 4000;
          internal_api_port = env_u16 env ''CORE_INTERNAL_PORT'' 3001;
          public_host = env_or env ''PUBLIC_HOST'' ''natforge.com''
      in \<lparr> internal_api_port = internal_api_port,
           control_port = control_port,
           http_port = env_u16 env ''HTTP_PORT'' 8080,
           https_port = env_u16 env ''HTTPS_PORT'' 8443,
           public_host = public_host,
           node_id = env_or env ''NODE_ID'' ''edge-1'',
           node_name = env_or env ''NODE_NAME'' ''Local'',
           node_region = env_nonblank env ''NODE_REGION'',
           control_endpoint = env_or env ''CONTROL_ENDPOINT'' (public_host @ '':'' @ nat_str control_port),
           internal_url = env_or env ''INTERNAL_URL'' (''http://127.0.0.1:'' @ nat_str internal_api_port),
           public_port_min = int (env_u16 env ''PUBLIC_PORT_MIN'' 20000),
           public_port_max = int (env_u16 env ''PUBLIC_PORT_MAX'' 20100),
           website_url = env_or env ''WEBSITE_URL'' ''http://127.0.0.1:3000'',
           redis_url = env_or env ''REDIS_URL'' ''redis://127.0.0.1:6379'',
           jwt_secret = env_or env ''JWT_SECRET'' ''natforge-dev-secret-change-me'',
           internal_secret = env_or env ''INTERNAL_SECRET'' ''natforge-internal-dev-secret'',
           max_header_bytes = env_usize env ''MAX_HEADER_BYTES'' 16384,
           geoip_db = env_or env ''GEOIP_DB'' [],
           dashboard_addr = env_or env ''DASHBOARD_ADDR'' ''127.0.0.1:3000'',
           cf_api_token = env_or env ''CF_API_TOKEN'' ''mock_token'',
           cf_zone_id = env_or env ''CF_ZONE_ID'' ''mock_zone'',
           wildcard_cert_path = env_nonblank env ''WILDCARD_CERT_PATH'',
           wildcard_key_path = env_nonblank env ''WILDCARD_KEY_PATH'',
           acme_enabled = env_bool env ''ACME_ENABLED'' False,
           acme_email = env_or env ''ACME_EMAIL'' [],
           acme_dir = env_or env ''ACME_DIR'' ''/etc/natforge/acme'',
           acme_staging = env_bool env ''ACME_STAGING'' False,
           acme_directory_url = env_nonblank env ''ACME_DIRECTORY_URL'' \<rparr>)"

lemma env_u16_bound: "dflt \<le> 65535 \<Longrightarrow> env_u16 env key dflt \<le> 65535"
  by (auto simp: env_u16_def split: option.split dest: parse_uint_bound)

lemma env_usize_bound: "dflt \<le> 2 ^ 64 - 1 \<Longrightarrow> env_usize env key dflt \<le> 2 ^ 64 - 1"
  by (auto simp: env_usize_def split: option.split dest: parse_uint_bound)

text \<open>Whatever the environment holds, every port of the configuration is a 16-bit port.\<close>

lemma from_env_ports:
  "http_port (from_env env) \<le> 65535" "https_port (from_env env) \<le> 65535"
  "control_port (from_env env) \<le> 65535" "internal_api_port (from_env env) \<le> 65535"
  "0 \<le> public_port_min (from_env env)" "public_port_max (from_env env) \<le> 65535"
  by (simp_all add: from_env_def Let_def env_u16_bound)

end
