(* ===== verification/NodeState.thy ===== *)
theory NodeState
  imports Proto NodeConfig
begin

text \<open>
  The in-memory state of a node (\<^verbatim>\<open>natforge-node/src/state.rs\<close>): the six route registries, the
  active tunnels and the geo policy, with the lookups of the data plane; and the two places that
  fill the policy (\<^verbatim>\<open>refresh_policy\<close> in \<^verbatim>\<open>reporter.rs\<close>) and read the state (\<^verbatim>\<open>api.rs\<close>).

  An \<^verbatim>\<open>open_tx\<close> sender is the identifier of the session whose driver receives from it; byte
  counters are shared per session and live with it.
\<close>

type_synonym session_id = nat

record RouteHandle =
  h_tunnel_id :: int
  h_owner_id :: int
  h_route_id :: u16
  h_mode :: RouteMode
  h_open_tx :: session_id

text \<open>Listener tasks are named by transport (\<^verbatim>\<open>True\<close> for udp), port and session.\<close>

type_synonym listener = "bool \<times> u16 \<times> session_id"

record ActiveTunnel =
  at_tunnel_id :: int
  at_subdomain :: string
  at_owner_id :: int
  at_public_ports :: "u16 list"
  at_udp_ports :: "u16 list"
  at_custom_domain :: "string option"
  at_srv_records :: "(string \<times> string) list"
  at_has_http :: bool
  at_has_https :: bool
  at_listener_handles :: "listener list"
  at_driver_abort :: session_id

record CoreState =
  tunnels :: "string \<Rightarrow> ActiveTunnel option"
  http_routes :: "string \<Rightarrow> RouteHandle option"
  https_routes :: "string \<Rightarrow> RouteHandle option"
  port_routes :: "u16 \<Rightarrow> RouteHandle option"
  udp_routes :: "u16 \<Rightarrow> RouteHandle option"
  custom_http :: "string \<Rightarrow> RouteHandle option"
  custom_https :: "string \<Rightarrow> RouteHandle option"
  blocked_regions :: "string list"
  tunnel_region_blocks :: "int \<Rightarrow> string list option"
  wildcard_tls :: bool

definition empty_state :: CoreState where
  "empty_state =
     \<lparr> tunnels = Map.empty, http_routes = Map.empty, https_routes = Map.empty,
       port_routes = Map.empty, udp_routes = Map.empty, custom_http = Map.empty,
       custom_https = Map.empty, blocked_regions = [], tunnel_region_blocks = Map.empty,
       wildcard_tls = False \<rparr>"

section \<open>Lookups\<close>

definition host_route :: "CoreState \<Rightarrow> string \<Rightarrow> RouteMode \<Rightarrow> RouteHandle option" where
  "host_route st subdomain mode =
     (case mode of Http \<Rightarrow> http_routes st subdomain | Https \<Rightarrow> https_routes st subdomain | _ \<Rightarrow> None)"

definition custom_host_route :: "CoreState \<Rightarrow> string \<Rightarrow> RouteMode \<Rightarrow> RouteHandle option" where
  "custom_host_route st host mode =
     (case mode of Http \<Rightarrow> custom_http st host | Https \<Rightarrow> custom_https st host | _ \<Rightarrow> None)"

fun loop_contains :: "string list \<Rightarrow> string \<Rightarrow> bool" where
  "loop_contains [] cc = False"
| "loop_contains (c # cs) cc = (if c = cc then True else loop_contains cs cc)"

definition is_country_blocked :: "CoreState \<Rightarrow> int \<Rightarrow> string option \<Rightarrow> bool" where
  "is_country_blocked st tunnel_id country =
     (case country of
        None \<Rightarrow> False
      | Some cc \<Rightarrow>
          if loop_contains (blocked_regions st) cc then True
          else (case tunnel_region_blocks st tunnel_id of
                  Some list \<Rightarrow> loop_contains list cc
                | None \<Rightarrow> False))"

lemma loop_contains_iff [simp]: "loop_contains cs cc \<longleftrightarrow> cc \<in> set cs"
  by (induction cs) auto

lemma is_country_blocked_iff:
  "is_country_blocked st tid country \<longleftrightarrow>
     (\<exists>cc. country = Some cc \<and>
        (cc \<in> set (blocked_regions st) \<or> (\<exists>l. tunnel_region_blocks st tid = Some l \<and> cc \<in> set l)))"
  by (auto simp: is_country_blocked_def split: option.split)

section \<open>The policy pulled from the control plane\<close>

text \<open>
  What \<^verbatim>\<open>refresh_policy\<close> looks into.
\<close>

definition get_field :: "Json \<Rightarrow> string \<Rightarrow> Json option" where
  "get_field v k = (case v of JObj fs \<Rightarrow> map_of fs k | _ \<Rightarrow> None)"

definition as_array :: "Json \<Rightarrow> Json list option" where
  "as_array v = (case v of JArr vs \<Rightarrow> Some vs | _ \<Rightarrow> None)"

definition as_object :: "Json \<Rightarrow> (string \<times> Json) list option" where
  "as_object v = (case v of JObj fs \<Rightarrow> Some fs | _ \<Rightarrow> None)"

fun upper_strings :: "(string \<Rightarrow> string) \<Rightarrow> Json list \<Rightarrow> string list" where
  "upper_strings up [] = []"
| "upper_strings up (JStr s # vs) = up s # upper_strings up vs"
| "upper_strings up (_ # vs) = upper_strings up vs"

fun policy_blocks ::
    "(string \<Rightarrow> string) \<Rightarrow> (string \<times> Json) list \<Rightarrow> (int \<Rightarrow> string list option) \<Rightarrow> (int \<Rightarrow> string list option)" where
  "policy_blocks up [] out = out"
| "policy_blocks up ((k, val) # fs) out =
     (case (parse_int i64_min i64_max k, as_array val) of
        (Some tid, Some arr) \<Rightarrow>
          (let codes = upper_strings up arr
           in policy_blocks up fs (if codes \<noteq> [] then out(tid \<mapsto> codes) else out))
      | _ \<Rightarrow> policy_blocks up fs out)"

text \<open>The reply is \<^verbatim>\<open>None\<close> when the request or the JSON decoding failed; \<^verbatim>\<open>up\<close> is \<^verbatim>\<open>str::to_uppercase\<close>.\<close>

definition refresh_policy :: "(string \<Rightarrow> string) \<Rightarrow> Json option \<Rightarrow> CoreState \<Rightarrow> CoreState" where
  "refresh_policy up reply st =
     (case reply of
        None \<Rightarrow> st
      | Some v \<Rightarrow>
          let st = (case Option.bind (get_field v ''blocked_regions'') as_array of
                      Some regions \<Rightarrow> st\<lparr>blocked_regions := upper_strings up regions\<rparr>
                    | None \<Rightarrow> st)
          in case Option.bind (get_field v ''tunnel_region_blocks'') as_object of
               Some fs \<Rightarrow> st\<lparr>tunnel_region_blocks := policy_blocks up fs Map.empty\<rparr>
             | None \<Rightarrow> st)"

section \<open>Owner-checked removal\<close>

text \<open>
  Every registry of the node is cleaned the same way: an entry goes only if its handle belongs to the
  tunnel that is going down.
\<close>

definition remove_owned :: "int \<Rightarrow> 'k \<Rightarrow> ('k \<Rightarrow> RouteHandle option) \<Rightarrow> ('k \<Rightarrow> RouteHandle option)" where
  "remove_owned tid k m = (if map_option h_tunnel_id (m k) = Some tid then m(k := None) else m)"

fun remove_owned_list :: "int \<Rightarrow> 'k list \<Rightarrow> ('k \<Rightarrow> RouteHandle option) \<Rightarrow> ('k \<Rightarrow> RouteHandle option)" where
  "remove_owned_list tid [] m = m"
| "remove_owned_list tid (k # ks) m = remove_owned_list tid ks (remove_owned tid k m)"

definition remove_owned_opt :: "int \<Rightarrow> 'k option \<Rightarrow> ('k \<Rightarrow> RouteHandle option) \<Rightarrow> ('k \<Rightarrow> RouteHandle option)" where
  "remove_owned_opt tid k m = (case k of Some k \<Rightarrow> remove_owned tid k m | None \<Rightarrow> m)"

text \<open>The contract of an owner-checked cleanup of the keys \<^verbatim>\<open>covers\<close> on one registry.\<close>

locale owner_cleanup =
  fixes cleanup :: "int \<Rightarrow> ('k \<Rightarrow> RouteHandle option) \<Rightarrow> ('k \<Rightarrow> RouteHandle option)"
    and covers :: "'k \<Rightarrow> bool"
  assumes cleanup_hit: "covers k \<Longrightarrow> m k = Some h \<Longrightarrow> h_tunnel_id h = tid \<Longrightarrow> cleanup tid m k = None"
    and cleanup_keep: "m k = Some h \<Longrightarrow> h_tunnel_id h \<noteq> tid \<or> \<not> covers k \<Longrightarrow> cleanup tid m k = Some h"
    and cleanup_none: "m k = None \<Longrightarrow> cleanup tid m k = None"
begin

lemma cleanup_le: "cleanup tid m k = Some h \<Longrightarrow> m k = Some h"
  by (metis cleanup_hit cleanup_keep cleanup_none not_None_eq option.inject)

lemma cleanup_gone: "covers k \<Longrightarrow> cleanup tid m k = Some h \<Longrightarrow> h_tunnel_id h \<noteq> tid"
  by (metis cleanup_hit cleanup_le option.distinct(1))

lemma cleanup_iff: "cleanup tid m k = Some h \<longleftrightarrow> m k = Some h \<and> (h_tunnel_id h \<noteq> tid \<or> \<not> covers k)"
  by (metis cleanup_gone cleanup_keep cleanup_le)

lemma cleanup_idem: "cleanup tid (cleanup tid m) = cleanup tid m"
proof (rule ext)
  fix k
  show "cleanup tid (cleanup tid m) k = cleanup tid m k"
    by (metis cleanup_keep cleanup_none cleanup_gone not_None_eq)
qed

end

lemma remove_owned_list_eq:
  "remove_owned_list tid ks m k =
     (if k \<in> set ks \<and> map_option h_tunnel_id (m k) = Some tid then None else m k)"
  by (induction ks arbitrary: m) (auto simp: remove_owned_def)

interpretation one_key: owner_cleanup "\<lambda>tid. remove_owned tid key" "\<lambda>k. k = key" for key
  by unfold_locales (auto simp: remove_owned_def)

interpretation opt_key: owner_cleanup "\<lambda>tid. remove_owned_opt tid key" "\<lambda>k. key = Some k" for key
  by unfold_locales (auto simp: remove_owned_opt_def remove_owned_def split: option.split)

interpretation all_keys: owner_cleanup "\<lambda>tid. remove_owned_list tid ks" "\<lambda>k. k \<in> set ks" for ks
  by unfold_locales (auto simp: remove_owned_list_eq)

section \<open>The internal API\<close>

text \<open>\<^verbatim>\<open>check_secret\<close>: the header's value when it is visible ASCII, otherwise the empty string.\<close>

definition visible_ascii :: "bytes \<Rightarrow> bool" where
  "visible_ascii v = list_all (\<lambda>c. (32 \<le> byte_val c \<and> byte_val c < 127) \<or> byte_val c = 9) v"

definition check_secret :: "Config \<Rightarrow> bytes option \<Rightarrow> (nat \<times> string) + unit" where
  "check_secret cfg header =
     (let provided = (case header of Some v \<Rightarrow> if visible_ascii v then v else [] | None \<Rightarrow> [])
      in if provided = internal_secret cfg then Inr () else Inl (401, ''bad internal secret''))"

lemma check_secret_iff:
  "check_secret cfg header = Inr u \<longleftrightarrow>
     (case header of Some v \<Rightarrow> if visible_ascii v then v = internal_secret cfg else internal_secret cfg = []
                   | None \<Rightarrow> internal_secret cfg = [])"
  by (auto simp: check_secret_def Let_def split: option.split)

end
