(* ===== verification/Session.thy ===== *)
theory Session
  imports NodeState
begin

text \<open>
  The control plane of a node (\<^verbatim>\<open>natforge-node/src/tunnel/mod.rs\<close>, \<^verbatim>\<open>jwt.rs\<close> and the stop call of
  \<^verbatim>\<open>api.rs\<close>): the admission of an agent, the registration of its routes, the teardown, and the
  interleaving of all these over the shared registries as a step relation.

  Parameters: \<^verbatim>\<open>decode\<close> is the JWT library (signature and expiry), \<^verbatim>\<open>os_bind\<close> the error the
  operating system gives for a bind, if any. A port another listener of the node holds cannot be
  bound again. The socket, yamux and DNS calls have no part in the registries; the SRV records a
  session asked for are kept as the code keeps them.
\<close>

section \<open>Token verification\<close>

type_synonym jwt_decoder = "string \<Rightarrow> string \<Rightarrow> string + TunnelClaims"

definition verify_tunnel_token :: "jwt_decoder \<Rightarrow> string \<Rightarrow> string \<Rightarrow> string + TunnelClaims" where
  "verify_tunnel_token decode token secret =
     (case decode token secret of
        Inl e \<Rightarrow> Inl (''invalid tunnel token: '' @ e)
      | Inr claims \<Rightarrow> and_then (validate_shape claims) (\<lambda>_. Inr claims))"

lemma verify_tunnel_token_Inr:
  "verify_tunnel_token decode token secret = Inr c \<longleftrightarrow>
     decode token secret = Inr c \<and> validate_shape c = Inr ()"
  by (auto simp: verify_tunnel_token_def and_then_Inr_iff split: sum.split)

section \<open>Admission\<close>

record PlannedRoute =
  p_route_id :: u16
  p_mode :: RouteMode
  p_public_port :: "u16 option"
  p_public_endpoint :: string
  p_srv_service :: "string option"

type_synonym sockets = "bool \<times> u16 \<Rightarrow> session_id option"
type_synonym os_bind = "bool \<Rightarrow> u16 \<Rightarrow> string option"

definition bind_error :: "os_bind \<Rightarrow> sockets \<Rightarrow> bool \<Rightarrow> u16 \<Rightarrow> string option" where
  "bind_error os bound udp port =
     (if bound (udp, port) \<noteq> None then Some ''Address already in use (os error 98)'' else os udp port)"

definition granted :: "TunnelClaims \<Rightarrow> u16 \<Rightarrow> RouteClaim option" where
  "granted c = map_of (rev (map (\<lambda>r. (rc_route_id r, r)) (tc_routes c)))"

fun check_bindings :: "TunnelClaims \<Rightarrow> AgentRouteBinding list \<Rightarrow> string + unit" where
  "check_bindings c [] = Inr ()"
| "check_bindings c (b # bs) =
     (if granted c (b_route_id b) = None
      then Inl (''route_id '' @ nat_str (unat (b_route_id b)) @ '' not authorized'')
      else check_bindings c bs)"

definition free_or_ours :: "int \<Rightarrow> int option \<Rightarrow> bool" where
  "free_or_ours tunnel_id existing \<longleftrightarrow> existing = None \<or> existing = Some tunnel_id"

definition may_proceed :: "CoreState \<Rightarrow> TunnelClaims \<Rightarrow> bool" where
  "may_proceed st c \<longleftrightarrow>
     free_or_ours (tc_tunnel_id c) (map_option h_tunnel_id (http_routes st (tc_subdomain c)))
     \<and> free_or_ours (tc_tunnel_id c) (map_option h_tunnel_id (https_routes st (tc_subdomain c)))"

text \<open>The bind pass: the planned routes, the pre-bound tcp and udp sockets, all sockets now held.\<close>

fun bind_routes ::
    "os_bind \<Rightarrow> Config \<Rightarrow> string \<Rightarrow> session_id \<Rightarrow> RouteClaim list \<Rightarrow> sockets
     \<Rightarrow> string + (PlannedRoute list \<times> (u16 \<times> u16) list \<times> (u16 \<times> u16) list \<times> sockets)" where
  "bind_routes os cfg sub sid [] bound = Inr ([], [], [], bound)"
| "bind_routes os cfg sub sid (r # rs) bound =
     (let port = (case rc_public_port r of Some p \<Rightarrow> p | None \<Rightarrow> 0);
          plan = (\<lambda>endpoint. \<lparr> p_route_id = rc_route_id r, p_mode = rc_mode r,
            p_public_port = rc_public_port r, p_public_endpoint = endpoint,
            p_srv_service = rc_srv_service r \<rparr>)
      in case rc_mode r of
           Http \<Rightarrow>
             and_then (bind_routes os cfg sub sid rs bound) (\<lambda>(ps, tcp, udp, bound).
               Inr (plan (sub @ ''.'' @ public_host cfg @ '':'' @ nat_str (http_port cfg)) # ps, tcp, udp, bound))
         | Https \<Rightarrow>
             and_then (bind_routes os cfg sub sid rs bound) (\<lambda>(ps, tcp, udp, bound).
               Inr (plan (sub @ ''.'' @ public_host cfg @ '':'' @ nat_str (https_port cfg)) # ps, tcp, udp, bound))
         | Tcp \<Rightarrow>
             (case bind_error os bound False port of
                Some e \<Rightarrow> Inl (''failed to bind public port '' @ nat_str (unat port) @ '': '' @ e)
              | None \<Rightarrow>
                  and_then (bind_routes os cfg sub sid rs (bound((False, port) \<mapsto> sid))) (\<lambda>(ps, tcp, udp, bound).
                    Inr (plan (public_host cfg @ '':'' @ nat_str (unat port)) # ps,
                         (rc_route_id r, port) # tcp, udp, bound)))
         | Udp \<Rightarrow>
             (case bind_error os bound True port of
                Some e \<Rightarrow> Inl (''failed to bind public udp port '' @ nat_str (unat port) @ '': '' @ e)
              | None \<Rightarrow>
                  and_then (bind_routes os cfg sub sid rs (bound((True, port) \<mapsto> sid))) (\<lambda>(ps, tcp, udp, bound).
                    Inr (plan (public_host cfg @ '':'' @ nat_str (unat port)) # ps,
                         tcp, (rc_route_id r, port) # udp, bound)))
         | Both \<Rightarrow> Inl ''unexpected 'both' route in token'')"

text \<open>The locals of \<^verbatim>\<open>handle_agent\<close> while its session lives.\<close>

datatype td_step = TdTunnels | TdHttp | TdHttps | TdPorts | TdUdp | TdCustomHttp | TdCustomHttps

datatype phase = Registering | Live | Ending "td_step list" | Ended

record Session =
  s_token :: string
  s_claims :: TunnelClaims
  s_planned :: "PlannedRoute list"
  s_tcp_listeners :: "(u16 \<times> u16) list"
  s_udp_sockets :: "(u16 \<times> u16) list"
  s_public_ports :: "u16 list"
  s_udp_ports :: "u16 list"
  s_has_http :: bool
  s_has_https :: bool
  s_listener_handles :: "listener list"
  s_srv_records :: "(string \<times> string) list"
  s_phase :: phase

text \<open>Steps 1 to 3 of \<^verbatim>\<open>handle_agent\<close>: everything that can reject the agent, in its order.\<close>

definition admit ::
    "jwt_decoder \<Rightarrow> os_bind \<Rightarrow> Config \<Rightarrow> CoreState \<Rightarrow> sockets \<Rightarrow> session_id \<Rightarrow> AgentHello
     \<Rightarrow> string + (Session \<times> sockets)" where
  "admit decode os cfg st bound sid hello =
     and_then (ensure (hello_role hello = ROLE_SERVICE_HOST)
                 (''unsupported role '' @ [CHR 0x27] @ hello_role hello @ [CHR 0x27])) (\<lambda>_.
     and_then (verify_tunnel_token decode (hello_token hello) (jwt_secret cfg)) (\<lambda>claims.
     and_then (check_bindings claims (hello_routes hello)) (\<lambda>_.
     and_then (ensure (may_proceed st claims)
                 (''subdomain '' @ tc_subdomain claims @ '' already in use'')) (\<lambda>_.
     and_then (bind_routes os cfg (tc_subdomain claims) sid (tc_routes claims) bound)
       (\<lambda>(planned, tcp, udp, bound).
       Inr (\<lparr> s_token = hello_token hello, s_claims = claims, s_planned = planned,
              s_tcp_listeners = tcp, s_udp_sockets = udp, s_public_ports = [], s_udp_ports = [],
              s_has_http = False, s_has_https = False, s_listener_handles = [], s_srv_records = [],
              s_phase = Registering \<rparr>, bound))))))"

text \<open>The acknowledgement the agent gets.\<close>

definition reply_for :: "Session \<Rightarrow> CoreReply" where
  "reply_for s =
     ReplyOk (tc_tunnel_id (s_claims s)) (tc_subdomain (s_claims s))
       (map (\<lambda>p. \<lparr> rr_route_id = p_route_id p, rr_mode = p_mode p,
                    rr_public_endpoint = p_public_endpoint p \<rparr>) (s_planned s))"

section \<open>Registration\<close>

fun take_listener :: "u16 \<Rightarrow> (u16 \<times> u16) list \<Rightarrow> ((u16 \<times> u16) \<times> (u16 \<times> u16) list) option" where
  "take_listener rid [] = None"
| "take_listener rid (x # xs) =
     (if fst x = rid then Some (x, xs)
      else case take_listener rid xs of Some (y, ys) \<Rightarrow> Some (y, x # ys) | None \<Rightarrow> None)"

definition handle_for :: "session_id \<Rightarrow> Session \<Rightarrow> PlannedRoute \<Rightarrow> RouteHandle" where
  "handle_for sid s p =
     \<lparr> h_tunnel_id = tc_tunnel_id (s_claims s), h_owner_id = tc_sub (s_claims s),
       h_route_id = p_route_id p, h_mode = p_mode p, h_open_tx = sid \<rparr>"

definition planned_port :: "PlannedRoute \<Rightarrow> u16" where
  "planned_port p = (case p_public_port p of Some pp \<Rightarrow> pp | None \<Rightarrow> 0)"

definition add_srv :: "PlannedRoute \<Rightarrow> Session \<Rightarrow> Session" where
  "add_srv p s =
     (case (p_srv_service p, p_public_port p) of
        (Some service, Some port) \<Rightarrow>
          s\<lparr>s_srv_records := s_srv_records s @ [(service, if p_mode p = Udp then ''udp'' else ''tcp'')]\<rparr>
      | _ \<Rightarrow> s)"

text \<open>One iteration of step 5, for route \<^verbatim>\<open>p\<close>: the registries, then the session's locals.\<close>

definition register_core :: "session_id \<Rightarrow> PlannedRoute \<Rightarrow> Session \<Rightarrow> CoreState \<Rightarrow> CoreState" where
  "register_core sid p s st =
     (let handle = handle_for sid s p; sub = tc_subdomain (s_claims s)
      in case p_mode p of
           Http \<Rightarrow>
             (let st = (case tc_custom_domain (s_claims s) of
                          Some cd \<Rightarrow> st\<lparr>custom_http := (custom_http st)(cd \<mapsto> handle)\<rparr>
                        | None \<Rightarrow> st)
              in st\<lparr>http_routes := (http_routes st)(sub \<mapsto> handle)\<rparr>)
         | Https \<Rightarrow>
             (let st = (case tc_custom_domain (s_claims s) of
                          Some cd \<Rightarrow> st\<lparr>custom_https := (custom_https st)(cd \<mapsto> handle)\<rparr>
                        | None \<Rightarrow> st)
              in st\<lparr>https_routes := (https_routes st)(sub \<mapsto> handle)\<rparr>)
         | Tcp \<Rightarrow> st\<lparr>port_routes := (port_routes st)(planned_port p \<mapsto> handle)\<rparr>
         | Udp \<Rightarrow> st\<lparr>udp_routes := (udp_routes st)(planned_port p \<mapsto> handle)\<rparr>
         | Both \<Rightarrow> st)"

definition register_locals :: "session_id \<Rightarrow> PlannedRoute \<Rightarrow> Session \<Rightarrow> Session" where
  "register_locals sid p s =
     add_srv p
      (case p_mode p of
         Http \<Rightarrow> s\<lparr>s_has_http := True\<rparr>
       | Https \<Rightarrow> s\<lparr>s_has_https := True\<rparr>
       | Tcp \<Rightarrow>
           (let s = s\<lparr>s_public_ports := s_public_ports s @ [planned_port p]\<rparr>
            in case take_listener (p_route_id p) (s_tcp_listeners s) of
                 Some ((_, port), ls) \<Rightarrow>
                   s\<lparr>s_tcp_listeners := ls, s_listener_handles := s_listener_handles s @ [(False, port, sid)]\<rparr>
               | None \<Rightarrow> s)
       | Udp \<Rightarrow>
           (let s = s\<lparr>s_udp_ports := s_udp_ports s @ [planned_port p]\<rparr>
            in case take_listener (p_route_id p) (s_udp_sockets s) of
                 Some ((_, port), ls) \<Rightarrow>
                   s\<lparr>s_udp_sockets := ls, s_listener_handles := s_listener_handles s @ [(True, port, sid)]\<rparr>
               | None \<Rightarrow> s)
       | Both \<Rightarrow> s)"

fun register_all :: "session_id \<Rightarrow> PlannedRoute list \<Rightarrow> CoreState \<times> Session \<Rightarrow> CoreState \<times> Session" where
  "register_all sid [] (st, s) = (st, s)"
| "register_all sid (p # ps) (st, s) =
     register_all sid ps (register_core sid p s st, register_locals sid p s)"

definition active_tunnel :: "session_id \<Rightarrow> Session \<Rightarrow> ActiveTunnel" where
  "active_tunnel sid s =
     \<lparr> at_tunnel_id = tc_tunnel_id (s_claims s), at_subdomain = tc_subdomain (s_claims s),
       at_owner_id = tc_sub (s_claims s), at_public_ports = s_public_ports s,
       at_udp_ports = s_udp_ports s, at_custom_domain = tc_custom_domain (s_claims s),
       at_srv_records = s_srv_records s, at_has_http = s_has_http s, at_has_https = s_has_https s,
       at_listener_handles = s_listener_handles s, at_driver_abort = sid \<rparr>"

definition activate :: "session_id \<Rightarrow> Session \<Rightarrow> CoreState \<Rightarrow> CoreState" where
  "activate sid s st = st\<lparr>tunnels := (tunnels st)(tc_subdomain (s_claims s) \<mapsto> active_tunnel sid s)\<rparr>"

text \<open>The domain \<^verbatim>\<open>ensure_cert\<close> is called for, if any.\<close>

definition wants_cert :: "Session \<Rightarrow> string option" where
  "wants_cert s =
     (case tc_custom_domain (s_claims s) of
        Some cd \<Rightarrow> if s_has_http s \<and> \<not> s_has_https s then Some cd else None
      | None \<Rightarrow> None)"

section \<open>Teardown\<close>

record Teardown =
  td_tunnel_id :: int
  td_subdomain :: string
  td_ports :: "u16 list"
  td_udp_ports :: "u16 list"
  td_custom_domain :: "string option"

fun td_block :: "td_step \<Rightarrow> Teardown \<Rightarrow> CoreState \<Rightarrow> CoreState" where
  "td_block TdTunnels t st = st\<lparr>tunnels := (tunnels st)(td_subdomain t := None)\<rparr>"
| "td_block TdHttp t st =
     st\<lparr>http_routes := remove_owned (td_tunnel_id t) (td_subdomain t) (http_routes st)\<rparr>"
| "td_block TdHttps t st =
     st\<lparr>https_routes := remove_owned (td_tunnel_id t) (td_subdomain t) (https_routes st)\<rparr>"
| "td_block TdPorts t st =
     st\<lparr>port_routes := remove_owned_list (td_tunnel_id t) (td_ports t) (port_routes st)\<rparr>"
| "td_block TdUdp t st =
     st\<lparr>udp_routes := remove_owned_list (td_tunnel_id t) (td_udp_ports t) (udp_routes st)\<rparr>"
| "td_block TdCustomHttp t st =
     st\<lparr>custom_http := remove_owned_opt (td_tunnel_id t) (td_custom_domain t) (custom_http st)\<rparr>"
| "td_block TdCustomHttps t st =
     st\<lparr>custom_https := remove_owned_opt (td_tunnel_id t) (td_custom_domain t) (custom_https st)\<rparr>"

definition td_all :: "td_step list" where
  "td_all = [TdTunnels, TdHttp, TdHttps, TdPorts, TdUdp, TdCustomHttp, TdCustomHttps]"

text \<open>The state after the whole teardown, the listeners it aborts and the SRV records it removes.\<close>

definition td_aborts :: "Teardown \<Rightarrow> CoreState \<Rightarrow> listener list" where
  "td_aborts t st = (case tunnels st (td_subdomain t) of Some at \<Rightarrow> at_listener_handles at | None \<Rightarrow> [])"

definition td_srv :: "Teardown \<Rightarrow> CoreState \<Rightarrow> (string \<times> string) list" where
  "td_srv t st = (case tunnels st (td_subdomain t) of Some at \<Rightarrow> at_srv_records at | None \<Rightarrow> [])"

definition teardown :: "Teardown \<Rightarrow> CoreState \<Rightarrow> CoreState \<times> listener list \<times> (string \<times> string) list" where
  "teardown t st = (fold (\<lambda>b. td_block b t) td_all st, td_aborts t st, td_srv t st)"

text \<open>The call \<^verbatim>\<open>handle_agent\<close> makes when its driver has ended, and the one of the stop API.\<close>

definition session_teardown :: "Session \<Rightarrow> Teardown" where
  "session_teardown s =
     \<lparr> td_tunnel_id = tc_tunnel_id (s_claims s), td_subdomain = tc_subdomain (s_claims s),
       td_ports = s_public_ports s, td_udp_ports = s_udp_ports s,
       td_custom_domain = tc_custom_domain (s_claims s) \<rparr>"

definition api_teardown :: "string \<Rightarrow> ActiveTunnel \<Rightarrow> Teardown" where
  "api_teardown sub t =
     \<lparr> td_tunnel_id = at_tunnel_id t, td_subdomain = sub, td_ports = at_public_ports t,
       td_udp_ports = at_udp_ports t, td_custom_domain = at_custom_domain t \<rparr>"

text \<open>\<^verbatim>\<open>stop_tunnel\<close>: the status it answers, the session whose driver it aborts, the teardown it runs.\<close>

definition stop_tunnel ::
    "Config \<Rightarrow> bytes option \<Rightarrow> string \<Rightarrow> CoreState
     \<Rightarrow> (nat \<times> string) + (string \<times> session_id option \<times> listener list \<times> CoreState)" where
  "stop_tunnel cfg header sub st =
     and_then (check_secret cfg header) (\<lambda>_.
       case tunnels st sub of
         Some t \<Rightarrow>
           (case teardown (api_teardown sub t) st of
              (st', aborted, srv) \<Rightarrow>
                Inr (''stopping'', Some (at_driver_abort t), at_listener_handles t @ aborted, st'))
       | None \<Rightarrow> Inr (''not_found'', None, [], st))"

end
