(* ===== verification/Node.thy ===== *)
theory Node
  imports Session
begin

text \<open>
  All sessions of a node over its shared registries, as a step relation. A step is one critical
  section of the code: the admission of an agent (its checks and binds), the registration of one
  route, the activation, the end of a driver, and each locked block of a teardown, whether the
  session's own or one the stop API runs. Steps of different sessions interleave freely.
\<close>

record Node =
  core :: CoreState
  bound :: sockets
  sessions :: "session_id \<Rightarrow> Session option"
  stops :: "(Teardown \<times> td_step list) list"

definition initial_node :: Node where
  "initial_node = \<lparr> core = empty_state, bound = Map.empty, sessions = Map.empty, stops = [] \<rparr>"

text \<open>A listener task that is aborted drops its socket.\<close>

fun release :: "listener list \<Rightarrow> sockets \<Rightarrow> sockets" where
  "release [] b = b"
| "release ((udp, port, sid) # ls) b =
     release ls (if b (udp, port) = Some sid then b((udp, port) := None) else b)"

definition td_release :: "td_step \<Rightarrow> Teardown \<Rightarrow> CoreState \<Rightarrow> sockets \<Rightarrow> sockets" where
  "td_release b t st bd = (if b = TdTunnels then release (td_aborts t st) bd else bd)"

inductive step :: "jwt_decoder \<Rightarrow> os_bind \<Rightarrow> Config \<Rightarrow> Node \<Rightarrow> Node \<Rightarrow> bool"
  for decode :: jwt_decoder and os :: os_bind and cfg :: Config where
  accept: "sessions n sid = None \<Longrightarrow>
    admit decode os cfg (core n) (bound n) sid hello = Inr (s, bound') \<Longrightarrow>
    step decode os cfg n (n\<lparr>sessions := (sessions n)(sid \<mapsto> s), bound := bound'\<rparr>)"
| register: "sessions n sid = Some s \<Longrightarrow> s_phase s = Registering \<Longrightarrow> s_planned s = p # ps \<Longrightarrow>
    step decode os cfg n
      (n\<lparr>core := register_core sid p s (core n),
         sessions := (sessions n)(sid \<mapsto> (register_locals sid p s)\<lparr>s_planned := ps\<rparr>)\<rparr>)"
| activate: "sessions n sid = Some s \<Longrightarrow> s_phase s = Registering \<Longrightarrow> s_planned s = [] \<Longrightarrow>
    step decode os cfg n
      (n\<lparr>core := activate sid s (core n), sessions := (sessions n)(sid \<mapsto> s\<lparr>s_phase := Live\<rparr>)\<rparr>)"
| driver_end: "sessions n sid = Some s \<Longrightarrow> s_phase s = Live \<Longrightarrow>
    step decode os cfg n (n\<lparr>sessions := (sessions n)(sid \<mapsto> s\<lparr>s_phase := Ending td_all\<rparr>)\<rparr>)"
| teardown: "sessions n sid = Some s \<Longrightarrow> s_phase s = Ending (b # bs) \<Longrightarrow>
    step decode os cfg n
      (n\<lparr>core := td_block b (session_teardown s) (core n),
         bound := td_release b (session_teardown s) (core n) (bound n),
         sessions := (sessions n)(sid \<mapsto> s\<lparr>s_phase := Ending bs\<rparr>)\<rparr>)"
| finish: "sessions n sid = Some s \<Longrightarrow> s_phase s = Ending [] \<Longrightarrow>
    step decode os cfg n (n\<lparr>sessions := (sessions n)(sid \<mapsto> s\<lparr>s_phase := Ended\<rparr>)\<rparr>)"
| api_stop: "tunnels (core n) sub = Some t \<Longrightarrow>
    step decode os cfg n
      (n\<lparr>bound := release (at_listener_handles t) (bound n),
         stops := (api_teardown sub t, td_all) # stops n\<rparr>)"
| api_block: "stops n = xs @ (t, b # bs) # ys \<Longrightarrow>
    step decode os cfg n
      (n\<lparr>core := td_block b t (core n), bound := td_release b t (core n) (bound n),
         stops := xs @ (t, bs) # ys\<rparr>)"
| policy: "step decode os cfg n (n\<lparr>core := refresh_policy up reply (core n)\<rparr>)"

inductive reachable :: "jwt_decoder \<Rightarrow> os_bind \<Rightarrow> Config \<Rightarrow> Node \<Rightarrow> bool"
  for decode :: jwt_decoder and os :: os_bind and cfg :: Config where
  start: "reachable decode os cfg initial_node"
| more: "reachable decode os cfg n \<Longrightarrow> step decode os cfg n n' \<Longrightarrow> reachable decode os cfg n'"

section \<open>Invariants by rule induction\<close>

locale node_invariant =
  fixes decode :: jwt_decoder and os :: os_bind and cfg :: Config and inv :: "Node \<Rightarrow> bool"
  assumes inv_initial: "inv initial_node"
    and inv_step: "inv n \<Longrightarrow> step decode os cfg n n' \<Longrightarrow> inv n'"
begin

lemma always: "reachable decode os cfg n \<Longrightarrow> inv n"
  by (induction rule: reachable.induct) (auto intro: inv_initial inv_step)

end

section \<open>Entries are justified by a session\<close>

text \<open>A session stands behind block \<^verbatim>\<open>b\<close>'s registry until its teardown has passed the block.\<close>

definition standing :: "td_step \<Rightarrow> Session \<Rightarrow> bool" where
  "standing b s = (case s_phase s of Registering \<Rightarrow> True | Live \<Rightarrow> True
                     | Ending bs \<Rightarrow> b \<in> set bs | Ended \<Rightarrow> False)"

definition grants :: "Session \<Rightarrow> u16 \<Rightarrow> RouteMode \<Rightarrow> bool" where
  "grants s rid mode \<longleftrightarrow>
     (\<exists>r \<in> set (tc_routes (s_claims s)). rc_route_id r = rid \<and> rc_mode r = mode)"

definition behind ::
    "(session_id \<Rightarrow> Session option) \<Rightarrow> td_step \<Rightarrow> RouteMode \<Rightarrow> (Session \<Rightarrow> 'k \<Rightarrow> bool) \<Rightarrow> 'k \<Rightarrow> RouteHandle \<Rightarrow> bool" where
  "behind ss b mode covers k h \<longleftrightarrow>
     (\<exists>s. ss (h_open_tx h) = Some s \<and> standing b s \<and> covers s k
        \<and> h_tunnel_id h = tc_tunnel_id (s_claims s) \<and> h_owner_id h = tc_sub (s_claims s)
        \<and> h_mode h = mode \<and> grants s (h_route_id h) mode)"

definition justified ::
    "(session_id \<Rightarrow> Session option) \<Rightarrow> td_step \<Rightarrow> RouteMode \<Rightarrow> (Session \<Rightarrow> 'k \<Rightarrow> bool)
     \<Rightarrow> ('k \<Rightarrow> RouteHandle option) \<Rightarrow> bool" where
  "justified ss b mode covers m \<longleftrightarrow> (\<forall>k h. m k = Some h \<longrightarrow> behind ss b mode covers k h)"

text \<open>What a change of one session may not lose.\<close>

definition keeps :: "td_step \<Rightarrow> (Session \<Rightarrow> 'k \<Rightarrow> bool) \<Rightarrow> Session \<Rightarrow> Session \<Rightarrow> bool" where
  "keeps b covers s s' \<longleftrightarrow>
     s_claims s' = s_claims s \<and> (standing b s \<longrightarrow> standing b s') \<and> (\<forall>k. covers s k \<longrightarrow> covers s' k)"

lemma behind_update:
  "behind ss b mode covers k h \<Longrightarrow> ss sid = Some s \<Longrightarrow> keeps b covers s s' \<Longrightarrow>
     behind (ss(sid \<mapsto> s')) b mode covers k h"
  by (auto simp: behind_def keeps_def grants_def)

lemma justified_update:
  "justified ss b mode covers m \<Longrightarrow> ss sid = Some s \<Longrightarrow> keeps b covers s s' \<Longrightarrow>
     justified (ss(sid \<mapsto> s')) b mode covers m"
  by (simp add: justified_def behind_update)

lemma justified_fresh:
  "justified ss b mode covers m \<Longrightarrow> ss sid = None \<Longrightarrow> justified (ss(sid \<mapsto> s')) b mode covers m"
  unfolding justified_def behind_def by (metis fun_upd_other option.distinct(1))

lemma justified_insert:
  "justified ss b mode covers m \<Longrightarrow> behind ss b mode covers k h \<Longrightarrow> justified ss b mode covers (m(k \<mapsto> h))"
  by (simp add: justified_def)

context owner_cleanup
begin

lemma justified_cleanup:
  "justified ss b mode cov m \<Longrightarrow> justified ss b mode cov (cleanup tid m)"
  unfolding justified_def using cleanup_le by blast

text \<open>After its own block a session need not stand behind the registry any more.\<close>

lemma justified_own_block:
  assumes "justified ss b mode cov m" and s: "ss sid = Some s"
    and "s_claims s' = s_claims s" and "\<And>k. cov s k \<Longrightarrow> covers k" and "\<And>k. cov s k \<Longrightarrow> cov s' k"
    and "tid = tc_tunnel_id (s_claims s)"
  shows "justified (ss(sid \<mapsto> s')) b mode cov (cleanup tid m)"
  unfolding justified_def
proof (intro allI impI)
  fix k h assume c: "cleanup tid m k = Some h"
  then have b: "behind ss b mode cov k h" using assms(1) cleanup_le by (auto simp: justified_def)
  have "h_open_tx h \<noteq> sid"
  proof
    assume "h_open_tx h = sid"
    then have "covers k" "h_tunnel_id h = tid" using b s assms(4,6) by (auto simp: behind_def)
    then show False using cleanup_gone c by blast
  qed
  then show "behind (ss(sid \<mapsto> s')) b mode cov k h" using b by (auto simp: behind_def)
qed

end

section \<open>The invariant of the registries\<close>

abbreviation sub_of :: "Session \<Rightarrow> string \<Rightarrow> bool" where
  "sub_of s k \<equiv> k = tc_subdomain (s_claims s)"

abbreviation custom_of :: "Session \<Rightarrow> string \<Rightarrow> bool" where
  "custom_of s k \<equiv> tc_custom_domain (s_claims s) = Some k"

abbreviation port_of :: "Session \<Rightarrow> u16 \<Rightarrow> bool" where
  "port_of s k \<equiv> k \<in> set (s_public_ports s)"

abbreviation udp_port_of :: "Session \<Rightarrow> u16 \<Rightarrow> bool" where
  "udp_port_of s k \<equiv> k \<in> set (s_udp_ports s)"

text \<open>A session's own facts: its token verified, and what it has still to register was granted.\<close>

definition session_ok :: "jwt_decoder \<Rightarrow> Config \<Rightarrow> Session \<Rightarrow> bool" where
  "session_ok decode cfg s \<longleftrightarrow>
     verify_tunnel_token decode (s_token s) (jwt_secret cfg) = Inr (s_claims s)
     \<and> (\<forall>p \<in> set (s_planned s). grants s (p_route_id p) (p_mode p))"

definition sessions_ok :: "jwt_decoder \<Rightarrow> Config \<Rightarrow> Node \<Rightarrow> bool" where
  "sessions_ok decode cfg n \<longleftrightarrow> (\<forall>sid s. sessions n sid = Some s \<longrightarrow> session_ok decode cfg s)"

definition entries_justified :: "Node \<Rightarrow> bool" where
  "entries_justified n \<longleftrightarrow>
     justified (sessions n) TdHttp Http sub_of (http_routes (core n))
     \<and> justified (sessions n) TdHttps Https sub_of (https_routes (core n))
     \<and> justified (sessions n) TdPorts Tcp port_of (port_routes (core n))
     \<and> justified (sessions n) TdUdp Udp udp_port_of (udp_routes (core n))
     \<and> justified (sessions n) TdCustomHttp Http custom_of (custom_http (core n))
     \<and> justified (sessions n) TdCustomHttps Https custom_of (custom_https (core n))"

lemma bind_routes_planned:
  "bind_routes os cfg sub sid rs bd = Inr (ps, tcp, udp, bd') \<Longrightarrow>
     map (\<lambda>p. (p_route_id p, p_mode p)) ps = map (\<lambda>r. (rc_route_id r, rc_mode r)) rs"
proof (induction rs arbitrary: ps tcp udp bd bd')
  case (Cons r rs)
  then show ?case
    by (cases "rc_mode r") (auto simp: Let_def and_then_Inr_iff split: option.splits)
qed simp

lemma admit_Inr:
  assumes "admit decode os cfg st bd sid hello = Inr (s, bd')"
  shows "hello_role hello = ROLE_SERVICE_HOST"
    and "verify_tunnel_token decode (hello_token hello) (jwt_secret cfg) = Inr (s_claims s)"
    and "check_bindings (s_claims s) (hello_routes hello) = Inr ()"
    and "may_proceed st (s_claims s)"
    and "s_token s = hello_token hello" "s_phase s = Registering"
      "s_public_ports s = []" "s_udp_ports s = []" "s_listener_handles s = []" "s_srv_records s = []"
      "\<not> s_has_http s" "\<not> s_has_https s"
    and "bind_routes os cfg (tc_subdomain (s_claims s)) sid (tc_routes (s_claims s)) bd
           = Inr (s_planned s, s_tcp_listeners s, s_udp_sockets s, bd')"
  using assms by (auto simp: admit_def and_then_Inr_iff)

lemma admit_session_ok:
  assumes "admit decode os cfg st bd sid hello = Inr (s, bd')"
  shows "session_ok decode cfg s"
proof -
  have "set (map (\<lambda>p. (p_route_id p, p_mode p)) (s_planned s))
          = set (map (\<lambda>r. (rc_route_id r, rc_mode r)) (tc_routes (s_claims s)))"
    by (simp only: bind_routes_planned [OF admit_Inr(13) [OF assms]])
  then have "\<forall>p \<in> set (s_planned s). grants s (p_route_id p) (p_mode p)"
    by (force simp: grants_def image_def set_eq_iff)
  then show ?thesis
    using admit_Inr(2,5) [OF assms] by (simp add: session_ok_def)
qed

lemma add_srv_simps [simp]:
  "s_claims (add_srv p s) = s_claims s" "s_token (add_srv p s) = s_token s"
  "s_phase (add_srv p s) = s_phase s" "s_public_ports (add_srv p s) = s_public_ports s"
  "s_udp_ports (add_srv p s) = s_udp_ports s" "s_planned (add_srv p s) = s_planned s"
  "s_has_http (add_srv p s) = s_has_http s" "s_has_https (add_srv p s) = s_has_https s"
  "s_listener_handles (add_srv p s) = s_listener_handles s"
  by (simp_all add: add_srv_def split: option.split)

lemma register_locals_simps [simp]:
  "s_claims (register_locals sid p s) = s_claims s" "s_token (register_locals sid p s) = s_token s"
  "s_phase (register_locals sid p s) = s_phase s" "s_planned (register_locals sid p s) = s_planned s"
  "s_public_ports (register_locals sid p s)
     = s_public_ports s @ (if p_mode p = Tcp then [planned_port p] else [])"
  "s_udp_ports (register_locals sid p s)
     = s_udp_ports s @ (if p_mode p = Udp then [planned_port p] else [])"
  "s_has_http (register_locals sid p s) \<longleftrightarrow> s_has_http s \<or> p_mode p = Http"
  "s_has_https (register_locals sid p s) \<longleftrightarrow> s_has_https s \<or> p_mode p = Https"
  by (cases "p_mode p"; simp add: register_locals_def Let_def split: option.split)+

text \<open>Which sessions a step may change, and that it keeps their own facts.\<close>

lemma step_sessions_ok:
  assumes "step decode os cfg n n'" and "sessions_ok decode cfg n"
  shows "sessions_ok decode cfg n'"
  using assms
proof (induction rule: step.induct)
  case (accept n sid hello s bound')
  then show ?case using admit_session_ok by (auto simp: sessions_ok_def)
next
  case (register n sid s p ps)
  then have "session_ok decode cfg s" by (auto simp: sessions_ok_def)
  then have "session_ok decode cfg ((register_locals sid p s)\<lparr>s_planned := ps\<rparr>)"
    using register.hyps(3) by (auto simp: session_ok_def grants_def)
  then show ?case using register by (auto simp: sessions_ok_def)
qed (auto simp: sessions_ok_def session_ok_def grants_def)

section \<open>The steps keep the entries justified\<close>

lemmas td_cleanup_defs = session_teardown_def td_block.simps

lemma justified_mono:
  "justified ss b mode cov m \<Longrightarrow> (\<And>k h. m' k = Some h \<Longrightarrow> m k = Some h) \<Longrightarrow> justified ss b mode cov m'"
  by (simp add: justified_def)

lemma register_keeps_entries:
  assumes J: "entries_justified n" and s: "sessions n sid = Some s" "s_phase s = Registering"
    and p: "grants s (p_route_id p) (p_mode p)"
  shows "entries_justified (n\<lparr>core := register_core sid p s (core n),
           sessions := (sessions n)(sid \<mapsto> (register_locals sid p s)\<lparr>s_planned := ps\<rparr>)\<rparr>)"
proof -
  let ?s' = "(register_locals sid p s)\<lparr>s_planned := ps\<rparr>"
  let ?ss' = "(sessions n)(sid \<mapsto> ?s')"
  have K: "keeps b sub_of s ?s'" "keeps b custom_of s ?s'" "keeps b port_of s ?s'" "keeps b udp_port_of s ?s'" for b
    by (auto simp: keeps_def standing_def split: phase.splits)
  have B: "behind ?ss' b (p_mode p) sub_of (tc_subdomain (s_claims s)) (handle_for sid s p)"
    "tc_custom_domain (s_claims s) = Some cd \<Longrightarrow> behind ?ss' b (p_mode p) custom_of cd (handle_for sid s p)"
    "p_mode p = Tcp \<Longrightarrow> behind ?ss' b (p_mode p) port_of (planned_port p) (handle_for sid s p)"
    "p_mode p = Udp \<Longrightarrow> behind ?ss' b (p_mode p) udp_port_of (planned_port p) (handle_for sid s p)" for b cd
    using s p by (auto simp: behind_def handle_for_def standing_def grants_def)
  have U: "justified ?ss' TdHttp Http sub_of (http_routes (core n))"
    "justified ?ss' TdHttps Https sub_of (https_routes (core n))"
    "justified ?ss' TdPorts Tcp port_of (port_routes (core n))"
    "justified ?ss' TdUdp Udp udp_port_of (udp_routes (core n))"
    "justified ?ss' TdCustomHttp Http custom_of (custom_http (core n))"
    "justified ?ss' TdCustomHttps Https custom_of (custom_https (core n))"
    using J unfolding entries_justified_def by (auto intro: justified_update [where ss = "sessions n" and sid = sid and s = s, OF _ s(1)] K simp del: fun_upd_apply)
  show ?thesis
    unfolding entries_justified_def
    by (cases "p_mode p"; cases "tc_custom_domain (s_claims s)")
      (use B U in \<open>auto simp: register_core_def Let_def intro!: justified_insert simp del: fun_upd_apply\<close>)
qed

lemma session_step_entries:
  assumes J: "entries_justified n" and s: "sessions n sid = Some s"
    and K: "s_claims s' = s_claims s" "\<And>b. standing b s \<Longrightarrow> standing b s'"
      "s_public_ports s' = s_public_ports s" "s_udp_ports s' = s_udp_ports s"
    and c: "http_routes st = http_routes (core n)" "https_routes st = https_routes (core n)"
      "port_routes st = port_routes (core n)" "udp_routes st = udp_routes (core n)"
      "custom_http st = custom_http (core n)" "custom_https st = custom_https (core n)"
  shows "entries_justified (n\<lparr>core := st, sessions := (sessions n)(sid \<mapsto> s')\<rparr>)"
proof -
  have "keeps b sub_of s s'" "keeps b custom_of s s'" "keeps b port_of s s'" "keeps b udp_port_of s s'" for b
    using K by (auto simp: keeps_def)
  then show ?thesis
    using J unfolding entries_justified_def
    by (auto simp: c simp del: fun_upd_apply
        intro: justified_update [where ss = "sessions n" and sid = sid and s = s, OF _ s])
qed

lemma cleanup_keeps_entries:
  assumes "entries_justified n"
  shows "entries_justified (n\<lparr>core := td_block b t (core n), bound := bd, stops := sps\<rparr>)"
  using assms unfolding entries_justified_def
  by (cases b)
    (auto intro: one_key.justified_cleanup opt_key.justified_cleanup all_keys.justified_cleanup)

lemma own_block_entries:
  assumes J: "entries_justified n" and s: "sessions n sid = Some s" "s_phase s = Ending (b # bs)"
  shows "entries_justified (n\<lparr>core := td_block b (session_teardown s) (core n), bound := bd,
           sessions := (sessions n)(sid \<mapsto> s\<lparr>s_phase := Ending bs\<rparr>)\<rparr>)"
proof -
  let ?s' = "s\<lparr>s_phase := Ending bs\<rparr>"
  let ?ss' = "(sessions n)(sid \<mapsto> ?s')" and ?tid = "tc_tunnel_id (s_claims s)" and ?c = "core n"
  have K: "b' \<noteq> b \<Longrightarrow> keeps b' sub_of s ?s'" "b' \<noteq> b \<Longrightarrow> keeps b' custom_of s ?s'"
    "b' \<noteq> b \<Longrightarrow> keeps b' port_of s ?s'" "b' \<noteq> b \<Longrightarrow> keeps b' udp_port_of s ?s'" for b'
    using s(2) by (auto simp: keeps_def standing_def)
  note E = J [unfolded entries_justified_def]
  have U: "b \<noteq> TdHttp \<Longrightarrow> justified ?ss' TdHttp Http sub_of (http_routes ?c)"
    "b \<noteq> TdHttps \<Longrightarrow> justified ?ss' TdHttps Https sub_of (https_routes ?c)"
    "b \<noteq> TdPorts \<Longrightarrow> justified ?ss' TdPorts Tcp port_of (port_routes ?c)"
    "b \<noteq> TdUdp \<Longrightarrow> justified ?ss' TdUdp Udp udp_port_of (udp_routes ?c)"
    "b \<noteq> TdCustomHttp \<Longrightarrow> justified ?ss' TdCustomHttp Http custom_of (custom_http ?c)"
    "b \<noteq> TdCustomHttps \<Longrightarrow> justified ?ss' TdCustomHttps Https custom_of (custom_https ?c)"
    using E K by (auto intro: justified_update [where ss = "sessions n" and sid = sid and s = s, OF _ s(1)]
        simp del: fun_upd_apply)
  have O: "justified ?ss' TdHttp Http sub_of (remove_owned ?tid (tc_subdomain (s_claims s)) (http_routes ?c))"
    "justified ?ss' TdHttps Https sub_of (remove_owned ?tid (tc_subdomain (s_claims s)) (https_routes ?c))"
    "justified ?ss' TdPorts Tcp port_of (remove_owned_list ?tid (s_public_ports s) (port_routes ?c))"
    "justified ?ss' TdUdp Udp udp_port_of (remove_owned_list ?tid (s_udp_ports s) (udp_routes ?c))"
    "justified ?ss' TdCustomHttp Http custom_of (remove_owned_opt ?tid (tc_custom_domain (s_claims s)) (custom_http ?c))"
    "justified ?ss' TdCustomHttps Https custom_of (remove_owned_opt ?tid (tc_custom_domain (s_claims s)) (custom_https ?c))"
    using E
    by (auto intro!: one_key.justified_own_block [where ss = "sessions n" and sid = sid and s = s]
        opt_key.justified_own_block [where ss = "sessions n" and sid = sid and s = s]
        all_keys.justified_own_block [where ss = "sessions n" and sid = sid and s = s] simp: s(1) simp del: fun_upd_apply)
  show ?thesis
    using U O unfolding entries_justified_def
    by (cases b) (simp_all add: session_teardown_def del: fun_upd_apply)
qed

lemma refresh_policy_simps [simp]:
  "http_routes (refresh_policy up r st) = http_routes st" "https_routes (refresh_policy up r st) = https_routes st"
  "port_routes (refresh_policy up r st) = port_routes st" "udp_routes (refresh_policy up r st) = udp_routes st"
  "custom_http (refresh_policy up r st) = custom_http st" "custom_https (refresh_policy up r st) = custom_https st"
  "tunnels (refresh_policy up r st) = tunnels st"
  by (simp_all add: refresh_policy_def Let_def split: option.split)

lemma step_entries_justified:
  assumes "step decode os cfg n n'" and "entries_justified n" and "sessions_ok decode cfg n"
  shows "entries_justified n'"
  using assms
proof (induction rule: step.induct)
  case (accept n sid hello s bound')
  then show ?case
    by (auto simp: entries_justified_def simp del: fun_upd_apply
        intro: justified_fresh [where ss = "sessions n" and sid = sid])
next
  case (register n sid s p ps)
  then have "grants s (p_route_id p) (p_mode p)" by (auto simp: sessions_ok_def session_ok_def)
  then show ?case using register_keeps_entries [OF register.prems(1) register.hyps(1,2)] by blast
next
  case (activate n sid s)
  then show ?case
    by (intro session_step_entries [where s = s]) (auto simp: standing_def activate_def)
next
  case (driver_end n sid s)
  have "entries_justified (n\<lparr>core := core n, sessions := (sessions n)(sid \<mapsto> s\<lparr>s_phase := Ending td_all\<rparr>)\<rparr>)"
    using driver_end by (intro session_step_entries [where s = s]) (auto simp: standing_def td_all_def intro: td_step.exhaust)
  then show ?case by simp
next
  case (teardown n sid s b bs)
  then show ?case by (intro own_block_entries) auto
next
  case (finish n sid s)
  have "entries_justified (n\<lparr>core := core n, sessions := (sessions n)(sid \<mapsto> s\<lparr>s_phase := Ended\<rparr>)\<rparr>)"
    using finish by (intro session_step_entries [where s = s]) (auto simp: standing_def)
  then show ?case by simp
next
  case (api_stop n sub t)
  then show ?case by (simp add: entries_justified_def)
next
  case (api_block n xs t b bs ys)
  then show ?case by (intro cleanup_keeps_entries) auto
next
  case (policy n up reply)
  then show ?case by (simp add: entries_justified_def)
qed

interpretation registries: node_invariant decode os cfg
  "\<lambda>n. sessions_ok decode cfg n \<and> entries_justified n" for decode os cfg
proof
  show "sessions_ok decode cfg initial_node \<and> entries_justified initial_node"
    by (simp add: sessions_ok_def entries_justified_def justified_def initial_node_def empty_state_def)
  show "sessions_ok decode cfg n' \<and> entries_justified n'"
    if "sessions_ok decode cfg n \<and> entries_justified n" "step decode os cfg n n'" for n n'
    using that step_sessions_ok step_entries_justified by blast
qed

section \<open>Binding\<close>

fun claimed_sockets :: "RouteClaim list \<Rightarrow> (bool \<times> u16) set" where
  "claimed_sockets [] = {}"
| "claimed_sockets (r # rs) =
     (if rc_mode r = Tcp \<or> rc_mode r = Udp
      then insert (rc_mode r = Udp, case rc_public_port r of Some p \<Rightarrow> p | None \<Rightarrow> 0) (claimed_sockets rs)
      else claimed_sockets rs)"

lemma bind_error_None: "bind_error os bd udp p = None \<longleftrightarrow> bd (udp, p) = None \<and> os udp p = None"
  by (simp add: bind_error_def)

text \<open>A successful bind pass took every claimed socket, each of which was free, and no other.\<close>

lemma bind_routes_bound:
  "bind_routes os cfg sub sid rs bd = Inr (ps, tcp, udp, bd') \<Longrightarrow>
     bd' x = (if x \<in> claimed_sockets rs then Some sid else bd x)
     \<and> (x \<in> claimed_sockets rs \<longrightarrow> bd x = None)"
proof (induction rs arbitrary: ps tcp udp bd bd')
  case (Cons r rs)
  show ?case
  proof (cases "rc_mode r")
    case Tcp
    then show ?thesis
      using Cons.prems
      by (auto simp: Let_def and_then_Inr_iff bind_error_None split: option.splits if_splits
          dest!: Cons.IH)
  next
    case Udp
    then show ?thesis
      using Cons.prems
      by (auto simp: Let_def and_then_Inr_iff bind_error_None split: option.splits if_splits
          dest!: Cons.IH)
  qed (use Cons.prems in \<open>auto simp: Let_def and_then_Inr_iff dest!: Cons.IH\<close>)
qed simp

lemma bind_routes_free_lemma:
  "bind_routes os cfg sub sid rs bd = Inr (ps, tcp, udp, bd') \<Longrightarrow> p \<in> set ps \<Longrightarrow> p_mode p = Tcp \<or> p_mode p = Udp \<Longrightarrow>
     bd (p_mode p = Udp, planned_port p) = None"
proof (induction rs arbitrary: ps tcp udp bd bd')
  case (Cons r rs)
  then show ?case
    by (cases "rc_mode r")
      (auto simp: Let_def and_then_Inr_iff bind_error_None planned_port_def
        split: option.splits if_splits dest!: Cons.IH)
qed simp

lemma check_bindings_iff:
  "check_bindings c bs = Inr () \<longleftrightarrow>
     (\<forall>b \<in> set bs. \<exists>r \<in> set (tc_routes c). rc_route_id r = b_route_id b)"
proof (induction bs)
  case (Cons b bs)
  have "granted c i = None \<longleftrightarrow> (\<forall>r \<in> set (tc_routes c). rc_route_id r \<noteq> i)" for i
    by (force simp: granted_def map_of_eq_None_iff)
  then show ?case using Cons by auto
qed simp

section \<open>One session alone\<close>

text \<open>Two registries that differ only in entries a tunnel put under keys it will clean up.\<close>

definition owned_change :: "int \<Rightarrow> ('k \<Rightarrow> bool) \<Rightarrow> ('k \<Rightarrow> RouteHandle option) \<Rightarrow> ('k \<Rightarrow> RouteHandle option) \<Rightarrow> bool" where
  "owned_change tid covers m0 m \<longleftrightarrow>
     (\<forall>k. m k = m0 k \<or> covers k \<and> (\<exists>h. m k = Some h \<and> h_tunnel_id h = tid))"

lemma owned_change_refl [simp]: "owned_change tid covers m m"
  by (simp add: owned_change_def)

lemma owned_change_put:
  "owned_change tid covers m0 m \<Longrightarrow> covers k \<Longrightarrow> h_tunnel_id h = tid \<Longrightarrow> owned_change tid covers m0 (m(k \<mapsto> h))"
  by (simp add: owned_change_def)

lemma owned_change_mono:
  "owned_change tid covers m0 m \<Longrightarrow> (\<And>k. covers k \<Longrightarrow> covers' k) \<Longrightarrow> owned_change tid covers' m0 m"
  by (auto simp: owned_change_def)

context owner_cleanup
begin

lemma cleanup_restores:
  assumes "owned_change tid covers m0 m" and "\<And>k. covers k \<Longrightarrow> m0 k = None"
  shows "cleanup tid m = m0"
proof (rule ext)
  fix k
  show "cleanup tid m k = m0 k"
  proof (cases "covers k \<and> (\<exists>h. m k = Some h \<and> h_tunnel_id h = tid)")
    case True
    then show ?thesis using assms(2) cleanup_hit by fastforce
  next
    case False
    then have eq: "m k = m0 k" using assms(1) by (auto simp: owned_change_def)
    show ?thesis
    proof (cases "m k")
      case None
      then show ?thesis using eq cleanup_none by simp
    next
      case (Some h)
      then show ?thesis using eq False cleanup_keep by auto
    qed
  qed
qed

end

definition state_change :: "Session \<Rightarrow> CoreState \<Rightarrow> CoreState \<Rightarrow> bool" where
  "state_change s st0 st \<longleftrightarrow>
     (let tid = tc_tunnel_id (s_claims s)
      in owned_change tid (sub_of s) (http_routes st0) (http_routes st)
         \<and> owned_change tid (sub_of s) (https_routes st0) (https_routes st)
         \<and> owned_change tid (port_of s) (port_routes st0) (port_routes st)
         \<and> owned_change tid (udp_port_of s) (udp_routes st0) (udp_routes st)
         \<and> owned_change tid (custom_of s) (custom_http st0) (custom_http st)
         \<and> owned_change tid (custom_of s) (custom_https st0) (custom_https st)
         \<and> tunnels st = tunnels st0 \<and> blocked_regions st = blocked_regions st0
         \<and> tunnel_region_blocks st = tunnel_region_blocks st0 \<and> wildcard_tls st = wildcard_tls st0)"

lemma state_change_register:
  assumes "state_change s st0 st"
  shows "state_change (register_locals sid p s) st0 (register_core sid p s st)"
proof -
  note mono = owned_change_mono [where tid = "tc_tunnel_id (s_claims s)"]
  have p: "owned_change (tc_tunnel_id (s_claims s)) (port_of (register_locals sid p s)) (port_routes st0) (port_routes st)"
    "owned_change (tc_tunnel_id (s_claims s)) (udp_port_of (register_locals sid p s)) (udp_routes st0) (udp_routes st)"
    using assms by (auto simp: state_change_def Let_def intro: mono)
  show ?thesis
    using assms p
    by (cases "p_mode p"; cases "tc_custom_domain (s_claims s)")
      (auto simp: state_change_def Let_def register_core_def handle_for_def intro!: owned_change_put)
qed

lemma state_change_register_all:
  "state_change s st0 st \<Longrightarrow> register_all sid ps (st, s) = (st', s') \<Longrightarrow> state_change s' st0 st'"
  by (induction ps arbitrary: s st) (auto intro: state_change_register)

lemma register_all_locals:
  "register_all sid ps (st, s) = (st', s') \<Longrightarrow>
     s_claims s' = s_claims s
     \<and> s_public_ports s' = s_public_ports s @ map planned_port (filter (\<lambda>p. p_mode p = Tcp) ps)
     \<and> s_udp_ports s' = s_udp_ports s @ map planned_port (filter (\<lambda>p. p_mode p = Udp) ps)
     \<and> (s_has_http s' \<longleftrightarrow> s_has_http s \<or> (\<exists>p \<in> set ps. p_mode p = Http))
     \<and> (s_has_https s' \<longleftrightarrow> s_has_https s \<or> (\<exists>p \<in> set ps. p_mode p = Https))"
  by (induction ps arbitrary: s st) auto

lemma teardown_restores:
  assumes ch: "state_change s st0 st"
    and "tunnels st0 (tc_subdomain (s_claims s)) = None"
    and "http_routes st0 (tc_subdomain (s_claims s)) = None"
    and "https_routes st0 (tc_subdomain (s_claims s)) = None"
    and "\<And>cd. tc_custom_domain (s_claims s) = Some cd \<Longrightarrow> custom_http st0 cd = None \<and> custom_https st0 cd = None"
    and "\<And>p. p \<in> set (s_public_ports s) \<Longrightarrow> port_routes st0 p = None"
    and "\<And>p. p \<in> set (s_udp_ports s) \<Longrightarrow> udp_routes st0 p = None"
  shows "teardown (session_teardown s) (activate sid s st) = (st0, s_listener_handles s, s_srv_records s)"
proof -
  let ?tid = "tc_tunnel_id (s_claims s)" and ?sub = "tc_subdomain (s_claims s)"
  note C = ch [unfolded state_change_def Let_def]
  have "remove_owned ?tid ?sub (http_routes st) = http_routes st0"
    using C assms(3) by (intro one_key.cleanup_restores) auto
  moreover have "remove_owned ?tid ?sub (https_routes st) = https_routes st0"
    using C assms(4) by (intro one_key.cleanup_restores) auto
  moreover have "remove_owned_list ?tid (s_public_ports s) (port_routes st) = port_routes st0"
    using C assms(6) by (intro all_keys.cleanup_restores) auto
  moreover have "remove_owned_list ?tid (s_udp_ports s) (udp_routes st) = udp_routes st0"
    using C assms(7) by (intro all_keys.cleanup_restores) auto
  moreover have "remove_owned_opt ?tid (tc_custom_domain (s_claims s)) (custom_http st) = custom_http st0"
    using C assms(5) by (intro opt_key.cleanup_restores) auto
  moreover have "remove_owned_opt ?tid (tc_custom_domain (s_claims s)) (custom_https st) = custom_https st0"
    using C assms(5) by (intro opt_key.cleanup_restores) auto
  moreover have "(tunnels st)(?sub := None) = tunnels st0" using C assms(2) by auto
  ultimately show ?thesis
    using C
    by (simp add: teardown_def td_all_def session_teardown_def activate_def active_tunnel_def
        td_aborts_def td_srv_def)
qed

section \<open>A small concrete node\<close>

definition demo_cfg :: Config where
  "demo_cfg = from_env (\<lambda>_. None)"

definition demo_claims :: TunnelClaims where
  "demo_claims =
     \<lparr> tc_v = 1, tc_sub = 7, tc_tunnel_id = 42, tc_subdomain = ''duck'', tc_purpose = ''tunnel'',
       tc_routes =
         [\<lparr> rc_route_id = 0, rc_mode = Http, rc_host = Some ''duck.natforge.com'', rc_public_port = None,
            rc_srv_service = None \<rparr>],
       tc_custom_domain = None, tc_exp = 2000000000 \<rparr>"

definition demo_decode :: jwt_decoder where
  "demo_decode token secret = (if token = ''tok'' then Inr demo_claims else Inl ''InvalidToken'')"

definition demo_os :: os_bind where
  "demo_os udp port = None"

definition demo_hello :: AgentHello where
  "demo_hello = \<lparr> hello_token = ''tok'', hello_role = ''service_host'', hello_routes = [] \<rparr>"

definition demo_route :: PlannedRoute where
  "demo_route =
     \<lparr> p_route_id = 0, p_mode = Http, p_public_port = None,
       p_public_endpoint = ''duck.natforge.com:8080'', p_srv_service = None \<rparr>"

definition demo_session :: Session where
  "demo_session =
     \<lparr> s_token = ''tok'', s_claims = demo_claims, s_planned = [demo_route], s_tcp_listeners = [],
       s_udp_sockets = [], s_public_ports = [], s_udp_ports = [], s_has_http = False,
       s_has_https = False, s_listener_handles = [], s_srv_records = [], s_phase = Registering \<rparr>"

lemma demo_cfg_host: "public_host demo_cfg = ''natforge.com''" "nat_str (http_port demo_cfg) = ''8080''"
  by (simp_all add: demo_cfg_def from_env_def Let_def env_or_def env_u16_def)

lemma demo_verify: "verify_tunnel_token demo_decode ''tok'' secret = Inr demo_claims"
  by (simp add: verify_tunnel_token_Inr validate_shape_Inr_iff route_shape_ok_def demo_decode_def demo_claims_def)

lemma demo_may_proceed:
  "may_proceed st demo_claims \<Longrightarrow> admit demo_decode demo_os demo_cfg st bd sid demo_hello = Inr (demo_session, bd)"
  by (simp add: admit_def demo_hello_def ROLE_SERVICE_HOST_def demo_verify demo_session_def demo_route_def
      demo_claims_def demo_cfg_host Let_def)

definition demo_registered :: Session where
  "demo_registered = (register_locals 1 demo_route demo_session)\<lparr>s_planned := []\<rparr>"

definition demo_handle :: "session_id \<Rightarrow> RouteHandle" where
  "demo_handle sid = \<lparr> h_tunnel_id = 42, h_owner_id = 7, h_route_id = 0, h_mode = Http, h_open_tx = sid \<rparr>"

lemma demo_register_core:
  "register_core sid demo_route demo_session st = st\<lparr>http_routes := (http_routes st)(''duck'' \<mapsto> demo_handle sid)\<rparr>"
  by (simp add: register_core_def demo_route_def demo_session_def demo_claims_def handle_for_def demo_handle_def Let_def)

lemma demo_registered_eq: "(register_locals sid demo_route demo_session)\<lparr>s_planned := []\<rparr>
    = demo_session\<lparr>s_planned := [], s_has_http := True\<rparr>"
  by (simp add: register_locals_def add_srv_def demo_route_def demo_session_def)

lemma demo_reachable:
  "\<exists>n. reachable demo_decode demo_os demo_cfg n
     \<and> http_routes (core n) = [''duck'' \<mapsto> demo_handle 1] \<and> tunnels (core n) = Map.empty
     \<and> sessions n = [1 \<mapsto> demo_session\<lparr>s_planned := [], s_has_http := True\<rparr>]
     \<and> https_routes (core n) = Map.empty \<and> stops n = []"
proof -
  have a: "admit demo_decode demo_os demo_cfg (core initial_node) (bound initial_node) 1 demo_hello
             = Inr (demo_session, bound initial_node)"
    by (rule demo_may_proceed) (simp add: may_proceed_def free_or_ours_def initial_node_def empty_state_def)
  let ?n1 = "initial_node\<lparr>sessions := (sessions initial_node)(1 \<mapsto> demo_session), bound := bound initial_node\<rparr>"
  have 1: "reachable demo_decode demo_os demo_cfg ?n1"
    by (rule reachable.more [OF reachable.start step.accept [OF _ a]]) (simp add: initial_node_def)
  have 2: "step demo_decode demo_os demo_cfg ?n1
      (?n1\<lparr>core := register_core 1 demo_route demo_session (core ?n1),
           sessions := (sessions ?n1)(1 \<mapsto> (register_locals 1 demo_route demo_session)\<lparr>s_planned := []\<rparr>)\<rparr>)"
    by (rule step.register) (simp_all add: demo_session_def)
  show ?thesis
    by (intro exI conjI, rule reachable.more [OF 1 2])
      (simp_all add: demo_register_core demo_registered_eq initial_node_def empty_state_def)
qed

section \<open>Properties\<close>

text \<open>
  C1: in every state the node can reach, under every interleaving of admissions, registrations,
  teardowns, stop calls and policy pulls, a host name is routed only to a session whose teardown has
  not yet passed that registry, whose token verified, whose claims name that subdomain or custom
  domain, and whose claims grant the very route of the handle with that mode. In particular nothing
  is ever routed to a session that has ended.
\<close>

theorem routed_only_to_authorised_session:
  assumes "reachable decode os cfg n" and "host_route (core n) k m = Some h"
  shows "\<exists>s. sessions n (h_open_tx h) = Some s \<and> s_phase s \<noteq> Ended \<and> s_phase s \<noteq> Ending []
    \<and> verify_tunnel_token decode (s_token s) (jwt_secret cfg) = Inr (s_claims s)
    \<and> tc_subdomain (s_claims s) = k
    \<and> h_tunnel_id h = tc_tunnel_id (s_claims s) \<and> h_owner_id h = tc_sub (s_claims s)
    \<and> (\<exists>r \<in> set (tc_routes (s_claims s)). rc_route_id r = h_route_id h \<and> rc_mode r = m)"
proof -
  have inv: "sessions_ok decode cfg n" "entries_justified n"
    using registries.always [OF assms(1)] by auto
  have "m = Http \<and> behind (sessions n) TdHttp Http sub_of k h \<or> m = Https \<and> behind (sessions n) TdHttps Https sub_of k h"
    using assms(2) inv(2) by (auto simp: host_route_def entries_justified_def justified_def split: RouteMode.splits)
  then obtain s b where "sessions n (h_open_tx h) = Some s" "standing b s" "k = tc_subdomain (s_claims s)"
    "h_tunnel_id h = tc_tunnel_id (s_claims s)" "h_owner_id h = tc_sub (s_claims s)" "grants s (h_route_id h) m"
    by (auto simp: behind_def)
  then show ?thesis
    using inv(1) by (auto simp: sessions_ok_def session_ok_def standing_def grants_def split: phase.splits)
qed

theorem routed_only_to_authorised_session_witness:
  "\<exists>n h s. reachable demo_decode demo_os demo_cfg n \<and> host_route (core n) ''duck'' Http = Some h
     \<and> sessions n (h_open_tx h) = Some s \<and> tc_subdomain (s_claims s) = ''duck''"
proof -
  obtain n where n: "reachable demo_decode demo_os demo_cfg n" "http_routes (core n) = [''duck'' \<mapsto> demo_handle 1]"
    using demo_reachable by blast
  then have r: "host_route (core n) ''duck'' Http = Some (demo_handle 1)" by (simp add: host_route_def)
  show ?thesis using routed_only_to_authorised_session [OF n(1) r] n(1) r by blast
qed

text \<open>
  C22: the same for the dedicated ports and the custom domains: an entry of the tcp or udp port
  registry or of a custom-host registry belongs to a session that has not ended, whose verified token
  grants the route of the handle, and that itself registered this port or names this domain.
\<close>

theorem ports_and_domains_justified:
  assumes "reachable decode os cfg n"
    and "port_routes (core n) p = Some h \<and> m = Tcp \<or> udp_routes (core n) p = Some h \<and> m = Udp
         \<or> custom_host_route (core n) d m = Some h"
  shows "\<exists>s. sessions n (h_open_tx h) = Some s \<and> s_phase s \<noteq> Ended \<and> s_phase s \<noteq> Ending []
    \<and> verify_tunnel_token decode (s_token s) (jwt_secret cfg) = Inr (s_claims s)
    \<and> h_tunnel_id h = tc_tunnel_id (s_claims s)
    \<and> (m = Tcp \<and> p \<in> set (s_public_ports s) \<or> m = Udp \<and> p \<in> set (s_udp_ports s)
       \<or> is_host_routed m \<and> tc_custom_domain (s_claims s) = Some d)
    \<and> (\<exists>r \<in> set (tc_routes (s_claims s)). rc_route_id r = h_route_id h \<and> rc_mode r = m)"
proof -
  have inv: "sessions_ok decode cfg n" "entries_justified n"
    using registries.always [OF assms(1)] by auto
  have "m = Tcp \<and> behind (sessions n) TdPorts Tcp port_of p h \<or> m = Udp \<and> behind (sessions n) TdUdp Udp udp_port_of p h
     \<or> m = Http \<and> behind (sessions n) TdCustomHttp Http custom_of d h
     \<or> m = Https \<and> behind (sessions n) TdCustomHttps Https custom_of d h"
    using assms(2) inv(2)
    by (auto simp: custom_host_route_def entries_justified_def justified_def split: RouteMode.splits)
  then obtain s b where "sessions n (h_open_tx h) = Some s" "standing b s"
    "m = Tcp \<and> p \<in> set (s_public_ports s) \<or> m = Udp \<and> p \<in> set (s_udp_ports s)
       \<or> is_host_routed m \<and> tc_custom_domain (s_claims s) = Some d"
    "h_tunnel_id h = tc_tunnel_id (s_claims s)" "grants s (h_route_id h) m"
    by (auto simp: behind_def)
  then show ?thesis
    using inv(1) by (auto simp: sessions_ok_def session_ok_def standing_def grants_def split: phase.splits)
qed

theorem ports_and_domains_justified_witness:
  "\<exists>decode os cfg n p h s. reachable decode os cfg n \<and> udp_routes (core n) p = Some h
     \<and> sessions n (h_open_tx h) = Some s \<and> p \<in> set (s_udp_ports s)"
proof -
  let ?r = "\<lparr> rc_route_id = 5, rc_mode = Udp, rc_host = None, rc_public_port = Some 20001, rc_srv_service = None \<rparr>"
  let ?c = "demo_claims\<lparr>tc_routes := [?r]\<rparr>"
  let ?d = "(\<lambda>t s. Inr ?c) :: jwt_decoder"
  let ?p = "\<lparr> p_route_id = 5, p_mode = Udp, p_public_port = Some 20001, p_public_endpoint = ''natforge.com:20001'',
    p_srv_service = None \<rparr>"
  let ?s = "demo_session\<lparr>s_claims := ?c, s_planned := [?p], s_udp_sockets := [(5, 20001)]\<rparr>"
  let ?b = "[(True, 20001) \<mapsto> 1] :: sockets"
  have a: "admit ?d demo_os demo_cfg (core initial_node) (bound initial_node) 1 demo_hello = Inr (?s, ?b)"
    by (simp add: admit_def demo_hello_def ROLE_SERVICE_HOST_def verify_tunnel_token_Inr validate_shape_Inr_iff
        route_shape_ok_def demo_session_def demo_claims_def demo_cfg_host Let_def may_proceed_def free_or_ours_def
        initial_node_def empty_state_def bind_error_def demo_os_def verify_tunnel_token_def validate_shape_def
        check_route_shape_def demo_route_def)
  let ?n1 = "initial_node\<lparr>sessions := (sessions initial_node)(1 \<mapsto> ?s), bound := ?b\<rparr>"
  let ?n2 = "?n1\<lparr>core := register_core 1 ?p ?s (core ?n1),
       sessions := (sessions ?n1)(1 \<mapsto> (register_locals 1 ?p ?s)\<lparr>s_planned := []\<rparr>)\<rparr>"
  have 1: "reachable ?d demo_os demo_cfg ?n1"
    by (rule reachable.more [OF reachable.start step.accept [OF _ a]]) (simp add: initial_node_def)
  have "step ?d demo_os demo_cfg ?n1 ?n2"
    by (rule step.register) (simp_all add: demo_session_def)
  then have r: "reachable ?d demo_os demo_cfg ?n2" by (rule reachable.more [OF 1])
  have e: "udp_routes (core ?n2) 20001 = Some (handle_for 1 ?s ?p)"
    by (simp add: register_core_def planned_port_def Let_def)
  obtain n h where n: "n = ?n2" and h: "h = handle_for 1 ?s ?p" by simp
  have nr: "reachable ?d demo_os demo_cfg n" "udp_routes (core n) 20001 = Some h"
    unfolding n h by (rule r, rule e)
  obtain s where "sessions n (h_open_tx h) = Some s" "20001 \<in> set (s_udp_ports s)"
    using ports_and_domains_justified [OF nr(1), of 20001 h Udp "[]"] nr(2) by auto
  then show ?thesis using nr by blast
qed

text \<open>
  C2: an agent is admitted only if it announces the service-host role, its token verifies, every route
  it binds is granted by the token, and its subdomain is free or already held by the same tunnel; the
  acknowledgement lists the granted routes in order; and the admission takes exactly the sockets the
  token claims, every one of which was free before.
\<close>

theorem admission_sound:
  assumes "admit decode os cfg st bd sid hello = Inr (s, bd')"
  shows "hello_role hello = ''service_host''
    \<and> verify_tunnel_token decode (hello_token hello) (jwt_secret cfg) = Inr (s_claims s)
    \<and> (\<forall>b \<in> set (hello_routes hello). \<exists>r \<in> set (tc_routes (s_claims s)). rc_route_id r = b_route_id b)
    \<and> (\<forall>h. http_routes st (tc_subdomain (s_claims s)) = Some h \<or> https_routes st (tc_subdomain (s_claims s)) = Some h
          \<longrightarrow> h_tunnel_id h = tc_tunnel_id (s_claims s))
    \<and> map (\<lambda>r. (rr_route_id r, rr_mode r)) (reply_routes (reply_for s))
        = map (\<lambda>r. (rc_route_id r, rc_mode r)) (tc_routes (s_claims s))
    \<and> (\<forall>x. bd' x = (if x \<in> claimed_sockets (tc_routes (s_claims s)) then Some sid else bd x))
    \<and> (\<forall>x \<in> claimed_sockets (tc_routes (s_claims s)). bd x = None)"
proof -
  note A = admit_Inr [OF assms]
  have "map (\<lambda>r. (rr_route_id r, rr_mode r)) (reply_routes (reply_for s))
          = map (\<lambda>p. (p_route_id p, p_mode p)) (s_planned s)"
    by (simp add: reply_for_def)
  then show ?thesis
    using A(1-4) bind_routes_planned [OF A(13)] bind_routes_bound [OF A(13)]
    by (auto simp: ROLE_SERVICE_HOST_def check_bindings_iff may_proceed_def free_or_ours_def)
qed

theorem admission_sound_witness:
  "hello_role demo_hello = ''service_host''
   \<and> verify_tunnel_token demo_decode (hello_token demo_hello) (jwt_secret demo_cfg) = Inr (s_claims demo_session)"
  using admission_sound [OF demo_may_proceed [of empty_state Map.empty 1]]
  by (simp add: may_proceed_def free_or_ours_def empty_state_def)



text \<open>
  A teardown touches nothing of other tunnels: whatever the state, an entry of any registry whose
  handle belongs to another tunnel survives the teardown unchanged, no entry appears, and no entry of
  the tunnel itself survives under the keys the teardown was given.
\<close>

theorem teardown_frame_and_completeness:
  "(http_routes (fst (teardown t st)) k = Some h \<longleftrightarrow>
            http_routes st k = Some h \<and> (h_tunnel_id h \<noteq> td_tunnel_id t \<or> k \<noteq> td_subdomain t))
    \<and> (https_routes (fst (teardown t st)) k = Some h \<longleftrightarrow>
            https_routes st k = Some h \<and> (h_tunnel_id h \<noteq> td_tunnel_id t \<or> k \<noteq> td_subdomain t))
    \<and> (port_routes (fst (teardown t st)) p = Some h \<longleftrightarrow>
            port_routes st p = Some h \<and> (h_tunnel_id h \<noteq> td_tunnel_id t \<or> p \<notin> set (td_ports t)))
    \<and> (udp_routes (fst (teardown t st)) p = Some h \<longleftrightarrow>
            udp_routes st p = Some h \<and> (h_tunnel_id h \<noteq> td_tunnel_id t \<or> p \<notin> set (td_udp_ports t)))
    \<and> (custom_http (fst (teardown t st)) k = Some h \<longleftrightarrow>
            custom_http st k = Some h \<and> (h_tunnel_id h \<noteq> td_tunnel_id t \<or> td_custom_domain t \<noteq> Some k))
    \<and> (custom_https (fst (teardown t st)) k = Some h \<longleftrightarrow>
            custom_https st k = Some h \<and> (h_tunnel_id h \<noteq> td_tunnel_id t \<or> td_custom_domain t \<noteq> Some k))"
  by (simp add: teardown_def td_all_def one_key.cleanup_iff opt_key.cleanup_iff all_keys.cleanup_iff)

theorem teardown_frame_and_completeness_witness:
  "http_routes (fst (teardown (session_teardown demo_session)
       (empty_state\<lparr>http_routes := [''duck'' \<mapsto> demo_handle 1, ''swan'' \<mapsto> (demo_handle 2)\<lparr>h_tunnel_id := 43\<rparr>]\<rparr>)))
     ''swan'' = Some ((demo_handle 2)\<lparr>h_tunnel_id := 43\<rparr>)"
  using teardown_frame_and_completeness [of "session_teardown demo_session"
      "empty_state\<lparr>http_routes := [''duck'' \<mapsto> demo_handle 1, ''swan'' \<mapsto> (demo_handle 2)\<lparr>h_tunnel_id := 43\<rparr>]\<rparr>"
      "''swan''" "(demo_handle 2)\<lparr>h_tunnel_id := 43\<rparr>" 0]
  by (simp add: session_teardown_def demo_session_def demo_claims_def)

section \<open>Where the code falls short of its comment\<close>

text \<open>
  \<^verbatim>\<open>teardown\<close> says it removes entries \<^verbatim>\<open>only if still owned by this tunnel_id\<close>, but a reconnected
  session of the same tunnel has the same tunnel id, and \<^verbatim>\<open>tunnels\<close> is not checked at all: the
  late teardown of an old session unroutes the new, live one and aborts its listeners.
\<close>

theorem old_teardown_unroutes_new_session:
  assumes "http_routes st (tc_subdomain (s_claims old)) = Some h"
    and "h_tunnel_id h = tc_tunnel_id (s_claims old)"
    and "tunnels st (tc_subdomain (s_claims old)) = Some new_tunnel"
  shows "host_route (fst (teardown (session_teardown old) st)) (tc_subdomain (s_claims old)) Http = None
    \<and> tunnels (fst (teardown (session_teardown old) st)) (tc_subdomain (s_claims old)) = None
    \<and> fst (snd (teardown (session_teardown old) st)) = at_listener_handles new_tunnel"
  using assms
  by (simp add: teardown_def td_all_def session_teardown_def host_route_def remove_owned_def td_aborts_def)

theorem old_teardown_unroutes_new_session_witness:
  "host_route (fst (teardown (session_teardown demo_session)
      (activate 2 demo_session (empty_state\<lparr>http_routes := [''duck'' \<mapsto> demo_handle 2]\<rparr>)))) ''duck'' Http = None"
  using old_teardown_unroutes_new_session [of
      "activate 2 demo_session (empty_state\<lparr>http_routes := [''duck'' \<mapsto> demo_handle 2]\<rparr>)"
      demo_session "demo_handle 2" "active_tunnel 2 demo_session"]
  by (simp add: activate_def demo_session_def demo_claims_def demo_handle_def)

text \<open>
  The ownership check covers the subdomain only: a token for another tunnel takes over the custom
  domain of a live tunnel.
\<close>

theorem custom_domain_taken_over:
  assumes "tc_custom_domain (s_claims s) = Some d" and "p_mode p = Http"
    and "custom_http st d = Some h" "h_tunnel_id h \<noteq> tc_tunnel_id (s_claims s)"
  shows "custom_host_route (register_core sid p s st) d Http = Some (handle_for sid s p)"
  using assms by (simp add: register_core_def custom_host_route_def Let_def)

end
