(* ===== verification/HttpHead.thy ===== *)
theory HttpHead
  imports Proto
begin

text \<open>
  The HTTP side of the shared listener (\<^verbatim>\<open>natforge-node/src/tunnel/shared.rs\<close>): how a
  hostname becomes a routing key, how the Host header and an ACME challenge path are found in the
  bytes read so far, and how \<^verbatim>\<open>with_forwarded_headers\<close> rewrites the first request head.

  A socket is the list of chunks its reads will deliver; the end of the list (or an empty
  chunk) is the end of the stream, an error or the timeout, which the code treats alike.
  The text of an address (\<^verbatim>\<open>Display\<close> of \<^verbatim>\<open>IpAddr\<close>) is a parameter.
\<close>

section \<open>Hostnames\<close>

text \<open>\<^verbatim>\<open>host.split(':').next()\<close>, then \<^verbatim>\<open>trim\<close>, \<^verbatim>\<open>trim_end_matches('.')\<close>, \<^verbatim>\<open>to_ascii_lowercase\<close>.\<close>

definition hostname_of :: "string \<Rightarrow> string" where
  "hostname_of host =
     to_ascii_lowercase (trim_end_matches CHR ''.'' (trim (hd (split_on CHR '':'' host))))"

definition subdomain_of :: "string \<Rightarrow> string" where
  "subdomain_of host =
     (let before_port = hd (split_on CHR '':'' host);
          host = trim_end_matches CHR ''.'' (trim before_port);
          first_label = hd (split_on CHR ''.'' host)
      in to_ascii_lowercase first_label)"

section \<open>Searching\<close>

text \<open>The index of the first window equal to the needle.\<close>

fun find_subsequence :: "'a list \<Rightarrow> 'a list \<Rightarrow> nat option" where
  "find_subsequence [] needle = (if needle = [] then Some 0 else None)"
| "find_subsequence (x # xs) needle =
     (if prefix needle (x # xs) then Some 0 else map_option Suc (find_subsequence xs needle))"

lemma find_subsequence_Some:
  "find_subsequence h n = Some i \<Longrightarrow> i + length n \<le> length h \<and> take (length n) (drop i h) = n"
proof (induction h arbitrary: i)
  case Nil
  then show ?case by (simp split: if_splits)
next
  case (Cons x xs)
  show ?case
  proof (cases "prefix n (x # xs)")
    case True
    then obtain t where t: "x # xs = n @ t" by (auto simp: prefix_def)
    have "i = 0" using Cons.prems True by simp
    moreover have "length n \<le> length (x # xs)" "take (length n) (x # xs) = n"
      unfolding t by simp_all
    ultimately show ?thesis by simp
  next
    case False
    then obtain k where k: "find_subsequence xs n = Some k" "i = Suc k"
      using Cons.prems by auto
    show ?thesis using Cons.IH [OF k(1)] k(2) by simp
  qed
qed

lemma find_subsequence_None: "find_subsequence h n = None \<longleftrightarrow> \<not> sublist n h"
  by (induction h) (auto simp: sublist_Cons_right)

lemma find_subsequence_first:
  "find_subsequence h n = Some i \<Longrightarrow> j < i \<Longrightarrow> \<not> prefix n (drop j h)"
proof (induction h arbitrary: i j)
  case Nil
  then show ?case by (simp split: if_splits)
next
  case (Cons x xs)
  then show ?case by (cases j) (auto split: if_splits)
qed

lemma find_subsequence_append:
  "find_subsequence h n = Some i \<Longrightarrow> find_subsequence (h @ t) n = Some i"
proof (induction h arbitrary: i)
  case Nil
  then show ?case by (cases t) (auto split: if_splits)
next
  case (Cons x xs)
  show ?case
  proof (cases "prefix n (x # xs)")
    case True
    then have "prefix n (x # xs @ t)" by (metis append_Cons prefix_prefix)
    then show ?thesis using Cons.prems True by simp
  next
    case False
    then obtain k where k: "find_subsequence xs n = Some k" "i = Suc k"
      using Cons.prems by auto
    have len: "k + length n \<le> length xs" using find_subsequence_Some [OF k(1)] by simp
    have "prefix (x # xs) (x # xs @ t)" by simp
    then have "\<not> prefix n (x # xs @ t)"
      using False len prefix_length_prefix [of n "x # xs @ t" "x # xs"] by auto
    then show ?thesis using Cons.IH [OF k(1)] k(2) by simp
  qed
qed

text \<open>\<^verbatim>\<open>str::split("\r\n")\<close>, for any non-empty separator.\<close>

function split_str :: "'a list \<Rightarrow> 'a list \<Rightarrow> 'a list list" where
  "split_str sep s =
     (if sep = [] then [s]
      else case find_subsequence s sep of
             None \<Rightarrow> [s]
           | Some i \<Rightarrow> take i s # split_str sep (drop (i + length sep) s))"
  by pat_completeness auto
termination
  by (relation "measure (\<lambda>(sep, s). length s)") (auto dest!: find_subsequence_Some simp: neq_Nil_conv)

declare split_str.simps [simp del]

lemma split_str_None: "find_subsequence s sep = None \<Longrightarrow> split_str sep s = [s]"
  by (subst split_str.simps) simp

lemma split_str_Some:
  "sep \<noteq> [] \<Longrightarrow> find_subsequence s sep = Some i \<Longrightarrow>
     split_str sep s = take i s # split_str sep (drop (i + length sep) s)"
  by (subst split_str.simps) simp

lemma split_str_nonempty [simp]: "split_str sep s \<noteq> []"
  by (subst split_str.simps) (simp split: option.split)

lemma join_split_str [str_simps]: "sep \<noteq> [] \<Longrightarrow> join sep (split_str sep s) = s"
proof (induction sep s rule: split_str.induct)
  case (1 sep s)
  show ?case
  proof (cases "find_subsequence s sep")
    case None
    then show ?thesis using "1.prems" by (subst split_str.simps) simp
  next
    case (Some i)
    have IH: "join sep (split_str sep (drop (i + length sep) s)) = drop (i + length sep) s"
      using "1.IH" "1.prems" Some by simp
    have "s = take i s @ sep @ drop (i + length sep) s"
      using find_subsequence_Some [OF Some] by (metis append_take_drop_id add.commute drop_drop)
    then show ?thesis
      using IH Some "1.prems" split_str_nonempty [of sep "drop (i + length sep) s"]
      by (subst split_str.simps) (cases "split_str sep (drop (i + length sep) s)"; simp)
  qed
qed

abbreviation CRLF :: bytes where
  "CRLF \<equiv> [CHR 0x0D, CHR 0x0A]"

abbreviation CRLF2 :: bytes where
  "CRLF2 \<equiv> [CHR 0x0D, CHR 0x0A, CHR 0x0D, CHR 0x0A]"

section \<open>The Host header and ACME paths\<close>

definition parse_host_line :: "bytes \<Rightarrow> bytes" where
  "parse_host_line line = (case strip_suffix line [CHR 0x0D] of Some l \<Rightarrow> l | None \<Rightarrow> line)"

fun parse_host_lines :: "bytes list \<Rightarrow> string option" where
  "parse_host_lines [] = None"
| "parse_host_lines (l # ls) =
     (let line = parse_host_line l in
      if 5 \<le> length line \<and> eq_ignore_ascii_case (take 5 line) ''host:'' then
        if \<not> valid_utf8 (drop 5 line) then None
        else let val = trim (drop 5 line) in if val = [] then None else Some val
      else parse_host_lines ls)"

definition parse_host :: "bytes \<Rightarrow> string option" where
  "parse_host buf = parse_host_lines (split_on CHR 0x0A buf)"

definition ACME_PREFIX :: bytes where
  "ACME_PREFIX = ''/.well-known/acme-challenge/''"

definition acme_challenge_token :: "bytes \<Rightarrow> string option" where
  "acme_challenge_token buf =
     (case find_subsequence buf CRLF of
        None \<Rightarrow> None
      | Some line_end \<Rightarrow>
          (case split_on CHR '' '' (take line_end buf) of
             _ # path # _ \<Rightarrow>
               (case strip_prefix path ACME_PREFIX of
                  None \<Rightarrow> None
                | Some token \<Rightarrow> if valid_utf8 token then Some token else None)
           | _ \<Rightarrow> None))"

section \<open>Forwarded headers\<close>

text \<open>Read on until the head is complete or the cap is reached; \<^verbatim>\<open>Inl\<close> is the early return.\<close>

fun read_head :: "nat \<Rightarrow> bytes \<Rightarrow> bytes list \<Rightarrow> bytes + (bytes \<times> bytes list)" where
  "read_head max_bytes head [] =
     (if find_subsequence head CRLF2 = None \<and> length head < max_bytes then Inl head else Inr (head, []))"
| "read_head max_bytes head (c # cs) =
     (if find_subsequence head CRLF2 = None \<and> length head < max_bytes
      then if c = [] then Inl head else read_head max_bytes (head @ c) cs
      else Inr (head, c # cs))"

definition is_forwarded_line :: "string \<Rightarrow> bool" where
  "is_forwarded_line line = prefix ''x-forwarded-'' (to_ascii_lowercase line)"

definition forwarded_block :: "(IpAddr \<Rightarrow> string) \<Rightarrow> IpAddr \<Rightarrow> string \<Rightarrow> string \<Rightarrow> bytes" where
  "forwarded_block show_ip ip scheme host =
     ''X-Forwarded-For: '' @ show_ip ip @ CRLF @ ''X-Forwarded-Proto: '' @ scheme @ CRLF
     @ ''X-Forwarded-Host: '' @ host @ CRLF"

definition rewrite_head :: "(IpAddr \<Rightarrow> string) \<Rightarrow> bytes \<Rightarrow> IpAddr \<Rightarrow> string \<Rightarrow> string \<Rightarrow> bytes" where
  "rewrite_head show_ip head ip host scheme =
     (case find_subsequence head CRLF2 of
        None \<Rightarrow> head
      | Some e \<Rightarrow>
          if \<not> valid_utf8 (take e head) then head
          else concat (map (\<lambda>line. line @ CRLF)
                 (filter (\<lambda>line. \<not> is_forwarded_line line) (split_str CRLF (take e head))))
               @ forwarded_block show_ip ip scheme host @ CRLF @ drop (e + 4) head)"

text \<open>The rewritten head and the chunks the socket still holds.\<close>

definition with_forwarded_headers ::
    "(IpAddr \<Rightarrow> string) \<Rightarrow> bytes list \<Rightarrow> bytes \<Rightarrow> SocketAddr \<Rightarrow> string \<Rightarrow> string \<Rightarrow> nat \<Rightarrow> bytes \<times> bytes list" where
  "with_forwarded_headers show_ip stream head peer host scheme max_bytes =
     (case read_head max_bytes head stream of
        Inl head \<Rightarrow> (head, [])
      | Inr (head, rest) \<Rightarrow> (rewrite_head show_ip head (sa_ip peer) host scheme, rest))"

section \<open>Lines of a head\<close>

lemma find_subsequence_at:
  "prefix n t \<Longrightarrow> (\<And>j. j < length l \<Longrightarrow> \<not> prefix n (drop j (l @ t))) \<Longrightarrow>
     find_subsequence (l @ t) n = Some (length l)"
proof (induction l)
  case Nil
  then show ?case by (cases t) auto
next
  case (Cons x xs)
  have "\<not> prefix n (x # xs @ t)" using Cons.prems(2) [of 0] by simp
  moreover have "find_subsequence (xs @ t) n = Some (length xs)"
  proof (rule Cons.IH [OF Cons.prems(1)])
    show "\<not> prefix n (drop j (xs @ t))" if "j < length xs" for j
      using Cons.prems(2) [of "Suc j"] that by simp
  qed
  ultimately show ?case by simp
qed

text \<open>A line without CRLF keeps its place in front of a line break.\<close>

lemma crlf_free_drop: "\<not> sublist CRLF l \<Longrightarrow> \<not> sublist CRLF (drop j l)"
  using sublist_order.order_trans [of CRLF "drop j l" l] sublist_drop by blast

lemma crlf_not_prefix_line:
  "\<not> sublist CRLF l \<Longrightarrow> l \<noteq> [] \<Longrightarrow> \<not> prefix CRLF (l @ CRLF @ t)"
proof (cases l)
  case (Cons x xs)
  assume free: "\<not> sublist CRLF l"
  show ?thesis
  proof (cases xs)
    case Nil
    then show ?thesis using Cons by simp
  next
    fix y ys assume ys: "xs = y # ys"
    have "\<not> (x = CHR 0x0D \<and> y = CHR 0x0A)"
    proof
      assume "x = CHR 0x0D \<and> y = CHR 0x0A"
      then have "l = CRLF @ ys" using Cons ys by simp
      then show False using free by simp
    qed
    then show ?thesis using Cons ys by auto
  qed
qed simp

lemma find_crlf_line:
  assumes "\<not> sublist CRLF l"
  shows "find_subsequence (l @ CRLF @ t) CRLF = Some (length l)"
proof (rule find_subsequence_at)
  show "\<not> prefix CRLF (drop j (l @ CRLF @ t))" if "j < length l" for j
    using crlf_not_prefix_line [OF crlf_free_drop [OF assms, of j], of t] that by simp
qed simp

lemma split_crlf_line:
  "\<not> sublist CRLF l \<Longrightarrow> split_str CRLF (l @ CRLF @ t) = l # split_str CRLF t"
  by (subst split_str.simps) (use find_crlf_line [of l t] in simp)

lemma split_crlf_free: "\<not> sublist CRLF l \<Longrightarrow> split_str CRLF l = [l]"
  by (subst split_str.simps) (simp add: find_subsequence_None [symmetric])

lemma split_join_crlf:
  "ls \<noteq> [] \<Longrightarrow> \<forall>l \<in> set ls. \<not> sublist CRLF l \<Longrightarrow> split_str CRLF (join CRLF ls) = ls"
proof (induction ls)
  case (Cons l ls)
  then show ?case
    by (cases ls) (simp_all add: split_crlf_free split_crlf_line [simplified])
qed simp

lemma split_crlf_pieces: "p \<in> set (split_str CRLF s) \<Longrightarrow> \<not> sublist CRLF p"
proof (induction "CRLF" s rule: split_str.induct)
  case (1 s)
  show ?case
  proof (cases "find_subsequence s CRLF")
    case None
    then have "split_str CRLF s = [s]" "\<not> sublist CRLF s"
      by (simp_all add: split_str_None find_subsequence_None [symmetric])
    then show ?thesis using "1.prems" by simp
  next
    case (Some i)
    have "\<not> sublist CRLF (take i s)"
    proof
      assume "sublist CRLF (take i s)"
      then obtain k where k: "find_subsequence (take i s) CRLF = Some k"
        by (metis find_subsequence_None not_None_eq)
      then have "k + 2 \<le> i" using find_subsequence_Some [OF k] by simp
      moreover have "find_subsequence s CRLF = Some k"
        using find_subsequence_append [OF k, of "drop i s"] by simp
      ultimately show False using Some by simp
    qed
    then show ?thesis
      using "1.hyps" [of i] "1.prems" Some by (auto simp: split_str.simps [of CRLF s])
  qed
qed

text \<open>The first blank line of a head made of CRLF-free lines, none of them empty after the first.\<close>

lemma find_crlf2_line:
  assumes "\<not> sublist CRLF l" and "\<not> prefix CRLF t" and "find_subsequence t CRLF2 = Some k"
  shows "find_subsequence (l @ CRLF @ t) CRLF2 = Some (length l + 2 + k)"
  using assms(1)
proof (induction l)
  case Nil
  then show ?case using assms(2,3) by (cases t) (auto simp: prefix_def)
next
  case (Cons x xs)
  have free: "\<not> sublist CRLF xs"
    using Cons.prems crlf_free_drop [of "x # xs" 1] by simp
  have "\<not> prefix CRLF ((x # xs) @ CRLF @ t)"
    by (rule crlf_not_prefix_line [OF Cons.prems]) simp
  then have "\<not> prefix CRLF2 ((x # xs) @ CRLF @ t)" by (auto simp: prefix_def)
  then show ?case using Cons.IH [OF free] by simp
qed

lemma find_crlf2_end:
  assumes "\<not> sublist CRLF l"
  shows "find_subsequence (l @ CRLF2 @ t) CRLF2 = Some (length l)"
proof (rule find_subsequence_at)
  show "\<not> prefix CRLF2 (drop j (l @ CRLF2 @ t))" if "j < length l" for j
    using crlf_not_prefix_line [OF crlf_free_drop [OF assms, of j], of "CRLF @ t"] that
    by (auto simp: prefix_def)
qed simp

lemma find_crlf2_lines:
  assumes "ls \<noteq> []" and "\<forall>l \<in> set ls. \<not> sublist CRLF l" and "\<forall>l \<in> set (tl ls). l \<noteq> []"
  shows "find_subsequence (join CRLF ls @ CRLF2 @ t) CRLF2 = Some (length (join CRLF ls))"
  using assms
proof (induction ls)
  case (Cons l ls)
  show ?case
  proof (cases ls)
    case Nil
    then show ?thesis using Cons.prems find_crlf2_end [of l t] by simp
  next
    case (Cons l2 ls2)
    have IH: "find_subsequence (join CRLF ls @ CRLF2 @ t) CRLF2 = Some (length (join CRLF ls))"
      using Cons.IH Cons.prems Cons by simp
    have "\<not> prefix CRLF (join CRLF ls @ CRLF2 @ t)"
    proof (cases ls2)
      case Nil
      then show ?thesis
        using crlf_not_prefix_line [of l2 "CRLF @ t"] Cons.prems Cons by simp
    next
      fix l3 ls3 assume "ls2 = l3 # ls3"
      then show ?thesis
        using crlf_not_prefix_line [of l2 "join CRLF ls2 @ CRLF2 @ t"] Cons.prems Cons by simp
    qed
    moreover have "\<not> sublist CRLF l" using Cons.prems by simp
    ultimately show ?thesis
      using find_crlf2_line [of l "join CRLF ls @ CRLF2 @ t"] IH Cons by simp
  qed
qed simp

lemma split_crlf_tl_nonempty:
  assumes "\<forall>j < length s. \<not> prefix CRLF2 (drop j (s @ CRLF2 @ t))"
  shows "\<forall>p \<in> set (tl (split_str CRLF s)). p \<noteq> []"
  using assms
proof (induction "CRLF" s rule: split_str.induct)
  case (1 s)
  show ?case
  proof (cases "find_subsequence s CRLF")
    case None
    then show ?thesis by (simp add: split_str.simps [of CRLF s])
  next
    case (Some i)
    let ?r = "drop (i + 2) s"
    have split: "split_str CRLF s = take i s # split_str CRLF ?r"
      using Some by (simp add: split_str.simps [of CRLF s])
    have i: "i + 2 \<le> length s" "take 2 (drop i s) = CRLF"
      using find_subsequence_Some [OF Some] by (simp_all add: numeral_2_eq_2)
    have di: "drop i s = CRLF @ ?r"
      using i(2) append_take_drop_id [of 2 "drop i s"] by (simp add: add.commute)
    have tl: "\<forall>p \<in> set (tl (split_str CRLF ?r)). p \<noteq> []"
    proof -
      have "\<forall>j < length ?r. \<not> prefix CRLF2 (drop j (?r @ CRLF2 @ t))"
      proof (intro allI impI)
        fix j assume "j < length ?r"
        then have "i + 2 + j < length s" "drop (i + 2 + j) (s @ CRLF2 @ t) = drop j (?r @ CRLF2 @ t)"
          by (simp_all add: add.commute)
        then show "\<not> prefix CRLF2 (drop j (?r @ CRLF2 @ t))"
          using "1.prems" by metis
      qed
      then show ?thesis using "1.hyps" [of i] Some by simp
    qed
    have "hd (split_str CRLF ?r) \<noteq> []"
    proof
      assume "hd (split_str CRLF ?r) = []"
      then have "?r = [] \<or> prefix CRLF ?r"
      proof (cases "find_subsequence ?r CRLF")
        case None
        then have "hd (split_str CRLF ?r) = ?r" by (simp only: split_str_None list.sel)
        then show ?thesis using \<open>hd (split_str CRLF ?r) = []\<close> by simp
      next
        case (Some k)
        then have "take k ?r = []"
          using \<open>hd (split_str CRLF ?r) = []\<close> split_str_Some [OF _ Some] by simp
        then have "?r = [] \<or> k = 0" by auto
        then show ?thesis
          using find_subsequence_Some [OF Some] by (auto simp: take_is_prefix numeral_2_eq_2) (metis take_is_prefix)
      qed
      then have "prefix CRLF (?r @ CRLF2 @ t)" by (auto simp: prefix_def)
      then have "prefix CRLF2 (drop i (s @ CRLF2 @ t))"
        using di i(1) by (auto simp: prefix_def)
      then show False using "1.prems" i(1) by auto
    qed
    then have "\<forall>p \<in> set (split_str CRLF ?r). p \<noteq> []"
      using tl by (cases "split_str CRLF ?r") auto
    then show ?thesis by (simp only: split list.sel)
  qed
qed

lemma concat_lines_join:
  "ls \<noteq> [] \<Longrightarrow> concat (map (\<lambda>l. l @ CRLF) ls) = join CRLF ls @ CRLF"
proof (induction ls)
  case (Cons l ls)
  then show ?case by (cases ls) simp_all
qed simp

definition our_lines :: "(IpAddr \<Rightarrow> string) \<Rightarrow> IpAddr \<Rightarrow> string \<Rightarrow> string \<Rightarrow> string list" where
  "our_lines show_ip ip scheme host =
     [''X-Forwarded-For: '' @ show_ip ip, ''X-Forwarded-Proto: '' @ scheme, ''X-Forwarded-Host: '' @ host]"

lemma forwarded_block_lines:
  "forwarded_block show_ip ip scheme host = concat (map (\<lambda>l. l @ CRLF) (our_lines show_ip ip scheme host))"
  by (simp add: forwarded_block_def our_lines_def)

lemma our_lines_nonempty: "our_lines show_ip ip scheme host \<noteq> []"
  "l \<in> set (our_lines show_ip ip scheme host) \<Longrightarrow> l \<noteq> []"
  by (auto simp: our_lines_def)

lemma sublist_crlf_append:
  "\<not> sublist CRLF b \<Longrightarrow> CHR 0x0D \<notin> set a \<Longrightarrow> \<not> sublist CRLF (a @ b)"
  by (induction a) (auto simp: sublist_Cons_right)

lemma our_lines_free:
  assumes "\<not> sublist CRLF (show_ip ip)" "\<not> sublist CRLF scheme" "\<not> sublist CRLF host"
    and "l \<in> set (our_lines show_ip ip scheme host)"
  shows "\<not> sublist CRLF l"
proof -
  have "l = ''X-Forwarded-For: '' @ show_ip ip \<or> l = ''X-Forwarded-Proto: '' @ scheme
      \<or> l = ''X-Forwarded-Host: '' @ host"
    using assms(4) by (auto simp: our_lines_def)
  then show ?thesis
    using assms(1-3) by (elim disjE; hypsubst; intro sublist_crlf_append) simp_all
qed

text \<open>The rewritten head, read as the next HTTP parser reads it.\<close>

lemma rewrite_head_lines:
  assumes e: "find_subsequence head CRLF2 = Some e" and u: "valid_utf8 (take e head)"
    and free: "\<not> sublist CRLF (show_ip ip)" "\<not> sublist CRLF scheme" "\<not> sublist CRLF host"
  defines "out \<equiv> rewrite_head show_ip head ip host scheme"
    and "kept \<equiv> filter (\<lambda>l. \<not> is_forwarded_line l) (split_str CRLF (take e head))"
  shows "find_subsequence out CRLF2 = Some (length (join CRLF (kept @ our_lines show_ip ip scheme host)))"
    and "out = join CRLF (kept @ our_lines show_ip ip scheme host) @ CRLF2 @ drop (e + 4) head"
    and "split_str CRLF (join CRLF (kept @ our_lines show_ip ip scheme host))
           = kept @ our_lines show_ip ip scheme host"
proof -
  let ?ls = "split_str CRLF (take e head)" and ?ours = "our_lines show_ip ip scheme host"
  have head: "e + 4 \<le> length head" "take 4 (drop e head) = CRLF2"
    using find_subsequence_Some [OF e] by (simp_all add: numeral_eq_Suc)
  have split: "head = take e head @ CRLF2 @ drop (e + 4) head"
    by (metis head(2) append_take_drop_id add.commute drop_drop)
  have "\<forall>j < length (take e head). \<not> prefix CRLF2 (drop j (take e head @ CRLF2 @ drop (e + 4) head))"
    using find_subsequence_first [OF e] by (simp only: split [symmetric]) simp
  then have ne: "\<forall>p \<in> set (tl ?ls). p \<noteq> []" by (rule split_crlf_tl_nonempty)
  have kept_tl: "\<forall>p \<in> set (tl kept). p \<noteq> []"
  proof (cases ?ls)
    case (Cons l ls)
    then have "\<forall>p \<in> set (filter (\<lambda>l. \<not> is_forwarded_line l) ls). p \<noteq> []" using ne by simp
    then show ?thesis
      using Cons by (auto simp: kept_def dest!: in_set_tlD)
  qed (simp add: kept_def)
  have tl: "\<forall>p \<in> set (tl (kept @ ?ours)). p \<noteq> []"
    using kept_tl by (cases kept) (auto simp: our_lines_def)
  have fr: "\<forall>p \<in> set (kept @ ?ours). \<not> sublist CRLF p"
    using split_crlf_pieces our_lines_free [of show_ip ip scheme host] free by (auto simp: kept_def)
  show out: "out = join CRLF (kept @ ?ours) @ CRLF2 @ drop (e + 4) head"
    using concat_lines_join [of "kept @ ?ours"] our_lines_nonempty(1) [of show_ip ip scheme host] e u
    by (simp add: out_def rewrite_head_def kept_def forwarded_block_lines)
  show "find_subsequence out CRLF2 = Some (length (join CRLF (kept @ ?ours)))"
    using find_crlf2_lines [OF _ fr tl] our_lines_nonempty(1) by (simp add: out)
  show "split_str CRLF (join CRLF (kept @ ?ours)) = kept @ ?ours"
    using split_join_crlf [OF _ fr] our_lines_nonempty(1) by simp
qed

section \<open>Routing keys\<close>

lemma hd_split_port:
  "CHR '':'' \<notin> set h \<Longrightarrow> port = [] \<or> hd port = CHR '':'' \<Longrightarrow> hd (split_on CHR '':'' (h @ port)) = h"
  by (cases port) (auto simp: hd_split_on takeWhile_append)

definition plain_label :: "string \<Rightarrow> bool" where
  "plain_label l \<longleftrightarrow> l \<noteq> [] \<and> list_all (\<lambda>c. is_ascii_alphanumeric c \<or> c = CHR ''-'') l"

lemma plain_char_not_special:
  "is_ascii_alphanumeric c \<or> c = CHR ''-'' \<Longrightarrow> c \<noteq> CHR '':'' \<and> c \<noteq> CHR ''.'' \<and> \<not> ws_edge c"
  by (auto simp: is_ascii_alphanumeric_def is_ascii_alphabetic_def is_ascii_upper_def
      is_ascii_lowercase_def is_ascii_digit_def ws_edge_def ws_seqs_def)

text \<open>Reading the head loses no byte: what is not in the head is still to come.\<close>

lemma read_head_conserves:
  "read_head mx head cs = Inr (h, rest) \<Longrightarrow> h @ concat rest = head @ concat cs"
proof (induction cs arbitrary: head)
  case (Cons c cs)
  then show ?case by (auto split: if_splits)
qed (simp split: if_splits)

section \<open>Properties\<close>

lemma is_forwarded_line_iff: "is_forwarded_line l \<longleftrightarrow> eq_ignore_ascii_case (take 12 l) ''x-forwarded-''"
proof -
  have p: "prefix p xs \<longleftrightarrow> take (length p) xs = p" for p xs :: string
    by (auto simp: prefix_def) (metis append_take_drop_id)
  have "length ''x-forwarded-'' = 12" "to_ascii_lowercase ''x-forwarded-'' = ''x-forwarded-''" by code_simp+
  then show ?thesis
    unfolding is_forwarded_line_def p eq_ignore_ascii_case_def by (simp only: to_ascii_lowercase_def take_map)
qed

text \<open>
  C7: what the origin receives after the rewriting of a complete UTF-8 head: its head is, line by
  line, the client's lines without every client-supplied line that starts with \<^verbatim>\<open>X-Forwarded-\<close> in any case, in their order,
  followed by exactly the node's three headers; the blank line ends it at that point, and the body
  bytes follow unchanged, first those already read and then those still in the socket.
\<close>

theorem forwarded_headers_replaced:
  assumes read: "read_head max_bytes head0 stream = Inr (head, rest)"
    and e: "find_subsequence head CRLF2 = Some e" and u: "valid_utf8 (take e head)"
    and free: "\<not> sublist CRLF (show_ip (sa_ip peer))" "\<not> sublist CRLF scheme" "\<not> sublist CRLF host"
  shows "\<exists>out e'. with_forwarded_headers show_ip stream head0 peer host scheme max_bytes = (out, rest)
    \<and> find_subsequence out CRLF2 = Some e'
    \<and> split_str CRLF (take e' out)
        = filter (\<lambda>l. \<not> eq_ignore_ascii_case (take 12 l) ''x-forwarded-'') (split_str CRLF (take e (head0 @ concat stream)))
          @ [''X-Forwarded-For: '' @ show_ip (sa_ip peer), ''X-Forwarded-Proto: '' @ scheme,
             ''X-Forwarded-Host: '' @ host]
    \<and> drop (e' + 4) out @ concat rest = drop (e + 4) (head0 @ concat stream)"
proof -
  let ?out = "rewrite_head show_ip head (sa_ip peer) host scheme"
  let ?kept = "filter (\<lambda>l. \<not> is_forwarded_line l) (split_str CRLF (take e head))"
  let ?ls = "?kept @ our_lines show_ip (sa_ip peer) scheme host"
  have r: "find_subsequence ?out CRLF2 = Some (length (join CRLF ?ls))"
    "?out = join CRLF ?ls @ CRLF2 @ drop (e + 4) head" "split_str CRLF (join CRLF ?ls) = ?ls"
    by (rule rewrite_head_lines [of head e show_ip "sa_ip peer" scheme host, OF e u free])+
  have le: "e + 4 \<le> length head" using find_subsequence_Some [OF e] by simp
  have c: "head0 @ concat stream = head @ concat rest" using read_head_conserves [OF read] by simp
  have tk: "take e (head @ concat rest) = take e head" using le by simp
  have t: "take (length (join CRLF ?ls)) ?out = join CRLF ?ls"
    and d: "drop (length (join CRLF ?ls) + 4) ?out = drop (e + 4) head"
    by (simp_all only: r(2) append_eq_conv_conj drop_append) simp_all
  show ?thesis
  proof (intro exI conjI)
    show "with_forwarded_headers show_ip stream head0 peer host scheme max_bytes = (?out, rest)"
      using read by (simp add: with_forwarded_headers_def)
    show "find_subsequence ?out CRLF2 = Some (length (join CRLF ?ls))" by (rule r(1))
    show "split_str CRLF (take (length (join CRLF ?ls)) ?out)
        = filter (\<lambda>l. \<not> eq_ignore_ascii_case (take 12 l) ''x-forwarded-'') (split_str CRLF (take e (head0 @ concat stream)))
          @ [''X-Forwarded-For: '' @ show_ip (sa_ip peer), ''X-Forwarded-Proto: '' @ scheme,
             ''X-Forwarded-Host: '' @ host]"
      by (simp only: t r(3)) (simp only: c tk our_lines_def is_forwarded_line_iff)
    show "drop (length (join CRLF ?ls) + 4) ?out @ concat rest = drop (e + 4) (head0 @ concat stream)"
      using le by (simp only: d c) simp
  qed
qed

theorem forwarded_headers_replaced_witness:
  "\<exists>out e'. with_forwarded_headers (\<lambda>_. ''1.2.3.4'')
        [''Host: a'' @ CRLF, CRLF @ ''body''] (''GET / HTTP/1.1'' @ CRLF @ ''x-forwarded-for: 6.6.6.6'' @ CRLF)
        (SocketAddr (V4 0x01020304) 9) ''a'' ''http'' 8192 = (out, [])
     \<and> find_subsequence out CRLF2 = Some e'"
  using forwarded_headers_replaced [of 8192
      "''GET / HTTP/1.1'' @ CRLF @ ''x-forwarded-for: 6.6.6.6'' @ CRLF"
      "[''Host: a'' @ CRLF, CRLF @ ''body'']"
      "''GET / HTTP/1.1'' @ CRLF @ ''x-forwarded-for: 6.6.6.6'' @ CRLF @ ''Host: a'' @ CRLF2 @ ''body''" "[]"
      "49" "\<lambda>_. ''1.2.3.4''" "SocketAddr (V4 0x01020304) 9" "''http''" "''a''"]
  by (simp add: sublist_Cons_right) (force simp: numeral_eq_Suc)

end
