(* ===== verification/Sni.thy ===== *)
theory Sni
  imports Proto "HOL-Library.Monad_Syntax"
begin

text \<open>
  The TLS ClientHello parser of the shared \<^verbatim>\<open>:443\<close> listener
  (\<^verbatim>\<open>parse_sni\<close> in \<^verbatim>\<open>natforge-node/src/tunnel/shared.rs\<close>). Every index and slice of the source is a
  checked access here: \<^verbatim>\<open>None\<close> is the panic the Rust code would raise, so that "never panics" is a
  theorem and not an artefact of total functions.
\<close>

datatype Sni = Found string | NeedMore | SniNone | NotTls

definition idx :: "'a list \<Rightarrow> nat \<Rightarrow> 'a option" where
  "idx b i = (if i < length b then Some (b ! i) else None)"

definition slice :: "'a list \<Rightarrow> nat \<Rightarrow> nat \<Rightarrow> 'a list option" where
  "slice b lo hi = (if lo \<le> hi \<and> hi \<le> length b then Some (take (hi - lo) (drop lo b)) else None)"

definition idx8 :: "bytes \<Rightarrow> nat \<Rightarrow> nat option" where
  "idx8 b i = map_option of_char (idx b i)"

text \<open>\<^verbatim>\<open>u16::from_be_bytes([b[i], b[i + 1]]) as usize\<close>.\<close>

definition idx16 :: "bytes \<Rightarrow> nat \<Rightarrow> nat option" where
  "idx16 b i = do { hi \<leftarrow> idx b i; lo \<leftarrow> idx b (i + 1); Some (unat (from_be16 [hi, lo])) }"

lemma idx_Some [simp]: "i < length b \<Longrightarrow> idx b i = Some (b ! i)"
  by (simp add: idx_def)

lemma idx8_Some [simp]: "i < length b \<Longrightarrow> idx8 b i = Some (of_char (b ! i))"
  by (simp add: idx8_def)

lemma idx16_Some: "i + 1 < length b \<Longrightarrow> idx16 b i = Some (unat (from_be16 [b ! i, b ! (i + 1)]))"
  by (simp add: idx16_def)

lemma slice_Some [simp]: "lo \<le> hi \<Longrightarrow> hi \<le> length b \<Longrightarrow> slice b lo hi = Some (take (hi - lo) (drop lo b))"
  by (simp add: slice_def)

lemma slice_at: "b = pre @ m @ post \<Longrightarrow> lo = length pre \<Longrightarrow> hi = lo + length m \<Longrightarrow> slice b lo hi = Some m"
  by (simp add: slice_def)

section \<open>The parser\<close>

text \<open>The server_name extension: \<^verbatim>\<open>list_len(2), name_type(1), name_len(2), name\<close>.\<close>

definition parse_server_name :: "bytes \<Rightarrow> Sni option" where
  "parse_server_name ext =
     (if length ext < 5 then Some SniNone
      else do {
        ty \<leftarrow> idx8 ext 2;
        if ty \<noteq> 0 then Some SniNone
        else do {
          name_len \<leftarrow> idx16 ext 3;
          if length ext < 5 + name_len then Some SniNone
          else do {
            name \<leftarrow> slice ext 5 (5 + name_len);
            Some (if valid_utf8 name then Found name else SniNone)
          }
        }
      })"

function parse_exts :: "bytes \<Rightarrow> nat \<Rightarrow> nat \<Rightarrow> Sni option" where
  "parse_exts body ext_end p =
     (if p + 4 \<le> ext_end then do {
        etype \<leftarrow> idx16 body p;
        elen \<leftarrow> idx16 body (p + 2);
        if length body < p + 4 + elen then Some NeedMore
        else if etype = 0 then do {
          ext \<leftarrow> slice body (p + 4) (p + 4 + elen);
          parse_server_name ext
        }
        else parse_exts body ext_end (p + 4 + elen)
      }
      else Some SniNone)"
  by pat_completeness auto
termination
  by (relation "measure (\<lambda>(body, ext_end, p). ext_end - p)") auto

declare parse_exts.simps [simp del]

text \<open>The body of the ClientHello: version and random, session id, ciphers, compression, extensions.\<close>

definition parse_hello_body :: "bytes \<Rightarrow> Sni option" where
  "parse_hello_body body =
     (if length body < 34 then Some NeedMore
      else if length body < 34 + 1 then Some NeedMore
      else do {
        sid \<leftarrow> idx8 body 34;
        let p = 34 + 1 + sid in
        if length body < p + 2 then Some NeedMore
        else do {
          cs \<leftarrow> idx16 body p;
          let p = p + 2 + cs in
          if length body < p + 1 then Some NeedMore
          else do {
            cm \<leftarrow> idx8 body p;
            let p = p + 1 + cm in
            if length body < p + 2 then Some SniNone
            else do {
              ext_total \<leftarrow> idx16 body p;
              let p = p + 2 in
              if length body < p + ext_total then Some NeedMore
              else parse_exts body (p + ext_total) p
            }
          }
        }
      })"

definition parse_sni :: "bytes \<Rightarrow> Sni option" where
  "parse_sni b =
     (if length b < 5 then Some NeedMore
      else do {
        b0 \<leftarrow> idx8 b 0;
        b1 \<leftarrow> idx8 b 1;
        if b0 \<noteq> 0x16 \<or> b1 \<noteq> 0x03 then Some NotTls
        else do {
          rec_len \<leftarrow> idx16 b 3;
          if length b < 5 + rec_len then Some NeedMore
          else do {
            hs \<leftarrow> slice b 5 (5 + rec_len);
            if length hs < 4 then Some SniNone
            else do {
              h0 \<leftarrow> idx8 hs 0;
              if h0 \<noteq> 0x01 then Some SniNone
              else do {
                body \<leftarrow> slice hs 4 (length hs);
                parse_hello_body body
              }
            }
          }
        }
      })"

section \<open>No panic\<close>

lemma parse_server_name_total: "\<exists>r. parse_server_name ext = Some r"
  by (auto simp: parse_server_name_def idx16_Some)

lemma parse_exts_total: "ext_end \<le> length body \<Longrightarrow> \<exists>r. parse_exts body ext_end p = Some r"
proof (induction body ext_end p rule: parse_exts.induct)
  case (1 body ext_end p)
  show ?case
  proof (cases "p + 4 \<le> ext_end")
    case True
    with "1.prems" have "idx16 body p = Some (unat (from_be16 [body ! p, body ! (p + 1)]))"
      "idx16 body (p + 2) = Some (unat (from_be16 [body ! (p + 2), body ! (p + 2 + 1)]))"
      by (simp_all add: idx16_Some)
    then show ?thesis
      using "1.IH" "1.prems" True parse_server_name_total
      by (subst parse_exts.simps) auto
  next
    case False
    then show ?thesis by (subst parse_exts.simps) simp
  qed
qed

lemma parse_hello_body_total: "\<exists>r. parse_hello_body body = Some r"
  using parse_exts_total by (auto simp: parse_hello_body_def Let_def idx16_Some)

lemma parse_sni_total_lemma: "\<exists>r. parse_sni b = Some r"
proof (cases "length b < 5")
  case True
  then show ?thesis by (simp add: parse_sni_def)
next
  case False
  then have "idx8 b 0 = Some (of_char (b ! 0))" "idx8 b 1 = Some (of_char (b ! 1))"
    "idx16 b 3 = Some (unat (from_be16 [b ! 3, b ! (3 + 1)]))"
    by (auto simp: idx8_def idx_def idx16_Some)
  moreover have "idx8 hs 0 = Some (of_char (hs ! 0))" if "\<not> length hs < 4" for hs
    using that by (auto simp: idx8_def idx_def)
  ultimately show ?thesis
    using False parse_hello_body_total by (auto simp: parse_sni_def)
qed

text \<open>The result as a plain value, for the routers.\<close>

definition sni_of :: "bytes \<Rightarrow> Sni" where
  "sni_of b = the (parse_sni b)"

lemma parse_sni_eq [simp]: "parse_sni b = Some (sni_of b)"
  using parse_sni_total_lemma [of b] by (auto simp: sni_of_def)

section \<open>Well-formed hellos\<close>

text \<open>A ClientHello with its variable fields, and its encoding in one TLS record.\<close>

record client_hello =
  ch_version :: "byte \<times> byte"
  ch_random :: bytes
  ch_session :: bytes
  ch_ciphers :: bytes
  ch_compression :: bytes
  ch_exts_before :: "(u16 \<times> bytes) list"
  ch_name :: string
  ch_exts_after :: bytes

definition enc_ext :: "u16 \<times> bytes \<Rightarrow> bytes" where
  "enc_ext e = be16 (fst e) @ be16 (word_of_nat (length (snd e))) @ snd e"

definition enc_sni_ext :: "string \<Rightarrow> bytes" where
  "enc_sni_ext name = be16 (word_of_nat (3 + length name)) @ [CHR 0x00] @ be16 (word_of_nat (length name)) @ name"

definition hello_exts :: "client_hello \<Rightarrow> bytes" where
  "hello_exts h =
     concat (map enc_ext (ch_exts_before h)) @ enc_ext (0, enc_sni_ext (ch_name h)) @ ch_exts_after h"

definition hello_body :: "client_hello \<Rightarrow> bytes" where
  "hello_body h =
     [fst (ch_version h), snd (ch_version h)] @ ch_random h
     @ [char_of (length (ch_session h))] @ ch_session h
     @ be16 (word_of_nat (length (ch_ciphers h))) @ ch_ciphers h
     @ [char_of (length (ch_compression h))] @ ch_compression h
     @ be16 (word_of_nat (length (hello_exts h))) @ hello_exts h"

definition hello_record :: "byte \<Rightarrow> client_hello \<Rightarrow> bytes" where
  "hello_record minor h =
     (let hs = CHR 0x01 # be_nat 3 (length (hello_body h)) @ hello_body h
      in [CHR 0x16, CHR 0x03, minor] @ be16 (word_of_nat (length hs)) @ hs)"

definition hello_ok :: "client_hello \<Rightarrow> bool" where
  "hello_ok h \<longleftrightarrow>
     length (ch_random h) = 32 \<and> length (ch_session h) < 256 \<and> length (ch_ciphers h) < 65536
     \<and> length (ch_compression h) < 256 \<and> length (hello_exts h) < 65536
     \<and> length (hello_body h) + 4 < 65536
     \<and> (\<forall>e \<in> set (ch_exts_before h). fst e \<noteq> 0) \<and> valid_utf8 (ch_name h)"

lemma idx16_be16:
  assumes "b = pre @ be16 w @ post" and "i = length pre"
  shows "idx16 b i = Some (unat w)"
proof -
  have "be16 w = [be16 w ! 0, be16 w ! 1]"
    by (rule nth_equalityI) (auto simp: less_Suc_eq numeral_2_eq_2)
  moreover have "b ! i = be16 w ! 0" "b ! (i + 1) = be16 w ! 1"
    using assms by (simp_all add: nth_append)
  moreover have "i + 1 < length b" using assms by simp
  ultimately show ?thesis
    using from_be16_be16 [of w] by (simp add: idx16_Some)
qed

lemma idx8_at: "b = pre @ c # post \<Longrightarrow> i = length pre \<Longrightarrow> idx8 b i = Some (of_char c)"
  by (simp add: idx8_def idx_def)

lemma unat_word_of_nat_16 [simp]: "n < 65536 \<Longrightarrow> unat (word_of_nat n :: u16) = n"
  by (simp add: unsigned_of_nat take_bit_nat_eq_self)

lemma parse_server_name_enc:
  assumes "length name < 65530" and "valid_utf8 name"
  shows "parse_server_name (enc_sni_ext name) = Some (Found name)"
proof -
  let ?e = "enc_sni_ext name"
  have "idx8 ?e 2 = Some 0"
    by (rule idx8_at [of _ "be16 (word_of_nat (3 + length name))" "CHR 0x00", simplified]) 
      (simp_all add: enc_sni_ext_def)
  moreover have "idx16 ?e 3 = Some (length name)"
    using assms(1) idx16_be16 [of ?e "be16 (word_of_nat (3 + length name)) @ [CHR 0x00]"
        "word_of_nat (length name)" name 3]
    by (simp add: enc_sni_ext_def)
  moreover have "length ?e = 5 + length name" "drop 5 ?e = name"
    by (simp_all add: enc_sni_ext_def)
  ultimately show ?thesis
    using assms(2) by (simp add: parse_server_name_def)
qed

lemma parse_exts_step:
  assumes body: "body = pre @ enc_ext e @ post" and len: "length (snd e) < 65536"
    and fits: "length pre + 4 \<le> ext_end"
  shows "parse_exts body ext_end (length pre) =
           (if fst e = 0 then parse_server_name (snd e)
            else parse_exts body ext_end (length (pre @ enc_ext e)))"
proof -
  have t: "idx16 body (length pre) = Some (unat (fst e))"
    using idx16_be16 [OF _ refl, of body pre "fst e"] body by (simp add: enc_ext_def)
  have l: "idx16 body (length pre + 2) = Some (length (snd e))"
    using idx16_be16 [of body "pre @ be16 (fst e)" "word_of_nat (length (snd e))" "snd e @ post"
        "length pre + 2"] body len
    by (simp add: enc_ext_def)
  have z: "(unat (fst e) = 0) = (fst e = 0)" by (simp add: unat_eq_zero)
  have s: "slice body (length pre + 4) (length pre + 4 + length (snd e)) = Some (snd e)"
    by (simp add: body enc_ext_def slice_def)
  have n: "\<not> length body < length pre + 4 + length (snd e)"
    by (simp add: body enc_ext_def)
  have q: "length (pre @ enc_ext e) = length pre + 4 + length (snd e)"
    by (simp add: enc_ext_def)
  show ?thesis
    using fits t l s n z unfolding q
    by (subst parse_exts.simps) simp
qed

lemma parse_exts_skip:
  assumes "body = pre @ concat (map enc_ext es) @ enc_ext (0, ext) @ post"
    and "\<forall>e \<in> set es. fst e \<noteq> 0 \<and> length (snd e) < 65536" and "length ext < 65536"
    and "length pre + length (concat (map enc_ext es)) + 4 \<le> ext_end"
  shows "parse_exts body ext_end (length pre) = parse_server_name ext"
  using assms
proof (induction es arbitrary: pre)
  case Nil
  then show ?case using parse_exts_step [of body pre "(0, ext)" post ext_end] by simp
next
  case (Cons e es)
  let ?post = "concat (map enc_ext es) @ enc_ext (0, ext) @ post"
  have 1: "parse_exts body ext_end (length pre) = parse_exts body ext_end (length (pre @ enc_ext e))"
    using Cons.prems parse_exts_step [of body pre e ?post ext_end] by simp
  have 2: "parse_exts body ext_end (length (pre @ enc_ext e)) = parse_server_name ext"
    by (rule Cons.IH) (use Cons.prems in auto)
  show ?case by (simp only: 1 2)
qed

lemma length_concat_enc_ext:
  "e \<in> set es \<Longrightarrow> length (snd e) \<le> length (concat (map enc_ext es))"
  by (induction es) (auto simp: enc_ext_def)

lemma parse_hello_body_eq:
  assumes "34 < length body" "idx8 body 34 = Some sid"
    and "p1 = 35 + sid" "p1 + 2 \<le> length body" "idx16 body p1 = Some cs"
    and "p2 = p1 + 2 + cs" "p2 + 1 \<le> length body" "idx8 body p2 = Some cm"
    and "p3 = p2 + 1 + cm" "p3 + 2 \<le> length body" "idx16 body p3 = Some et"
    and "p4 = p3 + 2" "p4 + et \<le> length body"
  shows "parse_hello_body body = parse_exts body (p4 + et) p4"
  using assms by (simp add: parse_hello_body_def Let_def)

lemma parse_hello_body_found:
  assumes ok: "hello_ok h"
  shows "parse_hello_body (hello_body h) = Some (Found (ch_name h))"
proof -
  let ?b = "hello_body h"
  let ?p0 = "[fst (ch_version h), snd (ch_version h)] @ ch_random h"
  let ?p1 = "?p0 @ [char_of (length (ch_session h))] @ ch_session h"
  let ?p2 = "?p1 @ be16 (word_of_nat (length (ch_ciphers h))) @ ch_ciphers h"
  let ?p3 = "?p2 @ [char_of (length (ch_compression h))] @ ch_compression h"
  let ?p4 = "?p3 @ be16 (word_of_nat (length (hello_exts h)))"
  have len: "length ?p0 = 34" "length (ch_session h) < 256" "length (ch_ciphers h) < 65536"
    "length (ch_compression h) < 256" "length (hello_exts h) < 65536"
    using ok by (simp_all add: hello_ok_def)
  have body: "?b = ?p4 @ hello_exts h" by (simp add: hello_body_def)
  have s1: "idx8 ?b 34 = Some (length (ch_session h))"
    using idx8_at [of ?b ?p0 "char_of (length (ch_session h))" _ 34] len by (simp add: hello_body_def)
  have s2: "idx16 ?b (length ?p1) = Some (length (ch_ciphers h))"
    using idx16_be16 [OF _ refl, of ?b ?p1 "word_of_nat (length (ch_ciphers h))"] len
    by (simp add: hello_body_def)
  have s3: "idx8 ?b (length ?p2) = Some (length (ch_compression h))"
    using idx8_at [OF _ refl, of ?b ?p2 "char_of (length (ch_compression h))"] len
    by (simp add: hello_body_def)
  have s4: "idx16 ?b (length ?p3) = Some (length (hello_exts h))"
    using idx16_be16 [OF _ refl, of ?b ?p3 "word_of_nat (length (hello_exts h))"] len
    by (simp add: hello_body_def)
  have name: "length (ch_name h) < 65530"
    using len(5) by (simp add: hello_exts_def enc_ext_def enc_sni_ext_def)
  have small: "\<forall>e \<in> set (ch_exts_before h). fst e \<noteq> 0 \<and> length (snd e) < 65536"
    using ok length_concat_enc_ext [of _ "ch_exts_before h"] len(5)
    by (fastforce simp: hello_ok_def hello_exts_def)
  have e: "parse_exts ?b (length ?p4 + length (hello_exts h)) (length ?p4) = Some (Found (ch_name h))"
  proof -
    have "parse_exts ?b (length ?p4 + length (hello_exts h)) (length ?p4)
            = parse_server_name (enc_sni_ext (ch_name h))"
    proof (rule parse_exts_skip [where post = "ch_exts_after h"])
      show "?b = ?p4 @ concat (map enc_ext (ch_exts_before h)) @ enc_ext (0, enc_sni_ext (ch_name h)) @ ch_exts_after h"
        by (simp add: body hello_exts_def)
      show "length (enc_sni_ext (ch_name h)) < 65536"
        using name by (simp add: enc_sni_ext_def)
      show "length ?p4 + length (concat (map enc_ext (ch_exts_before h))) + 4
              \<le> length ?p4 + length (hello_exts h)"
        by (simp add: hello_exts_def enc_ext_def)
    qed (rule small)
    moreover have "parse_server_name (enc_sni_ext (ch_name h)) = Some (Found (ch_name h))"
      by (rule parse_server_name_enc [OF name]) (use ok in \<open>simp add: hello_ok_def\<close>)
    ultimately show ?thesis by (rule trans)
  qed
  have lens: "length ?p1 = 35 + length (ch_session h)"
    "length ?p2 = length ?p1 + 2 + length (ch_ciphers h)"
    "length ?p3 = length ?p2 + 1 + length (ch_compression h)"
    "length ?p4 = length ?p3 + 2" "length ?b = length ?p4 + length (hello_exts h)"
    using len(1) by (simp_all add: body)
  have "parse_hello_body ?b = parse_exts ?b (length ?p4 + length (hello_exts h)) (length ?p4)"
    by (rule parse_hello_body_eq [OF _ s1 lens(1) _ s2 lens(2) _ s3 lens(3) _ s4 lens(4)])
      (use lens in linarith)+
  then show ?thesis by (simp only: e)
qed

lemma parse_sni_record:
  assumes "b = [CHR 0x16, CHR 0x03, minor] @ be16 (word_of_nat (length hs)) @ hs @ rest"
    and "length hs < 65536" and "hs = CHR 0x01 # l @ body" and "length l = 3"
  shows "parse_sni b = parse_hello_body body"
proof -
  have "idx8 b 0 = Some 0x16" "idx8 b 1 = Some 0x03"
    by (simp_all add: assms(1) idx8_def)
  moreover have "idx16 b 3 = Some (length hs)"
    using idx16_be16 [OF assms(1), of 3] assms(2) by simp
  moreover have "slice b 5 (5 + length hs) = Some hs"
    by (rule slice_at [of _ "[CHR 0x16, CHR 0x03, minor] @ be16 (word_of_nat (length hs))" _ rest])
      (simp_all add: assms(1))
  moreover have "\<not> length b < 5 + length hs" "\<not> length b < 5"
    by (simp_all add: assms(1))
  moreover have "slice hs 4 (length hs) = Some body"
    by (rule slice_at [of _ "CHR 0x01 # l" _ "[]"]) (use assms(3,4) in simp_all)
  moreover have "idx8 hs 0 = Some 1" "\<not> length hs < 4"
    using assms(3,4) by (simp_all add: idx8_def)
  ultimately show ?thesis
    by (simp add: parse_sni_def del: parse_sni_eq slice_Some idx_Some idx8_Some)
qed

lemma parse_sni_hello:
  assumes ok: "hello_ok h"
  shows "parse_sni (hello_record minor h @ rest) = Some (Found (ch_name h))"
proof -
  obtain hs where hs: "hs = CHR 0x01 # be_nat 3 (length (hello_body h)) @ hello_body h" by simp
  have "hello_record minor h @ rest
          = [CHR 0x16, CHR 0x03, minor] @ be16 (word_of_nat (length hs)) @ hs @ rest"
    by (simp add: hello_record_def Let_def hs)
  moreover have "length hs < 65536" using ok by (simp add: hs hello_ok_def)
  ultimately have "parse_sni (hello_record minor h @ rest) = parse_hello_body (hello_body h)"
    using hs by (rule parse_sni_record) simp
  then show ?thesis by (simp only: parse_hello_body_found [OF ok])
qed

text \<open>Any proper prefix of a TLS record asks for more bytes: nothing is decided early.\<close>

lemma parse_sni_need_more:
  assumes rec: "b = [CHR 0x16, CHR 0x03, minor] @ be16 w @ frag" and "length frag = unat w"
    and "n < length b"
  shows "parse_sni (take n b) = Some NeedMore"
proof (cases "n < 5")
  case True
  then show ?thesis unfolding parse_sni_def by (intro if_P) simp
next
  case False
  let ?t = "take n b"
  have t: "?t = [CHR 0x16, CHR 0x03, minor] @ be16 w @ take (n - 5) frag"
    using False rec by (simp add: take_Cons' numeral_eq_Suc)
  have "idx8 ?t 0 = Some 0x16" "idx8 ?t 1 = Some 0x03"
    by (simp_all add: t idx8_def)
  moreover have "idx16 ?t 3 = Some (unat w)"
    using idx16_be16 [OF t, of 3] by simp
  moreover have "length ?t < 5 + unat w" "\<not> length ?t < 5"
    using assms False by simp_all
  ultimately show ?thesis by (simp add: parse_sni_def del: parse_sni_eq)
qed

section \<open>Properties\<close>

text \<open>
  C8: the ClientHello parser never panics: on every byte buffer each index and slice it takes is in
  range and it returns one of its four results.
\<close>

theorem parse_sni_never_panics: "parse_sni b \<noteq> None"
  using parse_sni_total_lemma [of b] by auto

text \<open>
  C9: for every well-formed single-record ClientHello (any session id, cipher suites, compression
  methods and other extensions), with anything behind it in the buffer, the parser finds exactly the
  server name the client sent.
\<close>

theorem parse_sni_finds_name:
  assumes "hello_ok h"
  shows "parse_sni (hello_record minor h @ rest) = Some (Found (ch_name h))"
  by (rule parse_sni_hello [OF assms])

theorem parse_sni_finds_name_witness:
  "parse_sni (hello_record (CHR 0x01)
      \<lparr> ch_version = (CHR 0x03, CHR 0x03), ch_random = replicate 32 (CHR 0x00), ch_session = [],
        ch_ciphers = [CHR 0x00, CHR 0x2f], ch_compression = [CHR 0x00],
        ch_exts_before = [(10, [CHR 0x00])], ch_name = ''a.b'', ch_exts_after = [] \<rparr> @ []) = Some (Found ''a.b'')"
  using parse_sni_finds_name [of "\<lparr> ch_version = (CHR 0x03, CHR 0x03), ch_random = replicate 32 (CHR 0x00),
      ch_session = [], ch_ciphers = [CHR 0x00, CHR 0x2f], ch_compression = [CHR 0x00],
      ch_exts_before = [(10, [CHR 0x00])], ch_name = ''a.b'', ch_exts_after = [] \<rparr>" "CHR 0x01" "[]"]
  by (simp add: hello_ok_def hello_body_def hello_exts_def enc_ext_def enc_sni_ext_def)

text \<open>
  No proper prefix of a TLS handshake record decides anything: the parser asks for more bytes
  until the whole record has arrived, so fragmentation by the network cannot change the route.
\<close>

theorem parse_sni_prefix_needs_more:
  assumes "b = [CHR 0x16, CHR 0x03, minor] @ be16 w @ frag" and "length frag = unat w"
    and "n < length b"
  shows "parse_sni (take n b) = Some NeedMore"
  by (rule parse_sni_need_more [OF assms])

theorem parse_sni_prefix_needs_more_witness:
  "parse_sni (take 6 ([CHR 0x16, CHR 0x03, CHR 0x01] @ be16 2 @ [CHR 0x01, CHR 0x00])) = Some NeedMore"
  by (rule parse_sni_prefix_needs_more [OF refl]) simp_all

end
