(* ===== verification/Router.thy ===== *)
theory Router
  imports NodeState HttpHead Sni
begin

text \<open>
  The public side of a node (\<^verbatim>\<open>serve_http\<close>, \<^verbatim>\<open>serve_https\<close>, \<^verbatim>\<open>splice_to_route\<close> of
  \<^verbatim>\<open>tunnel/shared.rs\<close> and \<^verbatim>\<open>bridge_public_connection\<close> of \<^verbatim>\<open>tunnel/mod.rs\<close>): what one connection
  becomes, given the chunks its reads deliver and the state of the node.

  Parameters: \<^verbatim>\<open>geo\<close> is the country lookup (\<^verbatim>\<open>GeoDb::country\<close>), \<^verbatim>\<open>show_ip\<close> the text of an address,
  \<^verbatim>\<open>tls\<close> a TLS acceptor (the plaintext chunks it yields for the bytes it was given, \<^verbatim>\<open>None\<close> when
  the handshake fails), \<^verbatim>\<open>opened\<close> whether the driver handed out a stream and the preamble was
  written, and \<^verbatim>\<open>relay\<close> how the copying ended.
\<close>

section \<open>Connection logs\<close>

record ConnLog =
  cl_tunnel_id :: int
  cl_owner_id :: int
  cl_route_id :: u16
  cl_kind :: string
  cl_peer_ip :: string
  cl_country :: "string option"
  cl_bytes_in :: int
  cl_bytes_out :: int
  cl_duration_ms :: int
  cl_blocked :: bool

definition report_conn_log ::
    "RouteHandle \<Rightarrow> string \<Rightarrow> string option \<Rightarrow> nat \<Rightarrow> nat \<Rightarrow> nat \<Rightarrow> bool \<Rightarrow> ConnLog" where
  "report_conn_log handle peer_ip country bytes_in bytes_out duration_ms blocked =
     \<lparr> cl_tunnel_id = h_tunnel_id handle, cl_owner_id = h_owner_id handle,
       cl_route_id = h_route_id handle, cl_kind = as_str (h_mode handle), cl_peer_ip = peer_ip,
       cl_country = country, cl_bytes_in = min (int bytes_in) i64_max,
       cl_bytes_out = min (int bytes_out) i64_max, cl_duration_ms = min (int duration_ms) i64_max,
       cl_blocked = blocked \<rparr>"

section \<open>Relaying\<close>

datatype relay_end = RelayDone nat nat nat | RelayErr

text \<open>
  What a relay did: the bytes answered to the visitor before any relay, the bytes written to the
  agent's stream before copying starts (and the session whose driver opened it), the log entry and
  what is added to the byte counters.
\<close>

record Relay =
  r_answer :: "bytes option"
  r_sent :: "(session_id \<times> bytes) option"
  r_log :: "ConnLog option"
  r_stats :: "nat \<times> nat"

definition FORBIDDEN :: bytes where
  "FORBIDDEN = ''HTTP/1.1 403 Forbidden'' @ CRLF @ ''Connection: close'' @ CRLF
     @ ''Content-Length: 16'' @ CRLF2 @ ''region is blocked''"

definition splice_to_route ::
    "CoreState \<Rightarrow> (IpAddr \<Rightarrow> string option) \<Rightarrow> (IpAddr \<Rightarrow> string) \<Rightarrow> SocketAddr \<Rightarrow> bytes \<Rightarrow> RouteHandle
     \<Rightarrow> RouteMode \<Rightarrow> bool \<Rightarrow> relay_end \<Rightarrow> Relay" where
  "splice_to_route st geo show_ip peer peeked handle mode opened relay =
     (let peer_ip = show_ip (sa_ip peer);
          country = geo (sa_ip peer)
      in if is_country_blocked st (h_tunnel_id handle) country then
           \<lparr> r_answer = (if mode = Http then Some FORBIDDEN else None), r_sent = None,
             r_log = Some (report_conn_log handle peer_ip country 0 0 0 True), r_stats = (0, 0) \<rparr>
         else if \<not> opened then \<lparr> r_answer = None, r_sent = None, r_log = None, r_stats = (0, 0) \<rparr>
         else
           let sent = Some (h_open_tx handle, encode_preamble (h_route_id handle) (Some peer) peeked)
           in case relay of
                RelayDone to_agent from_agent ms \<Rightarrow>
                  let bytes_in = to_agent + length peeked
                  in \<lparr> r_answer = None, r_sent = sent,
                       r_log = Some (report_conn_log handle peer_ip country bytes_in from_agent ms False),
                       r_stats = (bytes_in, from_agent) \<rparr>
              | RelayErr \<Rightarrow> \<lparr> r_answer = None, r_sent = sent, r_log = None, r_stats = (0, 0) \<rparr>)"

definition bridge_public_connection ::
    "CoreState \<Rightarrow> (IpAddr \<Rightarrow> string option) \<Rightarrow> (IpAddr \<Rightarrow> string) \<Rightarrow> SocketAddr \<Rightarrow> RouteHandle
     \<Rightarrow> bool \<Rightarrow> relay_end \<Rightarrow> Relay" where
  "bridge_public_connection st geo show_ip peer handle opened relay =
     (let peer_ip = show_ip (sa_ip peer);
          country = geo (sa_ip peer)
      in if is_country_blocked st (h_tunnel_id handle) country then
           \<lparr> r_answer = None, r_sent = None,
             r_log = Some (report_conn_log handle peer_ip country 0 0 0 True), r_stats = (0, 0) \<rparr>
         else if \<not> opened then \<lparr> r_answer = None, r_sent = None, r_log = None, r_stats = (0, 0) \<rparr>
         else
           let sent = Some (h_open_tx handle, encode_preamble (h_route_id handle) (Some peer) [])
           in case relay of
                RelayDone to_agent from_agent ms \<Rightarrow>
                  \<lparr> r_answer = None, r_sent = sent,
                    r_log = Some (report_conn_log handle peer_ip country to_agent from_agent ms False),
                    r_stats = (to_agent, from_agent) \<rparr>
              | RelayErr \<Rightarrow> \<lparr> r_answer = None, r_sent = sent, r_log = None, r_stats = (0, 0) \<rparr>)"

section \<open>HTTP\<close>

datatype http_peek =
    PeekGone
  | PeekAcme string
  | PeekBad
  | PeekHost string bytes "bytes list"

text \<open>The read loop of \<^verbatim>\<open>serve_http\<close>; an empty chunk or the end of the list is EOF, error or timeout.\<close>

fun peek_http :: "nat \<Rightarrow> bytes \<Rightarrow> bytes list \<Rightarrow> http_peek" where
  "peek_http max_bytes buf [] = PeekGone"
| "peek_http max_bytes buf (c # cs) =
     (if c = [] then PeekGone
      else
        let buf = buf @ c in
        case acme_challenge_token buf of
          Some token \<Rightarrow> PeekAcme token
        | None \<Rightarrow>
            (case parse_host buf of
               Some h \<Rightarrow> PeekHost h buf cs
             | None \<Rightarrow>
                 if find_subsequence buf CRLF2 \<noteq> None \<or> max_bytes \<le> length buf then PeekBad
                 else peek_http max_bytes buf cs))"

definition BAD_REQUEST :: bytes where
  "BAD_REQUEST = ''HTTP/1.1 400 Bad Request'' @ CRLF @ ''Connection: close'' @ CRLF
     @ ''Content-Length: 11'' @ CRLF2 @ ''bad request''"

definition NOT_FOUND :: bytes where
  "NOT_FOUND = ''HTTP/1.1 404 Not Found'' @ CRLF @ ''Connection: close'' @ CRLF
     @ ''Content-Length: 18'' @ CRLF2 @ ''unknown tunnel host''"

definition BAD_GATEWAY :: bytes where
  "BAD_GATEWAY = ''HTTP/1.1 502 Bad Gateway'' @ CRLF @ ''Connection: close'' @ CRLF
     @ ''Content-Length: 17'' @ CRLF2 @ ''dashboard offline''"

text \<open>What becomes of a public connection; \<^verbatim>\<open>Splice\<close> carries the replay, the rest and the mode.\<close>

datatype conn =
    Dropped
  | Answered bytes
  | Dashboard bytes "bytes list"
  | Splice RouteHandle bytes "bytes list" RouteMode

definition serve_acme_challenge :: "(string \<Rightarrow> string option) \<Rightarrow> string \<Rightarrow> bytes" where
  "serve_acme_challenge challenges token =
     (case challenges token of
        Some resp \<Rightarrow>
          ''HTTP/1.1 200 OK'' @ CRLF @ ''Content-Type: text/plain'' @ CRLF @ ''Content-Length: ''
          @ nat_str (length resp) @ CRLF @ ''Connection: close'' @ CRLF2 @ resp
      | None \<Rightarrow>
          ''HTTP/1.1 404 Not Found'' @ CRLF @ ''Connection: close'' @ CRLF @ ''Content-Length: 0'' @ CRLF2)"

text \<open>\<^verbatim>\<open>upstream\<close> is whether the dashboard accepts the connection.\<close>

definition proxy_to_dashboard :: "bool \<Rightarrow> bytes \<Rightarrow> bytes list \<Rightarrow> conn" where
  "proxy_to_dashboard upstream peeked rest = (if upstream then Dashboard peeked rest else Answered BAD_GATEWAY)"

definition http_handle :: "CoreState \<Rightarrow> string \<Rightarrow> string \<Rightarrow> RouteHandle option" where
  "http_handle st hostname host =
     (case custom_host_route st hostname Http of
        Some h \<Rightarrow> Some h
      | None \<Rightarrow> host_route st (subdomain_of host) Http)"

definition is_apex :: "Config \<Rightarrow> string \<Rightarrow> bool" where
  "is_apex cfg hostname \<longleftrightarrow>
     (let apex = to_ascii_lowercase (public_host cfg) in hostname = apex \<or> hostname = ''www.'' @ apex)"

definition serve_http ::
    "Config \<Rightarrow> CoreState \<Rightarrow> (string \<Rightarrow> string option) \<Rightarrow> bool \<Rightarrow> (IpAddr \<Rightarrow> string) \<Rightarrow> SocketAddr
     \<Rightarrow> bytes list \<Rightarrow> conn" where
  "serve_http cfg st challenges upstream show_ip peer chunks =
     (case peek_http (max_header_bytes cfg) [] chunks of
        PeekGone \<Rightarrow> Dropped
      | PeekAcme token \<Rightarrow> Answered (serve_acme_challenge challenges token)
      | PeekBad \<Rightarrow> Answered BAD_REQUEST
      | PeekHost host buf rest \<Rightarrow>
          let hostname = hostname_of host in
          if is_apex cfg hostname then proxy_to_dashboard upstream buf rest
          else case http_handle st hostname host of
                 Some h \<Rightarrow>
                   (case with_forwarded_headers show_ip rest buf peer hostname ''http'' (max_header_bytes cfg) of
                      (head, rest) \<Rightarrow> Splice h head rest Http)
               | None \<Rightarrow> Answered NOT_FOUND)"

section \<open>HTTPS\<close>

fun peek_https :: "nat \<Rightarrow> bytes \<Rightarrow> bytes list \<Rightarrow> (string \<times> bytes \<times> bytes list) option" where
  "peek_https cap buf [] = None"
| "peek_https cap buf (c # cs) =
     (if c = [] then None
      else
        let buf = buf @ c in
        case sni_of buf of
          Found name \<Rightarrow> Some (name, buf, cs)
        | NeedMore \<Rightarrow> if length buf < cap then peek_https cap buf cs else None
        | _ \<Rightarrow> None)"

definition passthrough_handle :: "CoreState \<Rightarrow> string \<Rightarrow> string \<Rightarrow> RouteHandle option" where
  "passthrough_handle st sni_host sub =
     (case custom_host_route st sni_host Https of
        Some h \<Rightarrow> Some h
      | None \<Rightarrow> host_route st sub Https)"

type_synonym acceptor = "bytes list \<Rightarrow> bytes list option"

text \<open>The TLS acceptor and the route to terminate for, if any.\<close>

definition terminate_for ::
    "CoreState \<Rightarrow> acceptor \<Rightarrow> acceptor \<Rightarrow> (string \<Rightarrow> bool) \<Rightarrow> string \<Rightarrow> string \<Rightarrow> (acceptor \<times> RouteHandle) option" where
  "terminate_for st wildcard acme_acceptor has_cert sni_host sub =
     (case (if wildcard_tls st then Some wildcard else None, host_route st sub Http) of
        (Some acc, Some h) \<Rightarrow> Some (acc, h)
      | _ \<Rightarrow>
          if has_cert sni_host
          then (case custom_host_route st sni_host Http of
                  Some h \<Rightarrow> Some (acme_acceptor, h)
                | None \<Rightarrow> None)
          else None)"

definition serve_https ::
    "Config \<Rightarrow> CoreState \<Rightarrow> acceptor \<Rightarrow> acceptor \<Rightarrow> (string \<Rightarrow> bool) \<Rightarrow> (IpAddr \<Rightarrow> string) \<Rightarrow> SocketAddr
     \<Rightarrow> bytes list \<Rightarrow> conn" where
  "serve_https cfg st wildcard acme_acceptor has_cert show_ip peer chunks =
     (case peek_https (max (max_header_bytes cfg) 16384) [] chunks of
        None \<Rightarrow> Dropped
      | Some (sni, buf, rest) \<Rightarrow>
          let sni_host = hostname_of sni; sub = subdomain_of sni in
          case passthrough_handle st sni_host sub of
            Some h \<Rightarrow> Splice h buf rest Https
          | None \<Rightarrow>
              (case terminate_for st wildcard acme_acceptor has_cert sni_host sub of
                 Some (acceptor, h) \<Rightarrow>
                   (case acceptor (buf # rest) of
                      Some plain \<Rightarrow>
                        (case with_forwarded_headers show_ip plain [] peer sni_host ''https'' (max_header_bytes cfg) of
                           (head, rest) \<Rightarrow> Splice h head rest Http)
                    | None \<Rightarrow> Dropped)
               | None \<Rightarrow> Dropped))"

text \<open>The stream handed to the acceptor: the bytes already read, then the rest of the socket.\<close>

fun poll_read :: "nat \<Rightarrow> bytes \<times> nat \<times> bytes list \<Rightarrow> bytes \<times> bytes \<times> nat \<times> bytes list" where
  "poll_read room (pre, pos, inner) =
     (if pos < length pre then
        let remaining = drop pos pre; n = min (length remaining) room
        in (take n remaining, pre, pos + n, inner)
      else case inner of
             [] \<Rightarrow> ([], pre, pos, [])
           | c # cs \<Rightarrow> (take room c, pre, pos, if length c \<le> room then cs else drop room c # cs))"

text \<open>The bytes a prefixed stream has still to deliver; a read hands out exactly the next of them.\<close>

definition prefixed_bytes :: "bytes \<times> nat \<times> bytes list \<Rightarrow> bytes" where
  "prefixed_bytes s = (case s of (pre, pos, inner) \<Rightarrow> drop pos pre @ concat inner)"

lemma poll_read_exact:
  "poll_read room s = (out, s') \<Longrightarrow> prefixed_bytes s = out @ prefixed_bytes s'"
proof (induction room s rule: poll_read.induct)
  case (1 room pre pos inner)
  then show ?case
    by (auto simp: prefixed_bytes_def Let_def drop_drop add.commute split: if_splits list.splits)
      (metis add.commute append_assoc append_take_drop_id drop_drop)+
qed

section \<open>Peeking loses nothing\<close>

lemma peek_http_conserves:
  "peek_http mx buf cs = PeekHost h b rest \<Longrightarrow> b @ concat rest = buf @ concat cs"
proof (induction cs arbitrary: buf)
  case (Cons c cs)
  then show ?case
    by (auto simp: Let_def split: if_splits option.splits)
qed simp

lemma peek_https_conserves:
  "peek_https cap buf cs = Some (n, b, rest) \<Longrightarrow> b @ concat rest = buf @ concat cs"
proof (induction cs arbitrary: buf)
  case (Cons c cs)
  then show ?case
    by (auto simp: Let_def split: if_splits Sni.Sni.splits)
qed simp

text \<open>However a hello is cut into chunks, the same name is found.\<close>

lemma sni_of_hello: "hello_ok h \<Longrightarrow> sni_of (hello_record minor h @ rest) = Found (ch_name h)"
  using parse_sni_hello [of h minor rest] by simp

lemma sni_of_hello_cut:
  assumes "hello_ok h" and "n < length (hello_record minor h)"
  shows "sni_of (take n (hello_record minor h)) = NeedMore"
proof -
  obtain hs where hs: "hs = CHR 0x01 # be_nat 3 (length (hello_body h)) @ hello_body h" by simp
  have r: "hello_record minor h = [CHR 0x16, CHR 0x03, minor] @ be16 (word_of_nat (length hs)) @ hs"
    by (simp add: hello_record_def Let_def hs)
  have "length hs < 65536" using assms(1) by (simp add: hs hello_ok_def)
  then have "length hs = unat (word_of_nat (length hs) :: u16)" by (simp only: unat_word_of_nat_16)
  then have "parse_sni (take n (hello_record minor h)) = Some NeedMore"
    using parse_sni_need_more [OF r] assms(2) by blast
  then show ?thesis by simp
qed

lemma peek_https_hello:
  assumes ok: "hello_ok h" and cap: "length (hello_record minor h) \<le> cap"
  shows "\<forall>c \<in> set cs. c \<noteq> [] \<Longrightarrow> buf @ concat cs = hello_record minor h @ tail \<Longrightarrow>
    length buf < length (hello_record minor h) \<Longrightarrow>
    \<exists>b rest. peek_https cap buf cs = Some (ch_name h, b, rest)"
proof (induction cs arbitrary: buf)
  case Nil
  then have "length buf = length (hello_record minor h @ tail)" by simp
  then show ?case using Nil by simp
next
  case (Cons c cs)
  let ?r = "hello_record minor h"
  have c: "c \<noteq> []" using Cons.prems(1) by simp
  have split: "(buf @ c) @ concat cs = ?r @ tail" using Cons.prems(2) by simp
  show ?case
  proof (cases "length (buf @ c) < length ?r")
    case True
    then have b: "buf @ c = take (length (buf @ c)) ?r"
      using split by (metis append_eq_append_conv_if less_imp_le take_append diff_is_0_eq' take0 append_Nil2)
    have "sni_of (buf @ c) = NeedMore"
      using sni_of_hello_cut [OF ok True] b by simp
    moreover have "length (buf @ c) < cap" using True cap by simp
    ultimately show ?thesis
      using Cons.IH [OF _ split True] Cons.prems(1) c by (simp add: Let_def)
  next
    case False
    then obtain t where "buf @ c = ?r @ t"
      using split by (metis append_eq_append_conv_if append_take_drop_id not_less)
    then have "sni_of (buf @ c) = Found (ch_name h)" using sni_of_hello [OF ok] by simp
    then show ?thesis using c by (simp add: Let_def)
  qed
qed

section \<open>Host names of tunnels\<close>

lemma list_all_lower: "list_all P l \<Longrightarrow> (\<And>c. P c \<Longrightarrow> Q (ascii_lower c)) \<Longrightarrow> list_all Q (to_ascii_lowercase l)"
  by (induction l) (auto simp: to_ascii_lowercase_def)

lemma subdomain_of_tunnel:
  assumes l: "plain_label label" and a: "apex \<noteq> []" "CHR '':'' \<notin> set apex"
      "\<not> ws_edge (last apex)" "last apex \<noteq> CHR ''.''"
    and p: "port = [] \<or> hd port = CHR '':''"
  shows "subdomain_of (label @ ''.'' @ apex @ port) = to_ascii_lowercase label"
    and "hostname_of (label @ ''.'' @ apex @ port) = to_ascii_lowercase (label @ ''.'' @ apex)"
proof -
  let ?h = "label @ ''.'' @ apex"
  have ne: "label \<noteq> []" and all: "list_all (\<lambda>c. is_ascii_alphanumeric c \<or> c = CHR ''-'') label"
    using l by (auto simp: plain_label_def)
  have ch: "c \<noteq> CHR '':''" "c \<noteq> CHR ''.''" "\<not> ws_edge c" if "c \<in> set label" for c
    using all that plain_char_not_special by (auto simp: list_all_iff)
  have colon: "hd (split_on CHR '':'' (label @ ''.'' @ apex @ port)) = ?h"
    using hd_split_port [of ?h port] ch(1) a(2) p by auto
  have "\<not> ws_edge (hd ?h)" using ne ch(3) by (cases label) auto
  then have t: "trim ?h = ?h" using a by (intro trim_id) auto
  have te: "trim_end_matches CHR ''.'' ?h = ?h" using a by (intro trim_end_matches_id) auto
  have "hd (split_on CHR ''.'' ?h) = label"
    using ch(2) by (auto simp: hd_split_on takeWhile_append2)
  then show "subdomain_of (label @ ''.'' @ apex @ port) = to_ascii_lowercase label"
    by (simp only: subdomain_of_def Let_def colon t te)
  show "hostname_of (label @ ''.'' @ apex @ port) = to_ascii_lowercase ?h"
    by (simp only: hostname_of_def colon t te)
qed

section \<open>Properties\<close>

text \<open>
  C10: TLS passthrough is byte-exact and independent of fragmentation. However the network cuts a
  well-formed ClientHello (of at most the buffering cap) into chunks, the connection is spliced to the
  https route of the name the client sent; and when the bytes read so far fit the replay field, the
  agent's preamble reader returns this route, the visitor's address and a replay which, followed by
  what is still to come, is exactly what the client sent.
\<close>

theorem https_passthrough_exact:
  assumes "hello_ok hello" and "length (hello_record minor hello) \<le> max (max_header_bytes cfg) 16384"
    and "concat chunks = hello_record minor hello @ tail" and "\<forall>c \<in> set chunks. c \<noteq> []"
    and "passthrough_handle st (hostname_of (ch_name hello)) (subdomain_of (ch_name hello)) = Some h"
    and "\<not> is_country_blocked st (h_tunnel_id h) (geo (sa_ip peer))"
  shows "\<exists>buf rest. serve_https cfg st wildcard acme has_cert show_ip peer chunks = Splice h buf rest Https
    \<and> buf @ concat rest = concat chunks
    \<and> (length buf \<le> MAX_REPLAY \<longrightarrow>
         (\<exists>preamble. r_sent (splice_to_route st geo show_ip peer buf h Https True relay) = Some (h_open_tx h, preamble)
            \<and> read_preamble (preamble @ concat rest) = Inr ((h_route_id h, Some peer, buf), concat rest)))"
proof -
  have "length [] < length (hello_record minor hello)" by (simp add: hello_record_def Let_def)
  then obtain buf rest where peek:
      "peek_https (max (max_header_bytes cfg) 16384) [] chunks = Some (ch_name hello, buf, rest)"
    using peek_https_hello [OF assms(1,2), of chunks "[]" tail] assms(3,4) by auto
  then have "serve_https cfg st wildcard acme has_cert show_ip peer chunks = Splice h buf rest Https"
    using assms(5) by (simp add: serve_https_def Let_def)
  moreover have "buf @ concat rest = concat chunks" using peek_https_conserves [OF peek] by simp
  moreover have "r_sent (splice_to_route st geo show_ip peer buf h Https True relay)
      = Some (h_open_tx h, encode_preamble (h_route_id h) (Some peer) buf)"
    using assms(6) by (simp add: splice_to_route_def Let_def split: relay_end.split)
  ultimately show ?thesis using read_preamble_encode by blast
qed

definition demo_hello_sni :: client_hello where
  "demo_hello_sni =
     \<lparr> ch_version = (CHR 0x03, CHR 0x03), ch_random = replicate 32 (CHR 0x00), ch_session = [],
       ch_ciphers = [CHR 0x00, CHR 0x2f], ch_compression = [CHR 0x00], ch_exts_before = [],
       ch_name = ''duck.natforge.com'', ch_exts_after = [] \<rparr>"

definition demo_route_handle :: RouteHandle where
  "demo_route_handle = \<lparr> h_tunnel_id = 42, h_owner_id = 7, h_route_id = 3, h_mode = Https, h_open_tx = 1 \<rparr>"

lemma demo_hello_sni_ok: "hello_ok demo_hello_sni" "length (hello_record (CHR 0x01) demo_hello_sni) \<le> 16384"
  by (simp_all add: demo_hello_sni_def hello_ok_def hello_record_def hello_body_def hello_exts_def
      enc_ext_def enc_sni_ext_def Let_def)

lemma demo_subdomain: "subdomain_of ''duck.natforge.com'' = ''duck''"
  using subdomain_of_tunnel(1) [of "''duck''" "''natforge.com''" "[]"]
  by (simp add: plain_label_def is_ascii_alphanumeric_def is_ascii_alphabetic_def is_ascii_upper_def
      is_ascii_lowercase_def is_ascii_digit_def ws_edge_def ws_seqs_def to_ascii_lowercase_def ascii_lower_def)

theorem https_passthrough_exact_witness:
  "\<exists>buf rest. serve_https (from_env (\<lambda>_. None)) (empty_state\<lparr>https_routes := [''duck'' \<mapsto> demo_route_handle]\<rparr>)
      (\<lambda>_. None) (\<lambda>_. None) (\<lambda>_. False) (\<lambda>_. ''1.2.3.4'') (SocketAddr (V4 0x01020304) 9)
      [take 7 (hello_record (CHR 0x01) demo_hello_sni), drop 7 (hello_record (CHR 0x01) demo_hello_sni)]
      = Splice demo_route_handle buf rest Https
    \<and> buf @ concat rest = hello_record (CHR 0x01) demo_hello_sni"
proof -
  let ?r = "hello_record (CHR 0x01) demo_hello_sni"
  let ?st = "empty_state\<lparr>https_routes := [''duck'' \<mapsto> demo_route_handle]\<rparr>"
  have len: "7 < length ?r"
    by (simp add: demo_hello_sni_def hello_record_def hello_body_def Let_def)
  have "\<exists>buf rest. serve_https (from_env (\<lambda>_. None)) ?st (\<lambda>_. None) (\<lambda>_. None) (\<lambda>_. False) (\<lambda>_. ''1.2.3.4'')
      (SocketAddr (V4 0x01020304) 9) [take 7 ?r, drop 7 ?r] = Splice demo_route_handle buf rest Https
    \<and> buf @ concat rest = concat [take 7 ?r, drop 7 ?r]
    \<and> (length buf \<le> MAX_REPLAY \<longrightarrow>
         (\<exists>preamble. r_sent (splice_to_route ?st (\<lambda>_. None) (\<lambda>_. ''1.2.3.4'') (SocketAddr (V4 0x01020304) 9) buf
              demo_route_handle Https True RelayErr) = Some (h_open_tx demo_route_handle, preamble)
            \<and> read_preamble (preamble @ concat rest)
              = Inr ((h_route_id demo_route_handle, Some (SocketAddr (V4 0x01020304) 9), buf), concat rest)))"
  proof (rule https_passthrough_exact [where hello = demo_hello_sni and minor = "CHR 0x01" and tail = "[]"])
    show "hello_ok demo_hello_sni" by (rule demo_hello_sni_ok)
    show "length ?r \<le> max (max_header_bytes (from_env (\<lambda>_. None))) 16384" using demo_hello_sni_ok(2) by simp
    show "concat [take 7 ?r, drop 7 ?r] = ?r @ []" by simp
    show "\<forall>c \<in> set [take 7 ?r, drop 7 ?r]. c \<noteq> []" using len by auto
    have "ch_name demo_hello_sni = ''duck.natforge.com''" by (simp add: demo_hello_sni_def)
    then show "passthrough_handle ?st (hostname_of (ch_name demo_hello_sni)) (subdomain_of (ch_name demo_hello_sni))
        = Some demo_route_handle"
      by (simp only: demo_subdomain) (simp add: passthrough_handle_def custom_host_route_def host_route_def empty_state_def)
    show "\<not> is_country_blocked ?st (h_tunnel_id demo_route_handle) ((\<lambda>_. None) (sa_ip (SocketAddr (V4 0x01020304) 9)))"
      by (simp add: is_country_blocked_def)
  qed
  then show ?thesis by auto
qed





section \<open>Where the code falls short\<close>

text \<open>The 404 and 403 answers announce one byte less than their body has.\<close>

lemma content_lengths:
  "NOT_FOUND = ''HTTP/1.1 404 Not Found'' @ CRLF @ ''Connection: close'' @ CRLF @ ''Content-Length: '' @ nat_str 18
     @ CRLF2 @ ''unknown tunnel host'' \<and> length ''unknown tunnel host'' = 19
   \<and> FORBIDDEN = ''HTTP/1.1 403 Forbidden'' @ CRLF @ ''Connection: close'' @ CRLF @ ''Content-Length: '' @ nat_str 16
     @ CRLF2 @ ''region is blocked'' \<and> length ''region is blocked'' = 17"
  by (simp add: NOT_FOUND_def FORBIDDEN_def)

text \<open>A Host line cut by the network routes by the part that has arrived.\<close>

lemma fragmented_host_misroutes:
  "peek_http 16384 [] [''GET / HTTP/1.1'' @ CRLF @ ''Host: duck'', ''y.natforge.com'' @ CRLF2]
     = PeekHost ''duck'' (''GET / HTTP/1.1'' @ CRLF @ ''Host: duck'') [''y.natforge.com'' @ CRLF2]
   \<and> peek_http 16384 [] [''GET / HTTP/1.1'' @ CRLF @ ''Host: ducky.natforge.com'' @ CRLF2]
     = PeekHost ''ducky.natforge.com'' (''GET / HTTP/1.1'' @ CRLF @ ''Host: ducky.natforge.com'' @ CRLF2) []"
  by code_simp

text \<open>A forwarded header hidden behind a bare line feed survives the rewriting.\<close>

lemma lf_forwarded_header_survives:
  "sublist ([CHR 0x0A] @ ''X-Forwarded-For: 6.6.6.6'')
     (rewrite_head (\<lambda>_. ''1.2.3.4'')
        (''GET / HTTP/1.1'' @ CRLF @ ''A: b'' @ [CHR 0x0A] @ ''X-Forwarded-For: 6.6.6.6'' @ CRLF2) (V4 0) ''a'' ''http'')"
  by code_simp

text \<open>A replay longer than the field is cut, although the comment says it always fits.\<close>

lemma long_replay_is_cut:
  assumes "MAX_REPLAY < length replay"
  shows "read_preamble (encode_preamble rid peer replay @ rest) = Inr ((rid, peer, take MAX_REPLAY replay), rest)"
proof -
  have "encode_preamble rid peer replay = encode_preamble rid peer (take MAX_REPLAY replay)"
    using assms by (simp add: encode_preamble_def Let_def)
  then show ?thesis using read_preamble_encode [of "take MAX_REPLAY replay" rid peer rest] by simp
qed

end
