(* ===== verification/Db.thy ===== *)
theory Db
  imports Proto
begin

text \<open>
  The control plane's database (\<^verbatim>\<open>natforge-backend/src/models.rs\<close> and the tables of its migrations) and
  the statements the query layer (\<^verbatim>\<open>db/queries.rs\<close>) is made of. A table is the list of its rows; a
  \<^verbatim>\<open>SELECT\<close> is a filter, an \<^verbatim>\<open>UPDATE\<close> a map, a constraint a check that gives the fault PostgreSQL
  reports. Integers are unbounded except where the code casts; time is a number of seconds and \<^verbatim>\<open>now\<close>
  an argument. A statement returns the fault or its result with the new database.
\<close>

section \<open>Rows\<close>

record User =
  u_id :: int
  u_email :: string
  u_name :: "string option"
  u_password_hash :: string
  u_role :: string
  u_banned :: bool
  u_max_tunnels :: int
  u_created_at :: int

record Device =
  d_id :: int
  d_owner_id :: int
  d_name :: string
  d_token_fp :: "string option"
  d_status :: string
  d_agent_ip :: "string option"
  d_last_seen :: "int option"
  d_created_at :: int

record Tunnel =
  t_id :: int
  t_subdomain :: string
  t_name :: "string option"
  t_owner_id :: int
  t_route_sig :: string
  t_status :: string
  t_public_host :: string
  t_node_id :: "string option"
  t_agent_ip :: "string option"
  t_created_at :: int
  t_last_seen :: "int option"
  t_custom_domain :: "string option"
  t_device_id :: "int option"
  t_last_active_at :: "int option"
  t_failover_from :: "string option"

record RouteRow =
  r_id :: int
  r_tunnel_id :: int
  r_route_id :: int
  r_kind :: string
  r_local_port :: int
  r_public_port :: "int option"
  r_label :: "string option"
  r_srv_service :: "string option"

record PoolRow =
  pp_node_id :: string
  pp_port :: int
  pp_tunnel_id :: "int option"
  pp_route_id :: "int option"

record NodeRow =
  n_node_id :: string
  n_name :: string
  n_region :: "string option"
  n_public_host :: string
  n_control_endpoint :: string
  n_internal_url :: string
  n_http_port :: int
  n_https_port :: int
  n_active :: bool
  n_control_cert_fp :: "string option"
  n_last_seen :: "int option"
  n_created_at :: int

record BandwidthRow =
  bw_tunnel_id :: int
  bw_owner_id :: int
  bw_bytes_in :: int
  bw_bytes_out :: int
  bw_recorded_at :: int

record LogRow =
  l_id :: int
  l_tunnel_id :: int
  l_owner_id :: int
  l_route_id :: int
  l_kind :: string
  l_peer_ip :: string
  l_country :: "string option"
  l_bytes_in :: int
  l_bytes_out :: int
  l_duration_ms :: int
  l_blocked :: bool

text \<open>Bandwidth rows are kept newest first, so the latest snapshot of a tunnel is the first of its rows.\<close>

record DB =
  users_t :: "User list"
  devices_t :: "Device list"
  tunnels_t :: "Tunnel list"
  routes_t :: "RouteRow list"
  pool_t :: "PoolRow list"
  nodes_t :: "NodeRow list"
  bandwidth_t :: "BandwidthRow list"
  logs_t :: "LogRow list"
  region_blocks_t :: "string list"
  tunnel_blocks_t :: "(int \<times> string) list"
  reserved_t :: "string list"
  next_id :: int

datatype fault = UniqueViolation string | ForeignKeyViolation | RowNotFound | InFailedTransaction

type_synonym 'a stmt = "DB \<Rightarrow> fault + ('a \<times> DB)"

text \<open>\<^verbatim>\<open>fetch_optional\<close>, and the value \<^verbatim>\<open>COALESCE\<close> picks.\<close>

definition fetch_optional :: "('a \<Rightarrow> bool) \<Rightarrow> 'a list \<Rightarrow> 'a option" where
  "fetch_optional P xs = find P xs"

definition coalesce :: "'a option \<Rightarrow> 'a \<Rightarrow> 'a" where
  "coalesce x dflt = (case x of Some v \<Rightarrow> v | None \<Rightarrow> dflt)"

lemma coalesce_simps [simp]: "coalesce (Some v) d = v" "coalesce None d = d"
  by (simp_all add: coalesce_def)

lemma fetch_optional_Some: "fetch_optional P xs = Some x \<Longrightarrow> x \<in> set xs \<and> P x"
  unfolding fetch_optional_def by (metis find_Some_iff nth_mem)

lemma fetch_optional_None: "fetch_optional P xs = None \<longleftrightarrow> (\<forall>x \<in> set xs. \<not> P x)"
  by (auto simp: fetch_optional_def find_None_iff)

lemma fetch_optional_append:
  "fetch_optional P (xs @ ys) = (case fetch_optional P xs of Some x \<Rightarrow> Some x | None \<Rightarrow> fetch_optional P ys)"
  by (induction xs) (simp_all add: fetch_optional_def)

text \<open>\<^verbatim>\<open>UPDATE .. WHERE\<close>, and its \<^verbatim>\<open>rows_affected\<close>.\<close>

definition update_where :: "('a \<Rightarrow> bool) \<Rightarrow> ('a \<Rightarrow> 'a) \<Rightarrow> 'a list \<Rightarrow> 'a list" where
  "update_where P f xs = map (\<lambda>x. if P x then f x else x) xs"

definition count_where :: "('a \<Rightarrow> bool) \<Rightarrow> 'a list \<Rightarrow> nat" where
  "count_where P xs = length (filter P xs)"

definition delete_where :: "('a \<Rightarrow> bool) \<Rightarrow> 'a list \<Rightarrow> 'a list" where
  "delete_where P xs = filter (\<lambda>x. \<not> P x) xs"

lemma in_update_where: "y \<in> set (update_where P f xs) \<longleftrightarrow> (\<exists>x \<in> set xs. y = (if P x then f x else x))"
  by (auto simp: update_where_def)

lemma map_update_where:
  "(\<And>x. g (f x) = g x) \<Longrightarrow> map g (update_where P f xs) = map g xs"
  by (simp add: update_where_def)

lemma in_delete_where [simp]: "x \<in> set (delete_where P xs) \<longleftrightarrow> x \<in> set xs \<and> \<not> P x"
  by (auto simp: delete_where_def)

lemma distinct_delete_where: "distinct (map f xs) \<Longrightarrow> distinct (map f (delete_where P xs))"
  by (simp add: delete_where_def distinct_map_filter)

section \<open>The port pool\<close>

text \<open>
  \<^verbatim>\<open>CLAIM_PORT_SQL\<close>: the lowest free port of the node that no concurrent transaction has locked,
  \<^verbatim>\<open>FOR UPDATE SKIP LOCKED\<close>; \<^verbatim>\<open>None\<close> when there is none.
\<close>

type_synonym locks = "(string \<times> int) list"

definition free_row :: "locks \<Rightarrow> string \<Rightarrow> PoolRow \<Rightarrow> bool" where
  "free_row locked node row \<longleftrightarrow>
     pp_node_id row = node \<and> pp_tunnel_id row = None \<and> (pp_node_id row, pp_port row) \<notin> set locked"

definition claim_port :: "locks \<Rightarrow> string \<Rightarrow> int \<Rightarrow> int \<Rightarrow> DB \<Rightarrow> int option \<times> DB" where
  "claim_port locked node tid rid db =
     (case sort (map pp_port (filter (free_row locked node) (pool_t db))) of
        [] \<Rightarrow> (None, db)
      | port # _ \<Rightarrow>
          (Some port,
           db\<lparr>pool_t := update_where (\<lambda>row. pp_node_id row = node \<and> pp_port row = port)
                  (\<lambda>row. row\<lparr>pp_tunnel_id := Some tid, pp_route_id := Some rid\<rparr>) (pool_t db)\<rparr>))"

definition free_tunnel_ports :: "int \<Rightarrow> DB \<Rightarrow> DB" where
  "free_tunnel_ports tid db =
     db\<lparr>pool_t := update_where (\<lambda>row. pp_tunnel_id row = Some tid)
            (\<lambda>row. row\<lparr>pp_tunnel_id := None, pp_route_id := None\<rparr>) (pool_t db)\<rparr>"

definition free_route_port :: "int \<Rightarrow> int \<Rightarrow> DB \<Rightarrow> DB" where
  "free_route_port tid rid db =
     db\<lparr>pool_t := update_where (\<lambda>row. pp_tunnel_id row = Some tid \<and> pp_route_id row = Some rid)
            (\<lambda>row. row\<lparr>pp_tunnel_id := None, pp_route_id := None\<rparr>) (pool_t db)\<rparr>"

lemma claim_port_Some:
  assumes "claim_port locked node tid rid db = (Some p, db')"
  shows "\<exists>row \<in> set (pool_t db). free_row locked node row \<and> pp_port row = p"
    and "db' = db\<lparr>pool_t := update_where (\<lambda>row. pp_node_id row = node \<and> pp_port row = p)
                  (\<lambda>row. row\<lparr>pp_tunnel_id := Some tid, pp_route_id := Some rid\<rparr>) (pool_t db)\<rparr>"
    and "\<And>row. row \<in> set (pool_t db) \<Longrightarrow> free_row locked node row \<Longrightarrow> p \<le> pp_port row"
proof -
  let ?ps = "map pp_port (filter (free_row locked node) (pool_t db))"
  obtain ps where s: "sort ?ps = p # ps"
    and db': "db' = db\<lparr>pool_t := update_where (\<lambda>row. pp_node_id row = node \<and> pp_port row = p)
                  (\<lambda>row. row\<lparr>pp_tunnel_id := Some tid, pp_route_id := Some rid\<rparr>) (pool_t db)\<rparr>"
    using assms by (auto simp: claim_port_def split: list.splits)
  have "p \<in> set (sort ?ps)" by (simp only: s) simp
  then show "\<exists>row \<in> set (pool_t db). free_row locked node row \<and> pp_port row = p" by auto
  show "db' = db\<lparr>pool_t := update_where (\<lambda>row. pp_node_id row = node \<and> pp_port row = p)
                  (\<lambda>row. row\<lparr>pp_tunnel_id := Some tid, pp_route_id := Some rid\<rparr>) (pool_t db)\<rparr>"
    by (rule db')
  fix row assume "row \<in> set (pool_t db)" "free_row locked node row"
  then have "pp_port row \<in> set (sort ?ps)" by auto
  moreover have "sorted (p # ps)" using sorted_sort [of ?ps] by (simp only: s)
  ultimately show "p \<le> pp_port row" by (auto simp: s)
qed

lemma claim_port_None:
  "claim_port locked node tid rid db = (None, db') \<longleftrightarrow>
     db' = db \<and> (\<forall>row \<in> set (pool_t db). \<not> free_row locked node row)"
proof (cases "sort (map pp_port (filter (free_row locked node) (pool_t db)))")
  case Nil
  then have "set (map pp_port (filter (free_row locked node) (pool_t db))) = {}"
    by (metis set_sort list.set(1))
  then show ?thesis using Nil by (auto simp: claim_port_def filter_empty_conv)
next
  case (Cons p ps)
  then have "p \<in> set (map pp_port (filter (free_row locked node) (pool_t db)))"
    by (metis set_sort list.set_intros(1))
  then show ?thesis using Cons by (auto simp: claim_port_def)
qed

section \<open>Inserts under constraints\<close>

definition host_kind :: "string \<Rightarrow> bool" where
  "host_kind k \<longleftrightarrow> k = ''http'' \<or> k = ''https''"

definition insert_route ::
    "int \<Rightarrow> int \<Rightarrow> string \<Rightarrow> int \<Rightarrow> int option \<Rightarrow> string option \<Rightarrow> unit stmt" where
  "insert_route tid rid kind lp pp label db =
     (if \<exists>r \<in> set (routes_t db). r_tunnel_id r = tid \<and> r_route_id r = rid
      then Inl (UniqueViolation ''routes_tunnel_id_route_id_key'')
      else if host_kind kind \<and> (\<exists>r \<in> set (routes_t db). r_tunnel_id r = tid \<and> r_kind r = kind)
      then Inl (UniqueViolation ''routes_one_host_kind'')
      else if \<forall>t \<in> set (tunnels_t db). t_id t \<noteq> tid then Inl ForeignKeyViolation
      else Inr ((), db\<lparr>routes_t := routes_t db @
             [\<lparr> r_id = next_id db, r_tunnel_id = tid, r_route_id = rid, r_kind = kind, r_local_port = lp,
                r_public_port = pp, r_label = label, r_srv_service = None \<rparr>],
             next_id := next_id db + 1\<rparr>))"

definition insert_tunnel ::
    "int \<Rightarrow> string \<Rightarrow> int \<Rightarrow> string \<Rightarrow> string \<Rightarrow> string \<Rightarrow> int option \<Rightarrow> int stmt" where
  "insert_tunnel now cand owner sig host node device db =
     (if \<exists>t \<in> set (tunnels_t db). t_subdomain t = cand
      then Inl (UniqueViolation ''tunnels_subdomain_uq'')
      else if sig \<noteq> [] \<and> (\<exists>t \<in> set (tunnels_t db). t_owner_id t = owner \<and> t_route_sig t = sig
                \<and> coalesce (t_device_id t) 0 = coalesce device 0)
      then Inl (UniqueViolation ''tunnels_owner_device_route_uq'')
      else if (\<forall>u \<in> set (users_t db). u_id u \<noteq> owner)
           \<or> (case device of Some d \<Rightarrow> \<forall>v \<in> set (devices_t db). d_id v \<noteq> d | None \<Rightarrow> False)
      then Inl ForeignKeyViolation
      else Inr (next_id db, db\<lparr>tunnels_t := tunnels_t db @
             [\<lparr> t_id = next_id db, t_subdomain = cand, t_name = None, t_owner_id = owner, t_route_sig = sig,
                t_status = ''awaiting_agent'', t_public_host = host, t_node_id = Some node, t_agent_ip = None,
                t_created_at = now, t_last_seen = None, t_custom_domain = None, t_device_id = device,
                t_last_active_at = None, t_failover_from = None \<rparr>],
             next_id := next_id db + 1\<rparr>))"

text \<open>\<^verbatim>\<open>SELECT .. FROM routes WHERE tunnel_id = $1 ORDER BY route_id\<close>.\<close>

definition routes_for_tunnel :: "DB \<Rightarrow> int \<Rightarrow> RouteRow list" where
  "routes_for_tunnel db tid = sort_key r_route_id (filter (\<lambda>r. r_tunnel_id r = tid) (routes_t db))"

lemma set_routes_for_tunnel [simp]:
  "set (routes_for_tunnel db tid) = {r \<in> set (routes_t db). r_tunnel_id r = tid}"
  by (simp add: routes_for_tunnel_def)

text \<open>
  Deleting tunnels cascades to their routes, logs and block lists; \<^verbatim>\<open>ON DELETE SET NULL\<close> frees the pool
  rows that still name them.
\<close>

definition cascade_tunnels :: "(int \<Rightarrow> bool) \<Rightarrow> DB \<Rightarrow> DB" where
  "cascade_tunnels D db =
     db\<lparr>tunnels_t := delete_where (\<lambda>t. D (t_id t)) (tunnels_t db),
        routes_t := delete_where (\<lambda>r. D (r_tunnel_id r)) (routes_t db),
        bandwidth_t := delete_where (\<lambda>b. D (bw_tunnel_id b)) (bandwidth_t db),
        logs_t := delete_where (\<lambda>l. D (l_tunnel_id l)) (logs_t db),
        tunnel_blocks_t := delete_where (\<lambda>b. D (fst b)) (tunnel_blocks_t db),
        pool_t := update_where (\<lambda>row. case pp_tunnel_id row of Some t \<Rightarrow> D t | None \<Rightarrow> False)
                    (\<lambda>row. row\<lparr>pp_tunnel_id := None\<rparr>) (pool_t db)\<rparr>"

section \<open>What a consistent database is\<close>

definition ids_ok :: "DB \<Rightarrow> bool" where
  "ids_ok db \<longleftrightarrow>
     distinct (map t_id (tunnels_t db)) \<and> (\<forall>t \<in> set (tunnels_t db). t_id t < next_id db)
     \<and> distinct (map t_subdomain (tunnels_t db))
     \<and> distinct (map (\<lambda>r. (r_tunnel_id r, r_route_id r)) (routes_t db))
     \<and> (\<forall>r \<in> set (routes_t db). \<exists>t \<in> set (tunnels_t db). t_id t = r_tunnel_id r)
     \<and> distinct (map (\<lambda>row. (pp_node_id row, pp_port row)) (pool_t db))"

text \<open>A pool row is held for a route.\<close>

definition held :: "DB \<Rightarrow> string \<Rightarrow> int \<Rightarrow> int \<Rightarrow> int \<Rightarrow> bool" where
  "held db node port tid rid \<longleftrightarrow>
     (\<exists>row \<in> set (pool_t db). pp_node_id row = node \<and> pp_port row = port
        \<and> pp_tunnel_id row = Some tid \<and> pp_route_id row = Some rid)"

text \<open>Every public port a route advertises is held for that route on its tunnel's node.\<close>

definition ports_ok :: "DB \<Rightarrow> bool" where
  "ports_ok db \<longleftrightarrow>
     (\<forall>r \<in> set (routes_t db). \<forall>p t node. r_public_port r = Some p \<longrightarrow> t \<in> set (tunnels_t db) \<longrightarrow>
        t_id t = r_tunnel_id r \<longrightarrow> t_node_id t = Some node \<longrightarrow> held db node p (r_tunnel_id r) (r_route_id r))"

definition db_ok :: "DB \<Rightarrow> bool" where
  "db_ok db \<longleftrightarrow> ids_ok db \<and> ports_ok db"

lemma held_unique:
  assumes "distinct (map (\<lambda>row. (pp_node_id row, pp_port row)) (pool_t db))"
    and "held db node p t1 r1" "held db node p t2 r2"
  shows "t1 = t2 \<and> r1 = r2"
proof -
  from assms(2,3) obtain a b where
    a: "a \<in> set (pool_t db)" "pp_node_id a = node" "pp_port a = p" "pp_tunnel_id a = Some t1" "pp_route_id a = Some r1"
    and b: "b \<in> set (pool_t db)" "pp_node_id b = node" "pp_port b = p" "pp_tunnel_id b = Some t2" "pp_route_id b = Some r2"
    by (auto simp: held_def)
  have "inj_on (\<lambda>row. (pp_node_id row, pp_port row)) (set (pool_t db))"
    using assms(1) by (simp add: distinct_map)
  then have "a = b" using a b by (auto dest: inj_onD)
  then show ?thesis using a b by simp
qed

text \<open>In a consistent database no public port of a node is advertised by two routes.\<close>

lemma ports_exclusive:
  assumes "db_ok db" and r: "r \<in> set (routes_t db)" "r' \<in> set (routes_t db)"
    and p: "r_public_port r = Some p" "r_public_port r' = Some p"
    and t: "t \<in> set (tunnels_t db)" "t_id t = r_tunnel_id r" "t_node_id t = Some node"
    and t': "t' \<in> set (tunnels_t db)" "t_id t' = r_tunnel_id r'" "t_node_id t' = Some node"
  shows "r = r'"
proof -
  have "held db node p (r_tunnel_id r) (r_route_id r)" "held db node p (r_tunnel_id r') (r_route_id r')"
    using assms by (auto simp: db_ok_def ports_ok_def)
  then have "r_tunnel_id r = r_tunnel_id r'" "r_route_id r = r_route_id r'"
    using held_unique assms(1) by (auto simp: db_ok_def ids_ok_def)
  moreover have "inj_on (\<lambda>r. (r_tunnel_id r, r_route_id r)) (set (routes_t db))"
    using assms(1) by (simp add: db_ok_def ids_ok_def distinct_map)
  ultimately show ?thesis using r by (auto dest: inj_onD)
qed

end
