(* ===== verification/Reserve.thy ===== *)
theory Reserve
  imports Db
begin

text \<open>
  Reservation and everything that moves ports (\<^verbatim>\<open>db/queries.rs\<close>): the subdomain rules, the route
  signature, \<^verbatim>\<open>reserve_tunnel\<close>, \<^verbatim>\<open>set_service_routes\<close>, \<^verbatim>\<open>migrate_tunnel\<close> and the failover sweep. Each
  function is one transaction: an error is a rollback, so it returns the error alone.

  Parameters: \<^verbatim>\<open>lower\<close> is \<^verbatim>\<open>str::to_lowercase\<close>, \<^verbatim>\<open>locked\<close> the pool rows other transactions hold,
  \<^verbatim>\<open>draws\<close> the random numbers.
\<close>

section \<open>Names and signatures\<close>

definition sub_alnum :: "char \<Rightarrow> bool" where
  "sub_alnum c \<longleftrightarrow> is_ascii_lowercase c \<or> is_ascii_digit c"

definition valid_subdomain :: "string \<Rightarrow> bool" where
  "valid_subdomain s \<longleftrightarrow>
     (let n = length s in
      if \<not> (3 \<le> n \<and> n \<le> 30) then False
      else if \<not> sub_alnum (s ! 0) \<or> \<not> sub_alnum (s ! (n - 1)) then False
      else list_all (\<lambda>c. sub_alnum c \<or> c = CHR ''-'') s)"

definition WORDS :: "string list" where
  "WORDS = [''duck'', ''fox'', ''wolf'', ''owl'', ''lynx'', ''hawk'', ''puma'', ''crow'', ''newt'',
            ''bear'', ''elk'', ''ibis'']"

definition SUFFIX_CHARS :: string where
  "SUFFIX_CHARS = ''abcdefghijklmnopqrstuvwxyz0123456789''"

text \<open>One draw: the index of the word, and the four indices of the suffix characters.\<close>

definition random_subdomain :: "nat \<times> nat \<times> nat \<times> nat \<times> nat \<Rightarrow> string" where
  "random_subdomain d =
     (case d of (w, a, b, c, e) \<Rightarrow>
        WORDS ! (w mod length WORDS) @ ''-''
        @ map (\<lambda>i. SUFFIX_CHARS ! (i mod 36)) [a, b, c, e])"

definition route_part :: "RouteMode \<times> u16 \<Rightarrow> string" where
  "route_part r = as_str (fst r) @ '':'' @ nat_str (unat (snd r))"

definition route_signature :: "(RouteMode \<times> u16) list \<Rightarrow> string" where
  "route_signature routes = join '','' (sort (map route_part routes))"

lemma route_part_inj: "route_part x = route_part y \<longleftrightarrow> x = y"
proof
  assume eq: "route_part x = route_part y"
  have free: "CHR '':'' \<notin> set (as_str (fst z))" for z :: "RouteMode \<times> u16" by (rule as_str_free)
  have "split_on CHR '':'' (route_part z) = [as_str (fst z), nat_str (unat (snd z))]" for z
    using split_on_append [OF free [of z], of "nat_str (unat (snd z))"]
      split_on_free [of "CHR '':''" "nat_str (unat (snd z))"] nat_str_free
    by (simp add: route_part_def)
  then have "as_str (fst x) = as_str (fst y) \<and> nat_str (unat (snd x)) = nat_str (unat (snd y))"
    using eq by (metis list.inject)
  then show "x = y" by (simp add: prod_eq_iff word_unat_eq_iff)
qed simp

lemma route_part_free: "CHR '','' \<notin> set (route_part r)"
  using as_str_free(2) [of "fst r"] nat_str_free by (auto simp: route_part_def)

lemma route_part_nonempty [simp]: "route_part r \<noteq> []"
  by (simp add: route_part_def)

lemma join_Nil_iff: "\<forall>p \<in> set ps. c \<notin> set p \<and> p \<noteq> [] \<Longrightarrow> join [c] ps = [] \<longleftrightarrow> ps = []"
  by (cases "([c], ps)" rule: join.cases) auto

lemma join_inj:
  assumes "\<forall>p \<in> set ps. c \<notin> set p \<and> p \<noteq> []" "\<forall>p \<in> set qs. c \<notin> set p \<and> p \<noteq> []"
    and "join [c] ps = join [c] qs"
  shows "ps = qs"
proof (cases "ps = [] \<or> qs = []")
  case True
  then show ?thesis
    using assms join_Nil_iff [of ps c] join_Nil_iff [of qs c] by (metis join.simps(1))
next
  case False
  then have "split_on c (join [c] ps) = ps"
    by (intro split_on_join) (use assms(1) in blast)+
  moreover have "split_on c (join [c] qs) = qs"
    using False by (intro split_on_join) (use assms(2) in blast)+
  ultimately show ?thesis using assms(3) by metis
qed

lemma route_signature_eq_iff: "route_signature xs = route_signature ys \<longleftrightarrow> mset xs = mset ys"
proof
  assume "route_signature xs = route_signature ys"
  then have "sort (map route_part xs) = sort (map route_part ys)"
    unfolding route_signature_def by (intro join_inj [of _ "CHR '',''"]) (auto simp: route_part_free)
  then have "mset (map route_part xs) = mset (map route_part ys)" by (metis mset_sort)
  then have "image_mset route_part (mset xs) = image_mset route_part (mset ys)" by simp
  moreover have "inj route_part" by (rule injI) (simp add: route_part_inj)
  ultimately show "mset xs = mset ys" by (meson injD multiset.inj_map)
next
  assume "mset xs = mset ys"
  then have "mset (map route_part xs) = mset (map route_part ys)" by simp
  then show "route_signature xs = route_signature ys"
    unfolding route_signature_def using properties_for_sort [of "sort (map route_part ys)" "map route_part xs"]
    by simp
qed

lemma route_signature_Nil_iff [simp]: "route_signature xs = [] \<longleftrightarrow> xs = []"
  using route_signature_eq_iff [of xs "[]"] by (simp add: route_signature_def)

section \<open>Reservation\<close>

type_synonym request = "RouteMode \<times> u16 \<times> string option"

record ReservedTunnel =
  rt_tunnel_id :: int
  rt_subdomain :: string
  rt_node_id :: string
  rt_public_host :: string
  rt_routes :: "RouteRow list"
  rt_custom_domain :: "string option"
  rt_reused :: bool

datatype ReserveError =
    LimitReached int
  | PortExhausted
  | BadSubdomain
  | SubdomainTaken string
  | RouteSetExists string
  | DbFault fault
  | NoFreeSubdomain

definition to_i16 :: "int \<Rightarrow> int" where
  "to_i16 i = (i + 32768) mod 65536 - 32768"

lemma to_i16_id [simp]: "- 32768 \<le> i \<Longrightarrow> i < 32768 \<Longrightarrow> to_i16 i = i"
  by (simp add: to_i16_def)

definition pairs :: "request list \<Rightarrow> (RouteMode \<times> u16) list" where
  "pairs requested = map (\<lambda>(m, p, _). (m, p)) requested"

definition clean_label :: "string option \<Rightarrow> string option" where
  "clean_label label =
     (case label of Some s \<Rightarrow> if trim s \<noteq> [] then Some (trim s) else None | None \<Rightarrow> None)"

definition port_for ::
    "locks \<Rightarrow> string \<Rightarrow> int \<Rightarrow> int \<Rightarrow> RouteMode \<Rightarrow> DB \<Rightarrow> ReserveError + int option \<times> DB" where
  "port_for locked node tid rid mode db =
     (if is_host_routed mode then Inr (None, db)
      else case claim_port locked node tid rid db of
             (Some p, db) \<Rightarrow> Inr (Some p, db)
           | (None, _) \<Rightarrow> Inl PortExhausted)"

definition lift_db :: "fault + 'a \<Rightarrow> ReserveError + 'a" where
  "lift_db r = (case r of Inl f \<Rightarrow> Inl (DbFault f) | Inr a \<Rightarrow> Inr a)"

lemma lift_db_simps [simp]: "lift_db (Inl f) = Inl (DbFault f)" "lift_db (Inr a) = Inr a"
  by (simp_all add: lift_db_def)

lemma lift_db_Inr_iff [simp]: "lift_db r = Inr a \<longleftrightarrow> r = Inr a"
  by (cases r) auto

definition new_route :: "locks \<Rightarrow> string \<Rightarrow> int \<Rightarrow> int \<Rightarrow> request \<Rightarrow> DB \<Rightarrow> ReserveError + int option \<times> DB" where
  "new_route locked node tid rid req db =
     (case req of (mode, lp, label) \<Rightarrow>
        and_then (port_for locked node tid rid mode db) (\<lambda>(pp, db).
        and_then (lift_db (insert_route tid rid (as_str mode) (int (unat lp)) pp (clean_label label) db))
          (\<lambda>(_, db). Inr (pp, db))))"

fun reserve_routes ::
    "locks \<Rightarrow> string \<Rightarrow> int \<Rightarrow> int \<Rightarrow> request list \<Rightarrow> DB \<Rightarrow> ReserveError + RouteRow list \<times> DB" where
  "reserve_routes locked node tid i [] db = Inr ([], db)"
| "reserve_routes locked node tid i (req # reqs) db =
     (let rid = to_i16 (to_i16 i + 1) in
      and_then (new_route locked node tid rid req db) (\<lambda>(pp, db).
      and_then (reserve_routes locked node tid (i + 1) reqs db) (\<lambda>(out, db).
        Inr (\<lparr> r_id = 0, r_tunnel_id = tid, r_route_id = rid, r_kind = as_str (fst req),
               r_local_port = int (unat (fst (snd req))), r_public_port = pp,
               r_label = clean_label (snd (snd req)), r_srv_service = None \<rparr> # out, db))))"

text \<open>
  The retry loop over random names. After a violated constraint PostgreSQL refuses every further
  statement of the transaction (\<^verbatim>\<open>None\<close>).
\<close>

fun pick_random ::
    "int \<Rightarrow> int \<Rightarrow> string \<Rightarrow> string \<Rightarrow> string \<Rightarrow> int option \<Rightarrow> string list \<Rightarrow> DB option
     \<Rightarrow> ReserveError + int \<times> string \<times> DB" where
  "pick_random now owner sig host node device [] tx = Inl NoFreeSubdomain"
| "pick_random now owner sig host node device (cand # cs) None = Inl (DbFault InFailedTransaction)"
| "pick_random now owner sig host node device (cand # cs) (Some db) =
     (if cand \<in> set (reserved_t db) then pick_random now owner sig host node device cs (Some db)
      else case insert_tunnel now cand owner sig host node device db of
             Inr (tid, db) \<Rightarrow> Inr (tid, cand, db)
           | Inl e \<Rightarrow>
               if e = UniqueViolation ''tunnels_subdomain_uq''
               then pick_random now owner sig host node device cs None
               else Inl (DbFault e))"

definition pick_custom ::
    "(string \<Rightarrow> string) \<Rightarrow> int \<Rightarrow> int \<Rightarrow> string \<Rightarrow> string \<Rightarrow> string \<Rightarrow> int option \<Rightarrow> string \<Rightarrow> DB
     \<Rightarrow> ReserveError + int \<times> string \<times> DB" where
  "pick_custom lower now owner sig host node device custom db =
     (let cand = lower (trim custom) in
      if \<not> valid_subdomain cand then Inl BadSubdomain
      else if cand \<in> set (reserved_t db) then Inl (SubdomainTaken cand)
      else case insert_tunnel now cand owner sig host node device db of
             Inr (tid, db) \<Rightarrow> Inr (tid, cand, db)
           | Inl e \<Rightarrow>
               if e = UniqueViolation ''tunnels_subdomain_uq'' then Inl (SubdomainTaken cand)
               else Inl (DbFault e))"

definition same_set :: "int \<Rightarrow> string \<Rightarrow> int option \<Rightarrow> Tunnel \<Rightarrow> bool" where
  "same_set owner sig device t \<longleftrightarrow>
     t_owner_id t = owner \<and> t_route_sig t = sig \<and> coalesce (t_device_id t) 0 = coalesce device 0"

definition reserve_tunnel ::
    "(string \<Rightarrow> string) \<Rightarrow> locks \<Rightarrow> (nat \<times> nat \<times> nat \<times> nat \<times> nat) list \<Rightarrow> int \<Rightarrow> int \<Rightarrow> string \<Rightarrow> string
     \<Rightarrow> request list \<Rightarrow> string option \<Rightarrow> int \<Rightarrow> bool \<Rightarrow> int option \<Rightarrow> DB
     \<Rightarrow> ReserveError + ReservedTunnel \<times> DB" where
  "reserve_tunnel lower locked draws now owner node host requested custom max_tunnels allow_reuse device db =
     (let sig = route_signature (pairs requested) in
      case fetch_optional (same_set owner sig device) (tunnels_t db) of
        Some ex \<Rightarrow>
          if \<not> allow_reuse then Inl (RouteSetExists (t_subdomain ex))
          else Inr (\<lparr> rt_tunnel_id = t_id ex, rt_subdomain = t_subdomain ex,
                      rt_node_id = coalesce (t_node_id ex) node, rt_public_host = t_public_host ex,
                      rt_routes = routes_for_tunnel db (t_id ex), rt_custom_domain = t_custom_domain ex,
                      rt_reused = True \<rparr>, db)
      | None \<Rightarrow>
          if max_tunnels \<le> int (count_where (\<lambda>t. t_owner_id t = owner) (tunnels_t db))
          then Inl (LimitReached max_tunnels)
          else
            and_then
              (case custom of
                 Some c \<Rightarrow> pick_custom lower now owner sig host node device c db
               | None \<Rightarrow>
                   pick_random now owner sig host node device (map random_subdomain (take 10 draws)) (Some db))
              (\<lambda>(tid, sub, db).
            and_then (reserve_routes locked node tid 0 requested db) (\<lambda>(out, db).
              Inr (\<lparr> rt_tunnel_id = tid, rt_subdomain = sub, rt_node_id = node, rt_public_host = host,
                     rt_routes = out, rt_custom_domain = None, rt_reused = False \<rparr>, db))))"

section \<open>Editing the routes of a service\<close>

definition wanted :: "request list \<Rightarrow> RouteRow \<Rightarrow> bool" where
  "wanted requested r \<longleftrightarrow>
     (\<exists>(m, p, _) \<in> set requested. as_str m = r_kind r \<and> int (unat p) = r_local_port r)"

fun drop_unwanted :: "int \<Rightarrow> request list \<Rightarrow> RouteRow list \<Rightarrow> DB \<Rightarrow> DB" where
  "drop_unwanted tid requested [] db = db"
| "drop_unwanted tid requested (r # rs) db =
     drop_unwanted tid requested rs
       (if wanted requested r then db
        else (let db = free_route_port tid (r_route_id r) db
              in db\<lparr>routes_t := delete_where (\<lambda>x. r_tunnel_id x = tid \<and> r_route_id x = r_route_id r) (routes_t db)\<rparr>))"

fun max_route_id :: "int option \<Rightarrow> RouteRow list \<Rightarrow> int option" where
  "max_route_id m [] = m"
| "max_route_id m (r # rs) =
     max_route_id (case m of Some k \<Rightarrow> if k < r_route_id r then Some (r_route_id r) else Some k
                           | None \<Rightarrow> Some (r_route_id r)) rs"

definition already :: "RouteRow list \<Rightarrow> request \<Rightarrow> bool" where
  "already existing req \<longleftrightarrow>
     (\<exists>r \<in> set existing. r_kind r = as_str (fst req) \<and> r_local_port r = int (unat (fst (snd req))))"

fun add_missing ::
    "locks \<Rightarrow> string \<Rightarrow> int \<Rightarrow> RouteRow list \<Rightarrow> int \<Rightarrow> request list \<Rightarrow> DB \<Rightarrow> ReserveError + DB" where
  "add_missing locked node tid existing nid [] db = Inr db"
| "add_missing locked node tid existing nid (req # reqs) db =
     (if already existing req then add_missing locked node tid existing nid reqs db
      else
        let nid = to_i16 (nid + 1) in
        and_then (new_route locked node tid nid req db) (\<lambda>(_, db).
          add_missing locked node tid existing nid reqs db))"

definition set_route_sig :: "int \<Rightarrow> string \<Rightarrow> DB \<Rightarrow> fault + DB" where
  "set_route_sig tid sig db =
     (if sig \<noteq> [] \<and> (\<exists>t \<in> set (tunnels_t db). t_id t = tid \<and>
           (\<exists>t' \<in> set (tunnels_t db). t_id t' \<noteq> tid \<and> same_set (t_owner_id t) sig (t_device_id t) t'))
      then Inl (UniqueViolation ''tunnels_owner_device_route_uq'')
      else Inr (db\<lparr>tunnels_t := update_where (\<lambda>t. t_id t = tid) (\<lambda>t. t\<lparr>t_route_sig := sig\<rparr>) (tunnels_t db)\<rparr>))"

definition set_service_routes ::
    "locks \<Rightarrow> int \<Rightarrow> string \<Rightarrow> request list \<Rightarrow> DB \<Rightarrow> ReserveError + RouteRow list \<times> DB" where
  "set_service_routes locked tid node requested db =
     (let existing = routes_for_tunnel db tid;
          db = drop_unwanted tid requested existing db;
          nid = coalesce (max_route_id None existing) 0;
          sig = route_signature (pairs requested)
      in and_then (add_missing locked node tid existing nid requested db) (\<lambda>db.
         and_then (case set_route_sig tid sig db of
                     Inl e \<Rightarrow> Inl (if e = UniqueViolation ''tunnels_owner_device_route_uq''
                                   then RouteSetExists sig else DbFault e)
                   | Inr db \<Rightarrow> Inr db) (\<lambda>db.
           Inr (routes_for_tunnel db tid, db))))"

section \<open>Moving a tunnel\<close>

fun migrate_routes :: "locks \<Rightarrow> string \<Rightarrow> int \<Rightarrow> RouteRow list \<Rightarrow> DB \<Rightarrow> ReserveError + DB" where
  "migrate_routes locked target tid [] db = Inr db"
| "migrate_routes locked target tid (r # rs) db =
     (if r_kind r \<noteq> ''tcp'' \<and> r_kind r \<noteq> ''udp'' then migrate_routes locked target tid rs db
      else case claim_port locked target tid (r_route_id r) db of
             (None, _) \<Rightarrow> Inl PortExhausted
           | (Some p, db) \<Rightarrow>
               migrate_routes locked target tid rs
                 (db\<lparr>routes_t := update_where (\<lambda>x. r_tunnel_id x = tid \<and> r_route_id x = r_route_id r)
                       (\<lambda>x. x\<lparr>r_public_port := Some p\<rparr>) (routes_t db)\<rparr>))"

definition move_tunnel :: "int \<Rightarrow> string \<Rightarrow> string \<Rightarrow> DB \<Rightarrow> DB" where
  "move_tunnel tid target host db =
     db\<lparr>tunnels_t := update_where (\<lambda>t. t_id t = tid)
          (\<lambda>t. t\<lparr>t_node_id := Some target, t_public_host := host, t_failover_from := None,
                 t_custom_domain := None\<rparr>) (tunnels_t db)\<rparr>"

definition migrate_tunnel :: "locks \<Rightarrow> int \<Rightarrow> string \<Rightarrow> string \<Rightarrow> DB \<Rightarrow> ReserveError + DB" where
  "migrate_tunnel locked tid target host db =
     and_then (migrate_routes locked target tid (routes_for_tunnel db tid) (free_tunnel_ports tid db))
       (\<lambda>db. Inr (move_tunnel tid target host db))"

text \<open>The failover sweep; \<^verbatim>\<open>stale\<close> is the window in seconds.\<close>

definition node_stale :: "int \<Rightarrow> int \<Rightarrow> NodeRow \<Rightarrow> bool" where
  "node_stale now stale n \<longleftrightarrow>
     n_active n \<and> (case n_last_seen n of None \<Rightarrow> True | Some s \<Rightarrow> s < now - stale)"

definition node_healthy :: "int \<Rightarrow> int \<Rightarrow> NodeRow \<Rightarrow> bool" where
  "node_healthy now stale n \<longleftrightarrow>
     n_active n \<and> (case n_last_seen n of None \<Rightarrow> False | Some s \<Rightarrow> now - stale \<le> s)"

definition region_label :: "NodeRow \<Rightarrow> string" where
  "region_label n = (case n_region n of Some r \<Rightarrow> r | None \<Rightarrow> n_name n)"

fun failover_each ::
    "locks \<Rightarrow> (string \<times> string) list \<Rightarrow> string \<Rightarrow> string \<Rightarrow> (int \<times> string \<times> string) list \<Rightarrow> DB
     \<Rightarrow> (string \<times> string \<times> string) list \<times> DB" where
  "failover_each locked dead target host [] db = ([], db)"
| "failover_each locked dead target host ((tid, sub, from) # ps) db =
     (if from = target then failover_each locked dead target host ps db
      else case migrate_tunnel locked tid target host db of
             Inl _ \<Rightarrow> failover_each locked dead target host ps db
           | Inr db' \<Rightarrow>
               let label = (case find (\<lambda>d. fst d = from) dead of Some (_, l) \<Rightarrow> l | None \<Rightarrow> from);
                   db' = db'\<lparr>tunnels_t := update_where (\<lambda>t. t_id t = tid)
                            (\<lambda>t. t\<lparr>t_failover_from := Some label\<rparr>) (tunnels_t db')\<rparr>
               in case failover_each locked dead target host ps db' of
                    (moved, db'') \<Rightarrow> ((sub, from, target) # moved, db''))"

definition failover_stale_nodes ::
    "locks \<Rightarrow> int \<Rightarrow> int \<Rightarrow> DB \<Rightarrow> (string \<times> string \<times> string) list \<times> DB" where
  "failover_stale_nodes locked now stale db =
     (let dead = map (\<lambda>n. (n_node_id n, region_label n)) (filter (node_stale now stale) (nodes_t db)) in
      if dead = [] then ([], db)
      else case sort_key n_created_at (filter (node_healthy now stale) (nodes_t db)) of
             [] \<Rightarrow> ([], db)
           | target # _ \<Rightarrow>
               let pending = map (\<lambda>t. (t_id t, t_subdomain t, the (t_node_id t)))
                     (filter (\<lambda>t. t_node_id t \<in> Some ` set (map fst dead)) (tunnels_t db))
               in failover_each locked dead (n_node_id target) (n_public_host target) pending db)"

end
