(* ===== verification/Lifecycle.thy ===== *)
theory Lifecycle
  imports Reserve
begin

text \<open>
  The rest of the query layer (\<^verbatim>\<open>natforge-backend/src/db/queries.rs\<close>) that writes or decides: users,
  devices, the life of a tunnel, its logs, the sweeps, block lists and nodes. Statements that cannot
  violate a constraint return the new database, with the number of rows they touched where the code
  reads it; the others return a fault or a result, as in \<^verbatim>\<open>Reserve\<close>. \<^verbatim>\<open>now\<close> is the clock of the
  database. Identity columns draw from the one counter \<^verbatim>\<open>next_id\<close>.
\<close>

section \<open>Users\<close>

definition user_by_email :: "string \<Rightarrow> DB \<Rightarrow> User option" where
  "user_by_email email db = fetch_optional (\<lambda>u. u_email u = email) (users_t db)"

definition user_by_id :: "int \<Rightarrow> DB \<Rightarrow> User option" where
  "user_by_id uid db = fetch_optional (\<lambda>u. u_id u = uid) (users_t db)"

definition user_max_tunnels :: "int \<Rightarrow> DB \<Rightarrow> int" where
  "user_max_tunnels uid db = (case user_by_id uid db of Some u \<Rightarrow> u_max_tunnels u | None \<Rightarrow> 10)"

definition create_user :: "int \<Rightarrow> string \<Rightarrow> string \<Rightarrow> User stmt" where
  "create_user now email hash db =
     (if \<exists>u \<in> set (users_t db). u_email u = email then Inl (UniqueViolation ''users_email_key'')
      else let u = \<lparr> u_id = next_id db, u_email = email, u_name = None, u_password_hash = hash, u_role = ''user'',
                     u_banned = False, u_max_tunnels = 10, u_created_at = now \<rparr>
           in Inr (u, db\<lparr>users_t := users_t db @ [u], next_id := next_id db + 1\<rparr>))"

definition update_user_profile :: "int \<Rightarrow> string option \<Rightarrow> string \<Rightarrow> unit stmt" where
  "update_user_profile uid name email db =
     (if (\<exists>u \<in> set (users_t db). u_id u = uid) \<and> (\<exists>u \<in> set (users_t db). u_id u \<noteq> uid \<and> u_email u = email)
      then Inl (UniqueViolation ''users_email_key'')
      else Inr ((), db\<lparr>users_t := update_where (\<lambda>u. u_id u = uid) (\<lambda>u. u\<lparr>u_name := name, u_email := email\<rparr>)
                                    (users_t db)\<rparr>))"

definition update_user_password :: "int \<Rightarrow> string \<Rightarrow> DB \<Rightarrow> DB" where
  "update_user_password uid hash db =
     db\<lparr>users_t := update_where (\<lambda>u. u_id u = uid) (\<lambda>u. u\<lparr>u_password_hash := hash\<rparr>) (users_t db)\<rparr>"

definition set_user_banned :: "int \<Rightarrow> bool \<Rightarrow> DB \<Rightarrow> DB" where
  "set_user_banned uid banned db =
     db\<lparr>users_t := update_where (\<lambda>u. u_id u = uid) (\<lambda>u. u\<lparr>u_banned := banned\<rparr>) (users_t db)\<rparr>"

definition is_user_banned :: "int \<Rightarrow> DB \<Rightarrow> bool" where
  "is_user_banned uid db = (case user_by_id uid db of Some u \<Rightarrow> u_banned u | None \<Rightarrow> False)"

text \<open>The tunnels a set of deleted rows takes along, then the rows themselves.\<close>

definition tunnels_where :: "(Tunnel \<Rightarrow> bool) \<Rightarrow> DB \<Rightarrow> int list" where
  "tunnels_where P db = map t_id (filter P (tunnels_t db))"

definition cascade_where :: "(Tunnel \<Rightarrow> bool) \<Rightarrow> DB \<Rightarrow> DB" where
  "cascade_where P db = cascade_tunnels (\<lambda>i. i \<in> set (tunnels_where P db)) db"

definition delete_user :: "int \<Rightarrow> DB \<Rightarrow> nat \<times> DB" where
  "delete_user uid db =
     (count_where (\<lambda>u. u_id u = uid) (users_t db),
      if \<forall>u \<in> set (users_t db). u_id u \<noteq> uid then db
      else let ds = map d_id (filter (\<lambda>d. d_owner_id d = uid) (devices_t db));
               db = cascade_where (\<lambda>t. t_owner_id t = uid \<or> t_device_id t \<in> Some ` set ds) db
           in db\<lparr>users_t := delete_where (\<lambda>u. u_id u = uid) (users_t db),
                 devices_t := delete_where (\<lambda>d. d_owner_id d = uid) (devices_t db),
                 bandwidth_t := delete_where (\<lambda>b. bw_owner_id b = uid) (bandwidth_t db),
                 logs_t := delete_where (\<lambda>l. l_owner_id l = uid) (logs_t db)\<rparr>)"

section \<open>Devices\<close>

definition create_device :: "int \<Rightarrow> int \<Rightarrow> string \<Rightarrow> Device stmt" where
  "create_device now owner name db =
     (if \<forall>u \<in> set (users_t db). u_id u \<noteq> owner then Inl ForeignKeyViolation
      else let d = \<lparr> d_id = next_id db, d_owner_id = owner, d_name = name, d_token_fp = None, d_status = ''pending'',
                     d_agent_ip = None, d_last_seen = None, d_created_at = now \<rparr>
           in Inr (d, db\<lparr>devices_t := devices_t db @ [d], next_id := next_id db + 1\<rparr>))"

definition list_devices :: "int \<Rightarrow> DB \<Rightarrow> Device list" where
  "list_devices owner db = sort_key d_created_at (filter (\<lambda>d. d_owner_id d = owner) (devices_t db))"

definition device_by_id :: "int \<Rightarrow> DB \<Rightarrow> Device option" where
  "device_by_id did db = fetch_optional (\<lambda>d. d_id d = did) (devices_t db)"

definition set_device_token :: "int \<Rightarrow> string \<Rightarrow> DB \<Rightarrow> DB" where
  "set_device_token did nonce db =
     db\<lparr>devices_t := update_where (\<lambda>d. d_id d = did) (\<lambda>d. d\<lparr>d_token_fp := Some nonce\<rparr>) (devices_t db)\<rparr>"

definition touch_device_online :: "int \<Rightarrow> int \<Rightarrow> DB \<Rightarrow> DB" where
  "touch_device_online now did db =
     db\<lparr>devices_t := update_where (\<lambda>d. d_id d = did)
          (\<lambda>d. d\<lparr>d_status := ''online'', d_last_seen := Some now\<rparr>) (devices_t db)\<rparr>"

definition stale_device :: "int \<Rightarrow> int \<Rightarrow> Device \<Rightarrow> bool" where
  "stale_device now grace d \<longleftrightarrow>
     d_status d = ''online'' \<and> (case d_last_seen d of None \<Rightarrow> True | Some s \<Rightarrow> s < now - grace)"

definition mark_stale_devices_offline :: "int \<Rightarrow> int \<Rightarrow> DB \<Rightarrow> nat \<times> DB" where
  "mark_stale_devices_offline now grace db =
     (count_where (stale_device now grace) (devices_t db),
      db\<lparr>devices_t := update_where (stale_device now grace) (\<lambda>d. d\<lparr>d_status := ''offline''\<rparr>) (devices_t db)\<rparr>)"

definition owned_device :: "int \<Rightarrow> int \<Rightarrow> Device \<Rightarrow> bool" where
  "owned_device did owner d \<longleftrightarrow> d_id d = did \<and> d_owner_id d = owner"

definition disconnect_device :: "int \<Rightarrow> int \<Rightarrow> DB \<Rightarrow> bool \<times> DB" where
  "disconnect_device did owner db =
     (0 < count_where (owned_device did owner) (devices_t db),
      db\<lparr>devices_t := update_where (owned_device did owner)
           (\<lambda>d. d\<lparr>d_token_fp := None, d_status := ''pending''\<rparr>) (devices_t db)\<rparr>)"

definition rename_device :: "int \<Rightarrow> int \<Rightarrow> string \<Rightarrow> DB \<Rightarrow> bool \<times> DB" where
  "rename_device did owner name db =
     (0 < count_where (owned_device did owner) (devices_t db),
      db\<lparr>devices_t := update_where (owned_device did owner) (\<lambda>d. d\<lparr>d_name := name\<rparr>) (devices_t db)\<rparr>)"

definition delete_device :: "int \<Rightarrow> int \<Rightarrow> DB \<Rightarrow> bool \<times> DB" where
  "delete_device did owner db =
     (if 0 < count_where (owned_device did owner) (devices_t db)
      then (True, let db = cascade_where (\<lambda>t. t_device_id t = Some did) db
                  in db\<lparr>devices_t := delete_where (owned_device did owner) (devices_t db)\<rparr>)
      else (False, db))"

definition device_service_tunnels :: "int \<Rightarrow> DB \<Rightarrow> Tunnel list" where
  "device_service_tunnels did db = sort_key t_id (filter (\<lambda>t. t_device_id t = Some did) (tunnels_t db))"

definition device_routes_excluding :: "int \<Rightarrow> int \<Rightarrow> DB \<Rightarrow> (string \<times> int) list" where
  "device_routes_excluding did excl db =
     map (\<lambda>r. (r_kind r, r_local_port r))
       (filter (\<lambda>r. r_tunnel_id r \<in> set (tunnels_where (\<lambda>t. t_device_id t = Some did \<and> t_id t \<noteq> excl) db)) (routes_t db))"

section \<open>The life of a tunnel\<close>

definition tunnel_by_id :: "int \<Rightarrow> DB \<Rightarrow> Tunnel option" where
  "tunnel_by_id tid db = fetch_optional (\<lambda>t. t_id t = tid) (tunnels_t db)"

definition tunnel_device_id :: "int \<Rightarrow> DB \<Rightarrow> int option" where
  "tunnel_device_id tid db = Option.bind (tunnel_by_id tid db) t_device_id"

definition tunnel_custom_domain :: "int \<Rightarrow> DB \<Rightarrow> string option" where
  "tunnel_custom_domain tid db = Option.bind (tunnel_by_id tid db) t_custom_domain"

definition tunnel_owner :: "int \<Rightarrow> DB \<Rightarrow> int option" where
  "tunnel_owner tid db = map_option t_owner_id (tunnel_by_id tid db)"

definition tunnel_status :: "int \<Rightarrow> DB \<Rightarrow> string option" where
  "tunnel_status tid db = map_option t_status (tunnel_by_id tid db)"

definition tunnel_owner_subdomain :: "int \<Rightarrow> DB \<Rightarrow> (int \<times> string \<times> string option) option" where
  "tunnel_owner_subdomain tid db =
     map_option (\<lambda>t. (t_owner_id t, t_subdomain t, t_node_id t)) (tunnel_by_id tid db)"

definition owner_tunnel_targets :: "int \<Rightarrow> DB \<Rightarrow> (int \<times> string \<times> string option) list" where
  "owner_tunnel_targets owner db =
     map (\<lambda>t. (t_id t, t_subdomain t, t_node_id t)) (filter (\<lambda>t. t_owner_id t = owner) (tunnels_t db))"

text \<open>\<^verbatim>\<open>UPDATE tunnels SET .. WHERE id = $1\<close>, and its rows.\<close>

definition update_tunnel :: "int \<Rightarrow> (Tunnel \<Rightarrow> Tunnel) \<Rightarrow> DB \<Rightarrow> DB" where
  "update_tunnel tid f db = db\<lparr>tunnels_t := update_where (\<lambda>t. t_id t = tid) f (tunnels_t db)\<rparr>"

definition set_custom_domain :: "int \<Rightarrow> string option \<Rightarrow> unit stmt" where
  "set_custom_domain tid domain db =
     (if domain \<noteq> None \<and> (\<exists>t \<in> set (tunnels_t db). t_id t = tid)
         \<and> (\<exists>t \<in> set (tunnels_t db). t_id t \<noteq> tid \<and> t_custom_domain t = domain)
      then Inl (UniqueViolation ''tunnels_custom_domain_uq'')
      else Inr ((), update_tunnel tid (\<lambda>t. t\<lparr>t_custom_domain := domain\<rparr>) db))"

definition set_tunnel_online :: "int \<Rightarrow> int \<Rightarrow> string \<Rightarrow> string option \<Rightarrow> DB \<Rightarrow> DB" where
  "set_tunnel_online now tid node ip db =
     update_tunnel tid (\<lambda>t. t\<lparr>t_status := ''online'', t_node_id := Some node, t_agent_ip := ip,
                              t_last_seen := Some now\<rparr>) db"

definition set_tunnel_offline :: "int \<Rightarrow> int \<Rightarrow> DB \<Rightarrow> DB" where
  "set_tunnel_offline now tid db =
     db\<lparr>tunnels_t := update_where (\<lambda>t. t_id t = tid \<and> t_status t \<noteq> ''stopped'')
          (\<lambda>t. t\<lparr>t_status := ''offline'', t_last_seen := Some now\<rparr>) (tunnels_t db)\<rparr>"

definition delete_tunnel :: "int \<Rightarrow> DB \<Rightarrow> nat \<times> DB" where
  "delete_tunnel tid db =
     (count_where (\<lambda>t. t_id t = tid) (tunnels_t db),
      cascade_where (\<lambda>t. t_id t = tid) (free_tunnel_ports tid db))"

definition stop_tunnel_keep :: "int \<Rightarrow> int \<Rightarrow> DB \<Rightarrow> nat \<times> DB" where
  "stop_tunnel_keep now tid db =
     (count_where (\<lambda>t. t_id t = tid) (tunnels_t db),
      update_tunnel tid (\<lambda>t. t\<lparr>t_status := ''stopped'', t_last_seen := Some now\<rparr>) db)"

definition start_tunnel_keep :: "int \<Rightarrow> DB \<Rightarrow> nat \<times> DB" where
  "start_tunnel_keep tid db =
     (count_where (\<lambda>t. t_id t = tid \<and> t_status t = ''stopped'') (tunnels_t db),
      db\<lparr>tunnels_t := update_where (\<lambda>t. t_id t = tid \<and> t_status t = ''stopped'')
           (\<lambda>t. t\<lparr>t_status := ''awaiting_agent''\<rparr>) (tunnels_t db)\<rparr>)"

definition rename_tunnel :: "int \<Rightarrow> string option \<Rightarrow> DB \<Rightarrow> DB" where
  "rename_tunnel tid name db = update_tunnel tid (\<lambda>t. t\<lparr>t_name := name\<rparr>) db"

definition is_reserved_subdomain :: "string \<Rightarrow> DB \<Rightarrow> bool" where
  "is_reserved_subdomain name db \<longleftrightarrow> name \<in> set (reserved_t db)"

definition subdomain_in_use :: "string \<Rightarrow> int \<Rightarrow> DB \<Rightarrow> bool" where
  "subdomain_in_use name self db \<longleftrightarrow> (\<exists>t \<in> set (tunnels_t db). t_subdomain t = name \<and> t_id t \<noteq> self)"

definition set_tunnel_subdomain :: "int \<Rightarrow> string \<Rightarrow> unit stmt" where
  "set_tunnel_subdomain tid sub db =
     (if (\<exists>t \<in> set (tunnels_t db). t_id t = tid) \<and> subdomain_in_use sub tid db
      then Inl (UniqueViolation ''tunnels_subdomain_uq'')
      else Inr ((), update_tunnel tid (\<lambda>t. t\<lparr>t_subdomain := sub\<rparr>) db))"

definition this_route :: "int \<Rightarrow> int \<Rightarrow> RouteRow \<Rightarrow> bool" where
  "this_route tid rid r \<longleftrightarrow> r_tunnel_id r = tid \<and> r_route_id r = rid"

definition set_route_srv :: "int \<Rightarrow> int \<Rightarrow> string option \<Rightarrow> DB \<Rightarrow> nat \<times> DB" where
  "set_route_srv tid rid srv db =
     (count_where (this_route tid rid) (routes_t db),
      db\<lparr>routes_t := update_where (this_route tid rid) (\<lambda>r. r\<lparr>r_srv_service := srv\<rparr>) (routes_t db)\<rparr>)"

definition update_route_label :: "int \<Rightarrow> int \<Rightarrow> string option \<Rightarrow> DB \<Rightarrow> nat \<times> DB" where
  "update_route_label tid rid label db =
     (count_where (this_route tid rid) (routes_t db),
      db\<lparr>routes_t := update_where (this_route tid rid) (\<lambda>r. r\<lparr>r_label := label\<rparr>) (routes_t db)\<rparr>)"

section \<open>Traffic\<close>

definition latest_bandwidth :: "int \<Rightarrow> DB \<Rightarrow> (int \<times> int) option" where
  "latest_bandwidth tid db =
     map_option (\<lambda>b. (bw_bytes_in b, bw_bytes_out b)) (fetch_optional (\<lambda>b. bw_tunnel_id b = tid) (bandwidth_t db))"

definition traffic_active :: "(int \<times> int) option \<Rightarrow> int \<Rightarrow> int \<Rightarrow> bool" where
  "traffic_active prev bytes_in bytes_out \<longleftrightarrow>
     (case prev of Some (pi, po) \<Rightarrow> pi < bytes_in \<or> po < bytes_out | None \<Rightarrow> 0 < bytes_in \<or> 0 < bytes_out)"

definition append_bandwidth :: "int \<Rightarrow> int \<Rightarrow> int \<Rightarrow> int \<Rightarrow> int \<Rightarrow> unit stmt" where
  "append_bandwidth now tid owner bytes_in bytes_out db =
     (let active = traffic_active (latest_bandwidth tid db) bytes_in bytes_out in
      if (\<forall>t \<in> set (tunnels_t db). t_id t \<noteq> tid) \<or> (\<forall>u \<in> set (users_t db). u_id u \<noteq> owner)
      then Inl ForeignKeyViolation
      else Inr ((), update_tunnel tid
             (if active then (\<lambda>t. t\<lparr>t_last_seen := Some now, t_last_active_at := Some now\<rparr>)
              else (\<lambda>t. t\<lparr>t_last_seen := Some now\<rparr>))
             (db\<lparr>bandwidth_t := \<lparr> bw_tunnel_id = tid, bw_owner_id = owner, bw_bytes_in = bytes_in,
                                  bw_bytes_out = bytes_out, bw_recorded_at = now \<rparr> # bandwidth_t db\<rparr>)))"

definition bandwidth_series :: "int \<Rightarrow> nat \<Rightarrow> DB \<Rightarrow> BandwidthRow list" where
  "bandwidth_series tid limit db = take limit (filter (\<lambda>b. bw_tunnel_id b = tid) (bandwidth_t db))"

definition insert_conn_log ::
    "int \<Rightarrow> int \<Rightarrow> int \<Rightarrow> string \<Rightarrow> string \<Rightarrow> string option \<Rightarrow> int \<Rightarrow> int \<Rightarrow> int \<Rightarrow> bool \<Rightarrow> unit stmt" where
  "insert_conn_log tid owner rid kind ip country bytes_in bytes_out ms blocked db =
     (if (\<forall>t \<in> set (tunnels_t db). t_id t \<noteq> tid) \<or> (\<forall>u \<in> set (users_t db). u_id u \<noteq> owner)
      then Inl ForeignKeyViolation
      else Inr ((), db\<lparr>logs_t := logs_t db @
             [\<lparr> l_id = next_id db, l_tunnel_id = tid, l_owner_id = owner, l_route_id = rid, l_kind = kind,
                l_peer_ip = ip, l_country = country, l_bytes_in = bytes_in, l_bytes_out = bytes_out,
                l_duration_ms = ms, l_blocked = blocked \<rparr>],
             next_id := next_id db + 1\<rparr>))"

text \<open>\<^verbatim>\<open>row_number() OVER (PARTITION BY tunnel_id ORDER BY id DESC)\<close>.\<close>

definition log_rank :: "LogRow list \<Rightarrow> LogRow \<Rightarrow> int" where
  "log_rank logs l = int (count_where (\<lambda>m. l_tunnel_id m = l_tunnel_id l \<and> l_id l \<le> l_id m) logs)"

definition prune_conn_logs :: "int \<Rightarrow> DB \<Rightarrow> nat \<times> DB" where
  "prune_conn_logs keep db =
     (count_where (\<lambda>l. keep < log_rank (logs_t db) l) (logs_t db),
      db\<lparr>logs_t := delete_where (\<lambda>l. keep < log_rank (logs_t db) l) (logs_t db)\<rparr>)"

definition recent_conn_logs :: "int \<Rightarrow> nat \<Rightarrow> DB \<Rightarrow> LogRow list" where
  "recent_conn_logs tid limit db =
     take limit (sort_key (\<lambda>l. - l_id l) (filter (\<lambda>l. l_tunnel_id l = tid) (logs_t db)))"

section \<open>The sweeps\<close>

text \<open>Freeing the ports of several tunnels, \<^verbatim>\<open>WHERE tunnel_id = ANY($1)\<close>.\<close>

definition free_ports_of :: "int list \<Rightarrow> DB \<Rightarrow> DB" where
  "free_ports_of ids db =
     db\<lparr>pool_t := update_where (\<lambda>row. pp_tunnel_id row \<in> Some ` set ids)
            (\<lambda>row. row\<lparr>pp_tunnel_id := None, pp_route_id := None\<rparr>) (pool_t db)\<rparr>"

definition abandoned :: "int \<Rightarrow> int \<Rightarrow> Tunnel \<Rightarrow> bool" where
  "abandoned now grace t \<longleftrightarrow>
     t_status t \<noteq> ''awaiting_agent'' \<and> t_status t \<noteq> ''stopped'' \<and> t_device_id t = None
     \<and> coalesce (t_last_seen t) (t_created_at t) < now - grace"

definition reconcile_abandoned :: "int \<Rightarrow> int \<Rightarrow> DB \<Rightarrow> nat \<times> DB" where
  "reconcile_abandoned now grace db =
     (let stale = tunnels_where (abandoned now grace) db in
      if stale = [] then (0, db)
      else let db = free_ports_of stale db
           in (count_where (\<lambda>t. t_id t \<in> set stale) (tunnels_t db),
               cascade_where (\<lambda>t. t_id t \<in> set stale) db))"

definition idle_host :: "int \<Rightarrow> int \<Rightarrow> Tunnel \<Rightarrow> bool" where
  "idle_host now idle t \<longleftrightarrow>
     t_device_id t \<noteq> None \<and> t_route_sig t \<noteq> [] \<and> coalesce (t_last_active_at t) (t_created_at t) < now - idle"

definition expire_idle_service_hosts :: "int \<Rightarrow> int \<Rightarrow> DB \<Rightarrow> nat \<times> DB" where
  "expire_idle_service_hosts now idle_secs db =
     (let idle = tunnels_where (idle_host now idle_secs) db in
      if idle = [] then (0, db)
      else let db = free_ports_of idle db;
               db = db\<lparr>routes_t := delete_where (\<lambda>r. r_tunnel_id r \<in> set idle) (routes_t db)\<rparr>
           in (length idle,
               db\<lparr>tunnels_t := update_where (\<lambda>t. t_id t \<in> set idle) (\<lambda>t. t\<lparr>t_route_sig := []\<rparr>) (tunnels_t db)\<rparr>))"

section \<open>Block lists\<close>

definition region_blocks :: "DB \<Rightarrow> string list" where
  "region_blocks db = sort (region_blocks_t db)"

definition add_region_block :: "string \<Rightarrow> DB \<Rightarrow> DB" where
  "add_region_block code db =
     (if code \<in> set (region_blocks_t db) then db
      else db\<lparr>region_blocks_t := region_blocks_t db @ [code]\<rparr>)"

definition remove_region_block :: "string \<Rightarrow> DB \<Rightarrow> DB" where
  "remove_region_block code db =
     db\<lparr>region_blocks_t := delete_where (\<lambda>c. c = code) (region_blocks_t db)\<rparr>"

definition tunnel_region_blocks :: "int \<Rightarrow> DB \<Rightarrow> string list" where
  "tunnel_region_blocks tid db = sort (map snd (filter (\<lambda>b. fst b = tid) (tunnel_blocks_t db)))"

fun insert_tunnel_blocks :: "int \<Rightarrow> string list \<Rightarrow> DB \<Rightarrow> DB" where
  "insert_tunnel_blocks tid [] db = db"
| "insert_tunnel_blocks tid (c # cs) db =
     insert_tunnel_blocks tid cs
       (if (tid, c) \<in> set (tunnel_blocks_t db) then db
        else db\<lparr>tunnel_blocks_t := tunnel_blocks_t db @ [(tid, c)]\<rparr>)"

definition set_tunnel_region_blocks :: "int \<Rightarrow> string list \<Rightarrow> unit stmt" where
  "set_tunnel_region_blocks tid codes db =
     (if codes \<noteq> [] \<and> (\<forall>t \<in> set (tunnels_t db). t_id t \<noteq> tid) then Inl ForeignKeyViolation
      else Inr ((), insert_tunnel_blocks tid codes
             (db\<lparr>tunnel_blocks_t := delete_where (\<lambda>b. fst b = tid) (tunnel_blocks_t db)\<rparr>)))"

text \<open>The map of all block lists that the nodes pull.\<close>

definition all_tunnel_region_blocks :: "DB \<Rightarrow> int \<Rightarrow> string list option" where
  "all_tunnel_region_blocks db tid =
     (case map snd (filter (\<lambda>b. fst b = tid) (tunnel_blocks_t db)) of [] \<Rightarrow> None | cs \<Rightarrow> Some cs)"

section \<open>Nodes\<close>

definition upsert_node :: "int \<Rightarrow> NodeRow \<Rightarrow> NodeRow list \<Rightarrow> NodeRow list" where
  "upsert_node now n ns =
     (if \<exists>m \<in> set ns. n_node_id m = n_node_id n
      then update_where (\<lambda>m. n_node_id m = n_node_id n)
             (\<lambda>m. m\<lparr>n_public_host := n_public_host n, n_control_endpoint := n_control_endpoint n,
                    n_internal_url := n_internal_url n, n_http_port := n_http_port n, n_https_port := n_https_port n,
                    n_control_cert_fp := n_control_cert_fp n, n_last_seen := Some now\<rparr>) ns
      else ns @ [n\<lparr>n_active := True, n_last_seen := Some now, n_created_at := now\<rparr>])"

definition missing_ports :: "string \<Rightarrow> int \<Rightarrow> int \<Rightarrow> PoolRow list \<Rightarrow> int list" where
  "missing_ports node lo hi pool =
     filter (\<lambda>p. \<forall>row \<in> set pool. \<not> (pp_node_id row = node \<and> pp_port row = p)) [lo..hi]"

definition register_node :: "int \<Rightarrow> NodeRow \<Rightarrow> int \<Rightarrow> int \<Rightarrow> DB \<Rightarrow> DB" where
  "register_node now n port_min port_max db =
     db\<lparr>nodes_t := upsert_node now n (nodes_t db),
        pool_t := pool_t db @
          map (\<lambda>p. \<lparr> pp_node_id = n_node_id n, pp_port = p, pp_tunnel_id = None, pp_route_id = None \<rparr>)
            (missing_ports (n_node_id n) port_min port_max (pool_t db))\<rparr>"

definition list_nodes :: "bool \<Rightarrow> DB \<Rightarrow> NodeRow list" where
  "list_nodes active_only db = sort_key n_name (filter (\<lambda>n. active_only \<longrightarrow> n_active n) (nodes_t db))"

definition get_node :: "string \<Rightarrow> DB \<Rightarrow> NodeRow option" where
  "get_node nid db = fetch_optional (\<lambda>n. n_node_id n = nid) (nodes_t db)"

definition seen_recently :: "int \<Rightarrow> NodeRow \<Rightarrow> bool" where
  "seen_recently now n \<longleftrightarrow> (case n_last_seen n of Some s \<Rightarrow> now - 90 \<le> s | None \<Rightarrow> False)"

definition default_node :: "int \<Rightarrow> DB \<Rightarrow> NodeRow option" where
  "default_node now db =
     (let act = filter n_active (nodes_t db)
      in case sort_key n_created_at (filter (seen_recently now) act)
              @ sort_key n_created_at (filter (\<lambda>n. \<not> seen_recently now n) act) of
           [] \<Rightarrow> None
         | n # _ \<Rightarrow> Some n)"

definition update_node :: "string \<Rightarrow> string \<Rightarrow> string option \<Rightarrow> bool \<Rightarrow> DB \<Rightarrow> DB" where
  "update_node nid name region active db =
     db\<lparr>nodes_t := update_where (\<lambda>n. n_node_id n = nid)
          (\<lambda>n. n\<lparr>n_name := name, n_region := region, n_active := active\<rparr>) (nodes_t db)\<rparr>"

definition delete_node :: "string \<Rightarrow> DB \<Rightarrow> DB" where
  "delete_node nid db =
     db\<lparr>pool_t := delete_where (\<lambda>row. pp_node_id row = nid) (pool_t db),
        nodes_t := delete_where (\<lambda>n. n_node_id n = nid) (nodes_t db)\<rparr>"

end
