(* ===== verification/Views.thy ===== *)
theory Views
  imports Lifecycle
begin

text \<open>
  The read side of the query layer (\<^verbatim>\<open>natforge-backend/src/db/queries.rs\<close>): the views of tunnels the
  dashboard shows, and the aggregates of the administrator's pages. Sums of 64-bit counters are taken
  over unbounded integers.
\<close>

section \<open>Tunnel views\<close>

record RouteView =
  rv_route_id :: u16
  rv_mode :: string
  rv_local_port :: int
  rv_public_port :: "int option"
  rv_public_endpoint :: string
  rv_label :: "string option"
  rv_srv_service :: "string option"

record TunnelView =
  tv_tunnel_id :: int
  tv_subdomain :: string
  tv_name :: "string option"
  tv_full_host :: string
  tv_public_host :: string
  tv_status :: string
  tv_agent_ip :: "string option"
  tv_owner_id :: int
  tv_owner_email :: "string option"
  tv_owner_name :: "string option"
  tv_node_id :: "string option"
  tv_region :: "string option"
  tv_device_id :: "int option"
  tv_custom_domain :: "string option"
  tv_failover_from :: "string option"
  tv_region_blocks :: "string list"
  tv_bytes_in :: int
  tv_bytes_out :: int
  tv_created_at :: int
  tv_last_active_at :: "int option"
  tv_routes :: "RouteView list"

definition route_endpoint :: "string \<Rightarrow> string \<Rightarrow> string \<Rightarrow> int option \<Rightarrow> string" where
  "route_endpoint kind sub domain pp =
     (if kind = ''http'' then ''http://'' @ sub @ ''.'' @ domain
      else if kind = ''https'' then ''https://'' @ sub @ ''.'' @ domain
      else sub @ ''.'' @ domain @ '':'' @ int_str (coalesce pp 0))"

definition route_view :: "Tunnel \<Rightarrow> RouteRow \<Rightarrow> RouteView" where
  "route_view t r =
     \<lparr> rv_route_id = word_of_int (r_route_id r), rv_mode = r_kind r, rv_local_port = r_local_port r,
       rv_public_port = r_public_port r,
       rv_public_endpoint = route_endpoint (r_kind r) (t_subdomain t) (t_public_host t) (r_public_port r),
       rv_label = r_label r, rv_srv_service = r_srv_service r \<rparr>"

text \<open>\<^verbatim>\<open>fetch_one\<close> of the extra columns fails when the row has gone in the meantime.\<close>

definition build_view :: "DB \<Rightarrow> Tunnel \<Rightarrow> fault + TunnelView" where
  "build_view db t =
     (let (bytes_in, bytes_out) = coalesce (latest_bandwidth (t_id t) db) (0, 0);
          node = Option.bind (t_node_id t) (\<lambda>nid. get_node nid db);
          owner = user_by_id (t_owner_id t) db
      in case tunnel_by_id (t_id t) db of
           None \<Rightarrow> Inl RowNotFound
         | Some x \<Rightarrow>
             Inr \<lparr> tv_tunnel_id = t_id t, tv_subdomain = t_subdomain t, tv_name = t_name t,
               tv_full_host = t_subdomain t @ ''.'' @ t_public_host t, tv_public_host = t_public_host t,
               tv_status = t_status t, tv_agent_ip = t_agent_ip t, tv_owner_id = t_owner_id t,
               tv_owner_email = map_option u_email owner, tv_owner_name = Option.bind owner u_name,
               tv_node_id = t_node_id t, tv_region = map_option region_label node,
               tv_device_id = t_device_id x, tv_custom_domain = t_custom_domain x,
               tv_failover_from = t_failover_from x, tv_region_blocks = tunnel_region_blocks (t_id t) db,
               tv_bytes_in = bytes_in, tv_bytes_out = bytes_out, tv_created_at = t_created_at t,
               tv_last_active_at = t_last_active_at x,
               tv_routes = map (route_view t) (routes_for_tunnel db (t_id t)) \<rparr>)"

fun build_views :: "DB \<Rightarrow> Tunnel list \<Rightarrow> fault + TunnelView list" where
  "build_views db [] = Inr []"
| "build_views db (t # ts) =
     and_then (build_view db t) (\<lambda>v. and_then (build_views db ts) (\<lambda>vs. Inr (v # vs)))"

definition tunnels_for_owner :: "int \<Rightarrow> DB \<Rightarrow> fault + TunnelView list" where
  "tunnels_for_owner owner db =
     build_views db (sort_key (\<lambda>t. - t_created_at t) (filter (\<lambda>t. t_owner_id t = owner) (tunnels_t db)))"

definition all_tunnels :: "DB \<Rightarrow> fault + TunnelView list" where
  "all_tunnels db = build_views db (sort_key (\<lambda>t. - t_created_at t) (tunnels_t db))"

section \<open>Aggregates\<close>

text \<open>\<^verbatim>\<open>SELECT DISTINCT ON (tunnel_id) .. ORDER BY tunnel_id, recorded_at DESC\<close>, up to the order.\<close>

fun latest_rows :: "BandwidthRow list \<Rightarrow> BandwidthRow list" where
  "latest_rows [] = []"
| "latest_rows (b # bs) = b # filter (\<lambda>c. bw_tunnel_id c \<noteq> bw_tunnel_id b) (latest_rows bs)"

definition total_bytes :: "BandwidthRow list \<Rightarrow> int" where
  "total_bytes bs = sum_list (map (\<lambda>b. bw_bytes_in b + bw_bytes_out b) (latest_rows bs))"

record Stats =
  st_total_users :: int
  st_active_tunnels :: int
  st_total_bytes_relayed :: int
  st_blocked_regions :: int

definition stats :: "DB \<Rightarrow> Stats" where
  "stats db =
     \<lparr> st_total_users = int (length (users_t db)),
       st_active_tunnels = int (count_where (\<lambda>t. t_status t = ''online'') (tunnels_t db)),
       st_total_bytes_relayed = total_bytes (bandwidth_t db),
       st_blocked_regions = int (length (region_blocks_t db)) \<rparr>"

record UserOverview =
  uo_id :: int
  uo_email :: string
  uo_name :: "string option"
  uo_role :: string
  uo_banned :: bool
  uo_created_at :: int
  uo_tunnel_count :: int
  uo_total_bytes :: int
  uo_last_seen :: "int option"

text \<open>\<^verbatim>\<open>max\<close> of a nullable column: the missing values are skipped.\<close>

fun max_some :: "int option list \<Rightarrow> int option" where
  "max_some [] = None"
| "max_some (x # xs) =
     (case (x, max_some xs) of (Some a, Some b) \<Rightarrow> Some (max a b) | (None, m) \<Rightarrow> m | (m, None) \<Rightarrow> m)"

definition users_overview :: "DB \<Rightarrow> UserOverview list" where
  "users_overview db =
     map (\<lambda>u. let ts = filter (\<lambda>t. t_owner_id t = u_id u) (tunnels_t db) in
            \<lparr> uo_id = u_id u, uo_email = u_email u, uo_name = u_name u, uo_role = u_role u, uo_banned = u_banned u,
              uo_created_at = u_created_at u, uo_tunnel_count = int (length ts),
              uo_total_bytes = total_bytes (filter (\<lambda>b. bw_owner_id b = u_id u) (bandwidth_t db)),
              uo_last_seen = max_some (map t_last_seen ts) \<rparr>)
       (sort_key u_id (users_t db))"

text \<open>Used and all rows of the port pool.\<close>

definition port_pool_usage :: "DB \<Rightarrow> int \<times> int" where
  "port_pool_usage db =
     (int (count_where (\<lambda>row. pp_tunnel_id row \<noteq> None) (pool_t db)), int (length (pool_t db)))"

end
