(* ===== verification/Redis.thy ===== *)
theory Redis
  imports RustStr
begin

text \<open>
  The device-authorization codes (\<^verbatim>\<open>natforge-backend/src/db/connection.rs\<close>) and what they use of Redis:
  string and hash values with an optional deadline in seconds. A key whose deadline has passed is
  absent. A command on a key of the other type is refused (\<^verbatim>\<open>WRONGTYPE\<close>), and so is \<^verbatim>\<open>INCR\<close> on a value
  that is no number.
\<close>

section \<open>The store\<close>

datatype redis_value = RStr string | RHash "(string \<times> string) list"

type_synonym Redis = "string \<Rightarrow> (redis_value \<times> int option) option"

datatype redis_error = WrongType | NotAnInteger | NotDecodable

definition alive :: "int \<Rightarrow> int option \<Rightarrow> bool" where
  "alive now deadline = (case deadline of None \<Rightarrow> True | Some d \<Rightarrow> now < d)"

definition r_get :: "int \<Rightarrow> string \<Rightarrow> Redis \<Rightarrow> (redis_value \<times> int option) option" where
  "r_get now key r =
     (case r key of Some (v, d) \<Rightarrow> if alive now d then Some (v, d) else None | None \<Rightarrow> None)"

definition r_exists :: "int \<Rightarrow> string \<Rightarrow> Redis \<Rightarrow> bool" where
  "r_exists now key r \<longleftrightarrow> r_get now key r \<noteq> None"

definition r_get_str :: "int \<Rightarrow> string \<Rightarrow> Redis \<Rightarrow> redis_error + string option" where
  "r_get_str now key r =
     (case r_get now key r of
        None \<Rightarrow> Inr None
      | Some (RStr s, _) \<Rightarrow> Inr (Some s)
      | Some (RHash _, _) \<Rightarrow> Inl WrongType)"

definition r_set_ex :: "int \<Rightarrow> string \<Rightarrow> string \<Rightarrow> int \<Rightarrow> Redis \<Rightarrow> Redis" where
  "r_set_ex now key v secs r = r(key \<mapsto> (RStr v, Some (now + secs)))"

fun set_fields :: "(string \<times> string) list \<Rightarrow> (string \<times> string) list \<Rightarrow> (string \<times> string) list" where
  "set_fields [] fs = fs"
| "set_fields ((k, v) # kvs) fs = set_fields kvs ((k, v) # filter (\<lambda>f. fst f \<noteq> k) fs)"

definition r_hset :: "int \<Rightarrow> string \<Rightarrow> (string \<times> string) list \<Rightarrow> Redis \<Rightarrow> redis_error + Redis" where
  "r_hset now key kvs r =
     (case r_get now key r of
        None \<Rightarrow> Inr (r(key \<mapsto> (RHash (set_fields kvs []), None)))
      | Some (RHash fs, d) \<Rightarrow> Inr (r(key \<mapsto> (RHash (set_fields kvs fs), d)))
      | Some (RStr _, _) \<Rightarrow> Inl WrongType)"

definition r_hget :: "int \<Rightarrow> string \<Rightarrow> Redis \<Rightarrow> redis_error + (string \<times> string) list" where
  "r_hget now key r =
     (case r_get now key r of
        None \<Rightarrow> Inr []
      | Some (RHash fs, _) \<Rightarrow> Inr fs
      | Some (RStr _, _) \<Rightarrow> Inl WrongType)"

definition r_expire :: "int \<Rightarrow> string \<Rightarrow> int \<Rightarrow> Redis \<Rightarrow> Redis" where
  "r_expire now key secs r =
     (case r_get now key r of
        None \<Rightarrow> r
      | Some (v, _) \<Rightarrow> r(key \<mapsto> (v, Some (now + secs))))"

definition r_del :: "int \<Rightarrow> string \<Rightarrow> Redis \<Rightarrow> int \<times> Redis" where
  "r_del now key r = (if r_exists now key r then 1 else 0, r(key := None))"

definition r_incr :: "int \<Rightarrow> string \<Rightarrow> Redis \<Rightarrow> redis_error + int \<times> Redis" where
  "r_incr now key r =
     (case r_get now key r of
        None \<Rightarrow> Inr (1, r(key \<mapsto> (RStr ''1'', None)))
      | Some (RStr s, d) \<Rightarrow>
          (case parse_int (- i64_max - 1) i64_max s of
             None \<Rightarrow> Inl NotAnInteger
           | Some n \<Rightarrow> if n = i64_max then Inl NotAnInteger else Inr (n + 1, r(key \<mapsto> (RStr (int_str (n + 1)), d))))
      | Some (RHash _, _) \<Rightarrow> Inl WrongType)"

section \<open>Device codes\<close>

definition DEVCODE_TTL_SECS :: int where
  "DEVCODE_TTL_SECS = 3600"

definition devcode_user_key :: "string \<Rightarrow> string" where
  "devcode_user_key user_code = ''nf:devcode:'' @ user_code"

definition devcode_index_key :: "string \<Rightarrow> string" where
  "devcode_index_key device_code = ''nf:devcode:dc:'' @ device_code"

record DeviceRecord =
  dr_device_code :: string
  dr_approved_user :: "int option"
  dr_device_id :: "int option"

definition rate_limit_hit :: "int \<Rightarrow> string \<Rightarrow> int \<Rightarrow> int \<Rightarrow> Redis \<Rightarrow> redis_error + bool \<times> Redis" where
  "rate_limit_hit now key limit window r =
     and_then (r_incr now key r) (\<lambda>(n, r).
       Inr (n \<le> limit, if n = 1 then r_expire now key window r else r))"

definition devcode_create :: "int \<Rightarrow> string \<Rightarrow> string \<Rightarrow> Redis \<Rightarrow> redis_error + Redis" where
  "devcode_create now user_code device_code r =
     (let uk = devcode_user_key user_code in
      and_then (r_hset now uk [(''device_code'', device_code), (''approved_user'', []), (''device_id'', [])] r) (\<lambda>r.
        let r = r_expire now uk DEVCODE_TTL_SECS r in
        Inr (r_set_ex now (devcode_index_key device_code) user_code DEVCODE_TTL_SECS r)))"

definition devcode_approve :: "int \<Rightarrow> string \<Rightarrow> int \<Rightarrow> Redis \<Rightarrow> redis_error + bool \<times> Redis" where
  "devcode_approve now user_code uid r =
     (let uk = devcode_user_key user_code in
      if \<not> r_exists now uk r then Inr (False, r)
      else and_then (r_hset now uk [(''approved_user'', int_str uid)] r) (\<lambda>r. Inr (True, r)))"

definition devcode_approve_device :: "int \<Rightarrow> string \<Rightarrow> int \<Rightarrow> int \<Rightarrow> Redis \<Rightarrow> redis_error + bool \<times> Redis" where
  "devcode_approve_device now user_code uid did r =
     (let uk = devcode_user_key user_code in
      if \<not> r_exists now uk r then Inr (False, r)
      else and_then (r_hset now uk [(''approved_user'', int_str uid), (''device_id'', int_str did)] r)
             (\<lambda>r. Inr (True, r)))"

definition i32_of :: "string \<Rightarrow> int option" where
  "i32_of s = parse_int (- 2147483648) 2147483647 s"

definition i64_of :: "string \<Rightarrow> int option" where
  "i64_of s = parse_int (- i64_max - 1) i64_max s"

text \<open>
  The three fields are fetched together; the first two are decoded as strings, so a hash that lacks
  one of them does not decode.
\<close>

definition devcode_status :: "int \<Rightarrow> string \<Rightarrow> Redis \<Rightarrow> redis_error + DeviceRecord option" where
  "devcode_status now device_code r =
     and_then (r_get_str now (devcode_index_key device_code) r) (\<lambda>user_code.
       case user_code of
         None \<Rightarrow> Inr None
       | Some user_code \<Rightarrow>
           and_then (r_hget now (devcode_user_key user_code) r) (\<lambda>fs.
             case (map_of fs ''device_code'', map_of fs ''approved_user'') of
               (Some stored, Some approved) \<Rightarrow>
                 if stored \<noteq> device_code then Inr None
                 else Inr (Some \<lparr> dr_device_code = stored,
                        dr_approved_user = (if approved = [] then None else i32_of approved),
                        dr_device_id = (case map_of fs ''device_id'' of
                                          Some s \<Rightarrow> if s \<noteq> [] then i64_of s else None
                                        | None \<Rightarrow> None) \<rparr>)
             | _ \<Rightarrow> Inl NotDecodable))"

definition devcode_consume :: "int \<Rightarrow> string \<Rightarrow> Redis \<Rightarrow> redis_error + bool \<times> Redis" where
  "devcode_consume now device_code r =
     (let ik = devcode_index_key device_code in
      and_then (r_get_str now ik r) (\<lambda>user_code.
        case r_del now ik r of
          (removed, r) \<Rightarrow>
            Inr (removed = 1,
                 case user_code of Some uc \<Rightarrow> snd (r_del now (devcode_user_key uc) r) | None \<Rightarrow> r)))"

section \<open>Reading back\<close>

lemma r_get_upd: "r_get now k (r(k' \<mapsto> (v, d))) = (if k = k' then if alive now d then Some (v, d) else None else r_get now k r)"
  by (simp add: r_get_def)

lemma r_get_del: "r_get now k (r(k' := None)) = (if k = k' then None else r_get now k r)"
  by (simp add: r_get_def)

lemma set_fields_other: "k \<notin> fst ` set kvs \<Longrightarrow> map_of (set_fields kvs fs) k = map_of fs k"
proof (induction kvs fs rule: set_fields.induct)
  case (1 fs)
  then show ?case by simp
next
  case (2 k' v kvs fs)
  have "map_of (filter (\<lambda>f. fst f \<noteq> k') fs) k = map_of fs k" if "k \<noteq> k'"
    using that by (induction fs) auto
  then show ?case using 2 by auto
qed

text \<open>The two kinds of key differ for the codes the handlers generate, which have no colon.\<close>

lemma keys_differ: "CHR '':'' \<notin> set uc \<Longrightarrow> devcode_user_key uc \<noteq> devcode_index_key dc"
  by (auto simp: devcode_user_key_def devcode_index_key_def)

lemma index_key_inj [simp]: "devcode_index_key a = devcode_index_key b \<longleftrightarrow> a = b"
  by (simp add: devcode_index_key_def)

lemma user_key_inj [simp]: "devcode_user_key a = devcode_user_key b \<longleftrightarrow> a = b"
  by (simp add: devcode_user_key_def)

text \<open>The record of a device code, in terms of the two keys.\<close>

definition pair_stored :: "int \<Rightarrow> string \<Rightarrow> string \<Rightarrow> (string \<times> string) list \<Rightarrow> Redis \<Rightarrow> bool" where
  "pair_stored now user_code device_code fs r \<longleftrightarrow>
     (\<exists>d. r_get now (devcode_index_key device_code) r = Some (RStr user_code, d))
     \<and> (\<exists>d. r_get now (devcode_user_key user_code) r = Some (RHash fs, d))
     \<and> map_of fs ''device_code'' = Some device_code \<and> map_of fs ''approved_user'' \<noteq> None"

definition record_of :: "string \<Rightarrow> (string \<times> string) list \<Rightarrow> DeviceRecord" where
  "record_of device_code fs =
     \<lparr> dr_device_code = device_code,
       dr_approved_user = (let a = the (map_of fs ''approved_user'') in if a = [] then None else i32_of a),
       dr_device_id = (case map_of fs ''device_id'' of Some s \<Rightarrow> if s \<noteq> [] then i64_of s else None | None \<Rightarrow> None) \<rparr>"

lemma status_of_pair:
  "pair_stored now uc dc fs r \<Longrightarrow> devcode_status now dc r = Inr (Some (record_of dc fs))"
  by (auto simp: pair_stored_def devcode_status_def r_get_str_def r_hget_def record_of_def Let_def)

lemma hset_Inr:
  "r_hset now k kvs r = Inr r' \<Longrightarrow> \<exists>fs d. r' = r(k \<mapsto> (RHash (set_fields kvs fs), d)) \<and> alive now d"
  by (auto simp: r_hset_def r_get_def alive_def split: option.splits redis_value.splits prod.splits if_splits)

lemma create_stores:
  assumes "CHR '':'' \<notin> set uc" "devcode_create t uc dc r = Inr r'" "t \<le> now" "now < t + DEVCODE_TTL_SECS"
  shows "\<exists>fs. pair_stored now uc dc fs r' \<and> map_of fs ''approved_user'' = Some [] \<and> map_of fs ''device_id'' = Some []"
proof -
  let ?uk = "devcode_user_key uc" and ?ik = "devcode_index_key dc"
  let ?kvs = "[(''device_code'', dc), (''approved_user'', []), (''device_id'', [])]"
  obtain r1 where r1: "r_hset t ?uk ?kvs r = Inr r1"
    using assms(2) by (auto simp: devcode_create_def Let_def and_then_Inr_iff)
  obtain fs0 d where fs0: "r1 = r(?uk \<mapsto> (RHash (set_fields ?kvs fs0), d))" and d: "alive t d"
    using hset_Inr [OF r1] by blast
  obtain fs where f: "fs = set_fields ?kvs fs0" by simp
  have h: "r_hset t ?uk ?kvs r = Inr (r(?uk \<mapsto> (RHash fs, d)))" using r1 fs0 f by simp
  have fs: "map_of fs ''device_code'' = Some dc" "map_of fs ''approved_user'' = Some []" "map_of fs ''device_id'' = Some []"
    by (simp_all add: f)
  have r': "r' = r_set_ex t ?ik uc DEVCODE_TTL_SECS (r_expire t ?uk DEVCODE_TTL_SECS (r(?uk \<mapsto> (RHash fs, d))))"
    using assms(2) by (simp add: devcode_create_def h Let_def)
  have "r_get now ?ik r' = Some (RStr uc, Some (t + DEVCODE_TTL_SECS))"
    using assms(4) by (simp add: r' r_set_ex_def r_get_def alive_def)
  moreover have "r_get now ?uk r' = Some (RHash fs, Some (t + DEVCODE_TTL_SECS))"
    using assms(4) d keys_differ [OF assms(1), of dc]
    by (simp add: r' r_set_ex_def r_expire_def r_get_def alive_def)
  ultimately show ?thesis using fs by (auto simp: pair_stored_def)
qed

lemma pair_stored_unique: "pair_stored now uc dc fs r \<Longrightarrow> pair_stored now' uc dc fs' r \<Longrightarrow> fs = fs'"
  by (auto simp: pair_stored_def r_get_def split: option.splits if_splits)

text \<open>The approval keeps the deadlines of the two keys.\<close>

lemma approve_device_stores:
  assumes c: "CHR '':'' \<notin> set uc" and p: "pair_stored now uc dc fs r" and q: "pair_stored later uc dc fs r"
  shows "\<exists>r' fs'. devcode_approve_device now uc uid did r = Inr (True, r') \<and> pair_stored later uc dc fs' r'
     \<and> map_of fs' ''approved_user'' = Some (int_str uid) \<and> map_of fs' ''device_id'' = Some (int_str did)"
proof -
  let ?uk = "devcode_user_key uc"
  let ?fs = "set_fields [(''approved_user'', int_str uid), (''device_id'', int_str did)] fs"
  obtain d where d: "r_get now ?uk r = Some (RHash fs, d)" using p by (auto simp: pair_stored_def)
  obtain d' where d': "r_get later ?uk r = Some (RHash fs, d')" using q by (auto simp: pair_stored_def)
  have live: "alive later d" using d d' by (auto simp: r_get_def split: option.splits prod.splits if_splits)
  have "devcode_approve_device now uc uid did r = Inr (True, r(?uk \<mapsto> (RHash ?fs, d)))"
    using d by (simp add: devcode_approve_device_def r_exists_def r_hset_def)
  moreover have "pair_stored later uc dc ?fs (r(?uk \<mapsto> (RHash ?fs, d)))"
    using q live keys_differ [OF c, of dc] by (auto simp: pair_stored_def r_get_upd set_fields_other simp del: set_fields.simps)
       (simp_all)
  moreover have "map_of ?fs ''approved_user'' = Some (int_str uid)" "map_of ?fs ''device_id'' = Some (int_str did)"
    by simp_all
  ultimately show ?thesis by blast
qed

lemma consume_removes:
  assumes "devcode_consume now dc r = Inr (b, r')"
  shows "r' (devcode_index_key dc) = None" and "b \<longleftrightarrow> r_exists now (devcode_index_key dc) r"
  using assms by (auto simp: devcode_consume_def Let_def and_then_Inr_iff r_del_def split: option.splits if_splits)

lemma gone_code:
  assumes "r (devcode_index_key dc) = None"
  shows "devcode_status now dc r = Inr None" "devcode_consume now dc r = Inr (False, r)"
  using assms by (simp_all add: devcode_status_def devcode_consume_def r_get_str_def r_get_def r_del_def r_exists_def Let_def fun_upd_idem)

lemma consume_pair: "pair_stored now uc dc fs r \<Longrightarrow> \<exists>r'. devcode_consume now dc r = Inr (True, r')"
  by (auto simp: pair_stored_def devcode_consume_def r_get_str_def r_del_def r_exists_def Let_def)

section \<open>Properties\<close>

text \<open>
  A fresh pair of codes is pending until its user code is approved; the poll then sees the user and
  the device it was approved for; the first poll that consumes the code wins and from then on the code
  is gone for good, for the status and for every further attempt; and it is gone an hour after it was made.
\<close>

theorem device_code_lifecycle:
  assumes uc: "CHR '':'' \<notin> set uc" and made: "devcode_create t uc dc r = Inr r1"
    and time: "t \<le> now" "now < t + DEVCODE_TTL_SECS"
    and uid: "- 2147483648 \<le> uid" "uid \<le> 2147483647" and did: "- i64_max - 1 \<le> did" "did \<le> i64_max"
  shows "devcode_status now dc r1 = Inr (Some \<lparr> dr_device_code = dc, dr_approved_user = None, dr_device_id = None \<rparr>)
    \<and> (\<forall>later. t + DEVCODE_TTL_SECS \<le> later \<longrightarrow> devcode_status later dc r1 = Inr None)
    \<and> (\<exists>r2. devcode_approve_device now uc uid did r1 = Inr (True, r2)
        \<and> devcode_status now dc r2 = Inr (Some \<lparr> dr_device_code = dc, dr_approved_user = Some uid, dr_device_id = Some did \<rparr>)
        \<and> (\<exists>r3. devcode_consume now dc r2 = Inr (True, r3)
             \<and> (\<forall>later. devcode_status later dc r3 = Inr None \<and> devcode_consume later dc r3 = Inr (False, r3))))"
proof -
  obtain fs where p: "pair_stored now uc dc fs r1" and fs: "map_of fs ''approved_user'' = Some []" "map_of fs ''device_id'' = Some []"
    using create_stores [OF uc made time] by blast
  have s1: "devcode_status now dc r1 = Inr (Some \<lparr> dr_device_code = dc, dr_approved_user = None, dr_device_id = None \<rparr>)"
    using status_of_pair [OF p] by (simp add: record_of_def fs Let_def)
  have ik: "r1 (devcode_index_key dc) = Some (RStr uc, Some (t + DEVCODE_TTL_SECS))"
    using made by (auto simp: devcode_create_def Let_def and_then_Inr_iff r_set_ex_def)
  have old: "devcode_status later dc r1 = Inr None" if "t + DEVCODE_TTL_SECS \<le> later" for later
    using that by (simp add: devcode_status_def r_get_str_def r_get_def ik alive_def)
  obtain r2 fs2 where a: "devcode_approve_device now uc uid did r1 = Inr (True, r2)" and p2: "pair_stored now uc dc fs2 r2"
    and fs2: "map_of fs2 ''approved_user'' = Some (int_str uid)" "map_of fs2 ''device_id'' = Some (int_str did)"
    using approve_device_stores [OF uc p p] by blast
  have ne: "int_str i \<noteq> []" for i by (simp add: int_str_def)
  have s2: "devcode_status now dc r2 = Inr (Some \<lparr> dr_device_code = dc, dr_approved_user = Some uid, dr_device_id = Some did \<rparr>)"
    using status_of_pair [OF p2] uid did by (simp add: record_of_def fs2 Let_def ne i32_of_def i64_of_def str_simps)
  obtain r3 where c: "devcode_consume now dc r2 = Inr (True, r3)" using consume_pair [OF p2] by blast
  show ?thesis using s1 old a s2 c gone_code [where r = r3 and dc = dc] consume_removes(1) [OF c] by blast
qed

definition demo_codes :: Redis where
  "demo_codes = (case devcode_create 100 ''ABCD2345'' ''f00d'' (\<lambda>_. None) of Inr r \<Rightarrow> r | Inl _ \<Rightarrow> (\<lambda>_. None))"

theorem device_code_lifecycle_witness:
  "\<exists>r2 r3. devcode_approve_device 200 ''ABCD2345'' 7 9 demo_codes = Inr (True, r2)
     \<and> devcode_consume 200 ''f00d'' r2 = Inr (True, r3) \<and> devcode_consume 201 ''f00d'' r3 = Inr (False, r3)"
proof -
  have made: "devcode_create 100 ''ABCD2345'' ''f00d'' (\<lambda>_. None) = Inr demo_codes"
    by (simp add: demo_codes_def devcode_create_def r_hset_def r_get_def Let_def)
  show ?thesis
    using device_code_lifecycle [OF _ made, of 200 7 9] by (fastforce simp: DEVCODE_TTL_SECS_def i64_max_def)
qed

text \<open>
  Approving or consuming one code does not change what a poll for another device code sees, as long
  as the two were issued with different user codes and neither key is the other's.
\<close>

theorem device_codes_independent:
  assumes "CHR '':'' \<notin> set uc" "CHR '':'' \<notin> set uc'" and "uc \<noteq> uc'" "dc \<noteq> dc'"
    and "pair_stored now uc dc fs r" "pair_stored now uc' dc' fs' r"
  shows "(\<forall>b r'. devcode_approve now uc' uid r = Inr (b, r') \<longrightarrow> devcode_status now dc r' = devcode_status now dc r)
    \<and> (\<forall>b r'. devcode_approve_device now uc' uid did r = Inr (b, r') \<longrightarrow> devcode_status now dc r' = devcode_status now dc r)
    \<and> (\<forall>b r'. devcode_consume now dc' r = Inr (b, r') \<longrightarrow> devcode_status now dc r' = devcode_status now dc r)"
proof -
  have same: "devcode_status now dc r' = devcode_status now dc r"
    if "r' (devcode_index_key dc) = r (devcode_index_key dc)" "r' (devcode_user_key uc) = r (devcode_user_key uc)" for r'
  proof -
    have "pair_stored now uc dc fs r'" using assms(5) that by (simp add: pair_stored_def r_get_def)
    then show ?thesis using status_of_pair [OF assms(5)] status_of_pair by metis
  qed
  note k = keys_differ [OF assms(1)] keys_differ [OF assms(2)] keys_differ [OF assms(1), symmetric] keys_differ [OF assms(2), symmetric]
  have ap: "r' = r \<or> (\<exists>v. r' = r(devcode_user_key uc' \<mapsto> v))"
    if "devcode_approve now uc' uid r = Inr (b, r')" for b r'
    using that by (auto simp: devcode_approve_def Let_def and_then_Inr_iff dest!: hset_Inr split: if_splits)
  have ad: "r' = r \<or> (\<exists>v. r' = r(devcode_user_key uc' \<mapsto> v))"
    if "devcode_approve_device now uc' uid did r = Inr (b, r')" for b r'
    using that by (auto simp: devcode_approve_device_def Let_def and_then_Inr_iff dest!: hset_Inr split: if_splits)
  have co: "r' = r(devcode_index_key dc' := None, devcode_user_key uc' := None)"
    if "devcode_consume now dc' r = Inr (b, r')" for b r'
    using that assms(6) by (auto simp: devcode_consume_def Let_def r_get_str_def pair_stored_def r_del_def)
  have up: "devcode_status now dc (r(devcode_user_key uc' \<mapsto> v)) = devcode_status now dc r" for v
    by (rule same) (use k assms(3) in simp_all)
  have de: "devcode_status now dc (r(devcode_index_key dc' := None, devcode_user_key uc' := None)) = devcode_status now dc r"
    by (rule same) (use k assms(3,4) in simp_all)
  show ?thesis
  proof (intro conjI allI impI)
    fix b r' assume "devcode_approve now uc' uid r = Inr (b, r')"
    then show "devcode_status now dc r' = devcode_status now dc r" using ap [of b r'] up by auto
  next
    fix b r' assume "devcode_approve_device now uc' uid did r = Inr (b, r')"
    then show "devcode_status now dc r' = devcode_status now dc r" using ad [of b r'] up by auto
  next
    fix b r' assume "devcode_consume now dc' r = Inr (b, r')"
    then show "devcode_status now dc r' = devcode_status now dc r" using co [of b r'] de by simp
  qed
qed

theorem device_codes_independent_witness:
  "\<exists>r fs r'. pair_stored 200 ''ABCD2345'' ''f00d'' fs r \<and> devcode_consume 200 ''beef'' r = Inr (True, r')
     \<and> devcode_status 200 ''f00d'' r' = devcode_status 200 ''f00d'' r"
proof -
  let ?fs = "\<lambda>dc. [(''device_code'', dc), (''approved_user'', [])]"
  obtain r :: Redis where r: "r = (\<lambda>_. None)(devcode_index_key ''f00d'' \<mapsto> (RStr ''ABCD2345'', None),
     devcode_user_key ''ABCD2345'' \<mapsto> (RHash (?fs ''f00d''), None),
     devcode_index_key ''beef'' \<mapsto> (RStr ''WXYZ6789'', None), devcode_user_key ''WXYZ6789'' \<mapsto> (RHash (?fs ''beef''), None))"
    by simp
  have p: "pair_stored 200 ''ABCD2345'' ''f00d'' (?fs ''f00d'') r" "pair_stored 200 ''WXYZ6789'' ''beef'' (?fs ''beef'') r"
    by (simp_all add: r pair_stored_def r_get_def alive_def devcode_index_key_def devcode_user_key_def)
  obtain r' where c: "devcode_consume 200 ''beef'' r = Inr (True, r')" using consume_pair [OF p(2)] by blast
  have "\<forall>b r'. devcode_consume 200 ''beef'' r = Inr (b, r') \<longrightarrow> devcode_status 200 ''f00d'' r' = devcode_status 200 ''f00d'' r"
    by (rule device_codes_independent [OF _ _ _ _ p, THEN conjunct2, THEN conjunct2]) simp_all
  then show ?thesis using p(1) c by blast
qed

end
