(* ===== verification/Tunnels.thy ===== *)
theory Tunnels
  imports Backend
begin

text \<open>
  The tunnel API (\<^verbatim>\<open>natforge-backend/src/handlers/tunnels.rs\<close>): route policy, the unfolding of stored
  routes into token claims, reservation, the configuration a device agent pulls, and the edits of a
  tunnel by its owner. A handler returns its answer or an HTTP error together with the new state;
  effects that happened before an error stay.
\<close>

section \<open>Requests and answers\<close>

definition jopt :: "string option \<Rightarrow> Json" where
  "jopt x = (case x of Some s \<Rightarrow> JStr s | None \<Rightarrow> JNull)"

record RequestedRoute =
  rq_mode :: RouteMode
  rq_local_port :: u16
  rq_label :: "string option"

record RequestTunnelReq =
  rt_req_routes :: "RequestedRoute list"
  rt_req_subdomain :: "string option"
  rt_req_node_id :: "string option"
  rt_req_device_id :: "int option"
  rt_req_create_new :: bool

record ReservedRoute =
  rr_route_id :: u16
  rr_mode :: string
  rr_local_port :: u16
  rr_public_endpoint :: string
  rr_label :: "string option"

record TunnelRequestRes =
  tr_tunnel_id :: int
  tr_subdomain :: string
  tr_full_host :: string
  tr_tunnel_token :: string
  tr_routes :: "ReservedRoute list"
  tr_status :: string
  tr_control_endpoint :: string
  tr_region :: "string option"
  tr_node_id :: string
  tr_control_cert_fingerprint :: "string option"
  tr_custom_domain :: "string option"

section \<open>Routes\<close>

definition parse_kind :: "string \<Rightarrow> RouteMode" where
  "parse_kind kind =
     (if kind = ''http'' then Http else if kind = ''https'' then Https else if kind = ''udp'' then Udp
      else if kind = ''both'' then Both else Tcp)"

record RouteCounts =
  n_http :: nat
  n_https :: nat
  n_tcp :: nat
  n_udp :: nat

definition count_mode :: "RouteMode \<Rightarrow> RouteCounts \<Rightarrow> RouteCounts" where
  "count_mode m c =
     (case m of
        Http \<Rightarrow> c\<lparr>n_http := n_http c + 1\<rparr>
      | Https \<Rightarrow> c\<lparr>n_https := n_https c + 1\<rparr>
      | Tcp \<Rightarrow> c\<lparr>n_tcp := n_tcp c + 1\<rparr>
      | Udp \<Rightarrow> c\<lparr>n_udp := n_udp c + 1\<rparr>
      | Both \<Rightarrow> c\<lparr>n_tcp := n_tcp c + 1, n_udp := n_udp c + 1\<rparr>)"

fun policy_loop :: "u16 list \<Rightarrow> RouteCounts \<Rightarrow> RequestedRoute list \<Rightarrow> string + RouteCounts" where
  "policy_loop dedicated c [] = Inr c"
| "policy_loop dedicated c (r # rs) =
     (if \<not> is_host_routed (rq_mode r) \<and> rq_local_port r \<in> set dedicated
      then Inl (''local port '' @ nat_str (unat (rq_local_port r))
                @ '' is used by more than one route; pick Both to expose one port over TCP and UDP'')
      else policy_loop (if is_host_routed (rq_mode r) then dedicated else dedicated @ [rq_local_port r])
             (count_mode (rq_mode r) c) rs)"

definition no_routes :: RouteCounts where
  "no_routes = \<lparr> n_http = 0, n_https = 0, n_tcp = 0, n_udp = 0 \<rparr>"

definition check_route_policy :: "RequestedRoute list \<Rightarrow> string + unit" where
  "check_route_policy routes =
     and_then (policy_loop [] no_routes routes) (\<lambda>c.
       if 1 < n_http c \<or> 1 < n_https c \<or> 2 < n_tcp c \<or> 2 < n_udp c
       then Inl ''at most 1 http, 1 https, 2 tcp and 2 udp routes per service''
       else Inr ())"

definition endpoint :: "RouteMode \<Rightarrow> string \<Rightarrow> string \<Rightarrow> int option \<Rightarrow> string" where
  "endpoint mode sub domain pp =
     (case mode of
        Http \<Rightarrow> ''http://'' @ sub @ ''.'' @ domain
      | Https \<Rightarrow> ''https://'' @ sub @ ''.'' @ domain
      | _ \<Rightarrow> sub @ ''.'' @ domain @ '':'' @ int_str (coalesce pp 0))"

definition BOTH_UDP_ROUTE_OFFSET :: u16 where
  "BOTH_UDP_ROUTE_OFFSET = 10000"

unbundle bit_operations_syntax

definition transport_bits :: "string \<Rightarrow> u8" where
  "transport_bits kind =
     (if kind = ''tcp'' then 1 else if kind = ''udp'' then 2 else if kind = ''both'' then 3 else 0)"

definition clash :: "(string \<times> int) list \<Rightarrow> RequestedRoute \<Rightarrow> bool" where
  "clash taken r \<longleftrightarrow>
     (\<exists>(k, p) \<in> set taken. p = int (unat (rq_local_port r))
        \<and> transport_bits k AND transport_bits (as_str (rq_mode r)) \<noteq> 0)"

definition conflict_check :: "(string \<times> int) list \<Rightarrow> RequestedRoute list \<Rightarrow> http_error + unit" where
  "conflict_check taken routes =
     (case find (clash taken) routes of
        None \<Rightarrow> Inr ()
      | Some r \<Rightarrow> Inl (409, as_str (rq_mode r) @ '':'' @ nat_str (unat (rq_local_port r))
                        @ '' is already used by another service on this device''))"

text \<open>A stored route as the claims and views it stands for; a \<^verbatim>\<open>both\<close> route has two halves.\<close>

definition expand_both :: "RouteRow \<Rightarrow> string \<Rightarrow> string \<Rightarrow> RouteClaim list \<times> ReservedRoute list" where
  "expand_both r sub host =
     (let port = map_option word_of_int (r_public_port r);
          ep = endpoint Tcp sub host (r_public_port r);
          tcp_id = word_of_int (r_route_id r) :: u16;
          udp_id = tcp_id + BOTH_UDP_ROUTE_OFFSET;
          claim = (\<lambda>rid m srv. \<lparr> rc_route_id = rid, rc_mode = m, rc_host = None, rc_public_port = port,
                     rc_srv_service = srv \<rparr>);
          view = (\<lambda>rid m. \<lparr> rr_route_id = rid, rr_mode = m, rr_local_port = word_of_int (r_local_port r),
                     rr_public_endpoint = ep, rr_label = r_label r \<rparr>)
      in ([claim tcp_id Tcp (r_srv_service r), claim udp_id Udp None], [view tcp_id ''tcp'', view udp_id ''udp'']))"

definition expand_route :: "RouteRow \<Rightarrow> string \<Rightarrow> string \<Rightarrow> RouteClaim list \<times> ReservedRoute list" where
  "expand_route r sub host =
     (if parse_kind (r_kind r) = Both then expand_both r sub host
      else let mode = parse_kind (r_kind r) in
        ([\<lparr> rc_route_id = word_of_int (r_route_id r), rc_mode = mode,
            rc_host = (if is_host_routed mode then Some (sub @ ''.'' @ host) else None),
            rc_public_port = (if is_host_routed mode then None else map_option word_of_int (r_public_port r)),
            rc_srv_service = (if is_host_routed mode then None else r_srv_service r) \<rparr>],
         [\<lparr> rr_route_id = word_of_int (r_route_id r), rr_mode = r_kind r, rr_local_port = word_of_int (r_local_port r),
            rr_public_endpoint = endpoint mode sub host (r_public_port r), rr_label = r_label r \<rparr>]))"

definition expand_routes :: "RouteRow list \<Rightarrow> string \<Rightarrow> string \<Rightarrow> RouteClaim list \<times> ReservedRoute list" where
  "expand_routes rs sub host =
     (concat (map (\<lambda>r. fst (expand_route r sub host)) rs), concat (map (\<lambda>r. snd (expand_route r sub host)) rs))"

section \<open>Reservation\<close>

definition en_dash :: string where
  "en_dash = [CHR 0xE2, CHR 0x80, CHR 0x93]"

definition choose_node :: "Env \<Rightarrow> string option \<Rightarrow> DB \<Rightarrow> http_error + NodeRow" where
  "choose_node env wanted_node db =
     (case wanted_node of
        Some nid \<Rightarrow>
          (case get_node nid db of
             Some n \<Rightarrow> if n_active n then Inr n else Inl (400, ''unknown or inactive region'')
           | None \<Rightarrow> Inl (400, ''unknown or inactive region''))
      | None \<Rightarrow>
          (case default_node (e_now env) db of
             Some n \<Rightarrow> Inr n
           | None \<Rightarrow> Inl (503, ''no region/node is available yet'')))"

definition device_check :: "AuthUser \<Rightarrow> int option \<Rightarrow> RequestedRoute list \<Rightarrow> DB \<Rightarrow> http_error + unit" where
  "device_check user device routes db =
     (case device of
        None \<Rightarrow> Inr ()
      | Some did \<Rightarrow>
          if map_option d_owner_id (device_by_id did db) \<noteq> Some (au_user_id user) then Inl (403, ''not your device'')
          else conflict_check (device_routes_excluding did 0 db) routes)"

definition reserve_error :: "Env \<Rightarrow> ReserveError \<Rightarrow> http_error" where
  "reserve_error env e =
     (case e of
        LimitReached n \<Rightarrow> (403, ''tunnel limit reached ('' @ int_str n @ '')'')
      | PortExhausted \<Rightarrow> (503, ''public TCP port pool exhausted'')
      | BadSubdomain \<Rightarrow>
          (400, ''invalid subdomain: use 3'' @ en_dash @ ''30 chars of a'' @ en_dash @ ''z, 0'' @ en_dash @ ''9 and ''
                @ quoted ''-'')
      | SubdomainTaken s \<Rightarrow> (409, ''subdomain '' @ quoted s @ '' is already taken'')
      | RouteSetExists sub \<Rightarrow> (409, ''a service host already exposes those exact ports ('' @ sub @ '')'')
      | DbFault f \<Rightarrow> db_err (e_fault env f)
      | NoFreeSubdomain \<Rightarrow> db_err ''could not allocate a unique subdomain after several attempts'')"

definition to_requests :: "RequestedRoute list \<Rightarrow> request list" where
  "to_requests routes = map (\<lambda>r. (rq_mode r, rq_local_port r, rq_label r)) routes"

definition request_checks :: "Env \<Rightarrow> AuthUser \<Rightarrow> RequestTunnelReq \<Rightarrow> DB \<Rightarrow> http_error + NodeRow" where
  "request_checks env user req db =
     (if is_user_banned (au_user_id user) db then Inl (403, ''this account is banned'')
      else if rt_req_routes req = [] then Inl (400, ''at least one route is required'')
      else case check_route_policy (rt_req_routes req) of
        Inl e \<Rightarrow> Inl (400, e)
      | Inr _ \<Rightarrow>
          and_then (choose_node env (rt_req_node_id req) db) (\<lambda>node.
          and_then (device_check user (rt_req_device_id req) (rt_req_routes req) db) (\<lambda>_. Inr node)))"

definition request_answer :: "Env \<Rightarrow> AuthUser \<Rightarrow> NodeRow \<Rightarrow> ReservedTunnel \<Rightarrow> DB \<Rightarrow> TunnelRequestRes" where
  "request_answer env user node rt db =
     (let host_node = coalesce (get_node (rt_node_id rt) db) node;
          host = rt_public_host rt;
          (claims, views) = expand_routes (rt_routes rt) (rt_subdomain rt) host
      in \<lparr> tr_tunnel_id = rt_tunnel_id rt, tr_subdomain = rt_subdomain rt,
           tr_full_host = rt_subdomain rt @ ''.'' @ host,
           tr_tunnel_token = issue_tunnel_token env (au_user_id user) (rt_tunnel_id rt) (rt_subdomain rt) claims
                               (rt_custom_domain rt),
           tr_routes = views, tr_status = (if rt_reused rt then ''reused'' else ''reserved''),
           tr_control_endpoint = n_control_endpoint host_node, tr_region = n_region host_node,
           tr_node_id = n_node_id host_node, tr_control_cert_fingerprint = n_control_cert_fp host_node,
           tr_custom_domain = rt_custom_domain rt \<rparr>)"

definition request_tunnel ::
    "Env \<Rightarrow> locks \<Rightarrow> (nat \<times> nat \<times> nat \<times> nat \<times> nat) list \<Rightarrow> AuthUser \<Rightarrow> RequestTunnelReq \<Rightarrow> TunnelRequestRes handler" where
  "request_tunnel env locked draws user req s =
     (let db = app_db s in
      case request_checks env user req db of
        Inl e \<Rightarrow> (Inl e, s)
      | Inr node \<Rightarrow>
          (case reserve_tunnel (e_lower env) locked draws (e_now env) (au_user_id user) (n_node_id node)
                  (n_public_host node) (to_requests (rt_req_routes req)) (trimmed (rt_req_subdomain req))
                  (user_max_tunnels (au_user_id user) db) (\<not> rt_req_create_new req) (rt_req_device_id req) db of
             Inl e \<Rightarrow> (Inl (reserve_error env e), s)
           | Inr (rt, db') \<Rightarrow> (Inr (request_answer env user node rt db'), s\<lparr>app_db := db'\<rparr>)))"

section \<open>The configuration of a device\<close>

definition build_reservation :: "Env \<Rightarrow> int \<Rightarrow> Tunnel \<Rightarrow> RouteRow list \<Rightarrow> NodeRow \<Rightarrow> string option \<Rightarrow> TunnelRequestRes" where
  "build_reservation env owner t routes node custom =
     (let host = t_public_host t;
          (claims, views) = expand_routes routes (t_subdomain t) host
      in \<lparr> tr_tunnel_id = t_id t, tr_subdomain = t_subdomain t, tr_full_host = t_subdomain t @ ''.'' @ host,
           tr_tunnel_token = issue_tunnel_token env owner (t_id t) (t_subdomain t) claims custom,
           tr_routes = views, tr_status = ''reserved'', tr_control_endpoint = n_control_endpoint node,
           tr_region = n_region node, tr_node_id = n_node_id node,
           tr_control_cert_fingerprint = n_control_cert_fp node, tr_custom_domain = custom \<rparr>)"

fun config_entries :: "Env \<Rightarrow> int \<Rightarrow> DB \<Rightarrow> Tunnel list \<Rightarrow> TunnelRequestRes list" where
  "config_entries env owner db [] = []"
| "config_entries env owner db (t # ts) =
     (if t_status t = ''stopped'' then config_entries env owner db ts
      else case Option.bind (t_node_id t) (\<lambda>nid. get_node nid db) of
        None \<Rightarrow> config_entries env owner db ts
      | Some node \<Rightarrow>
          let routes = routes_for_tunnel db (t_id t) in
          if routes = [] then config_entries env owner db ts
          else build_reservation env owner t routes node (tunnel_custom_domain (t_id t) db)
                 # config_entries env owner db ts)"

definition device_config :: "Env \<Rightarrow> DeviceAuth \<Rightarrow> TunnelRequestRes list handler" where
  "device_config env dev s =
     (let db = touch_device_online (e_now env) (da_device_id dev) (app_db s)
      in (Inr (config_entries env (da_owner_id dev) db (device_service_tunnels (da_device_id dev) db)),
          s\<lparr>app_db := db\<rparr>))"

end
