(* ===== verification/TunnelEdits.thy ===== *)
theory TunnelEdits
  imports Tunnels
begin

text \<open>
  The rest of \<^verbatim>\<open>handlers/tunnels.rs\<close>: authorization, the per-tunnel reads, and every edit of a tunnel by
  its owner or an admin, with the stop signals sent to the node that hosts it.
\<close>

section \<open>Authorization and signals\<close>

definition may_manage :: "AuthUser \<Rightarrow> int \<Rightarrow> bool" where
  "may_manage user owner \<longleftrightarrow> owner = au_user_id user \<or> au_role user = ''admin''"

definition authorize_tunnel :: "AuthUser \<Rightarrow> int \<Rightarrow> DB \<Rightarrow> http_error + int" where
  "authorize_tunnel user tid db =
     (case tunnel_owner tid db of
        None \<Rightarrow> Inl (404, ''no such tunnel'')
      | Some owner \<Rightarrow> if \<not> may_manage user owner then Inl (403, ''not your tunnel'') else Inr owner)"

definition authorize_tunnel_owner :: "AuthUser \<Rightarrow> int \<Rightarrow> DB \<Rightarrow> http_error + string \<times> string option" where
  "authorize_tunnel_owner user tid db =
     (case tunnel_owner_subdomain tid db of
        None \<Rightarrow> Inl (404, ''no such tunnel'')
      | Some (owner, sub, node) \<Rightarrow>
          if \<not> may_manage user owner then Inl (403, ''not your tunnel'') else Inr (sub, node))"

definition node_base :: "Env \<Rightarrow> string option \<Rightarrow> DB \<Rightarrow> string" where
  "node_base env node db =
     (case Option.bind node (\<lambda>nid. get_node nid db) of
        Some n \<Rightarrow> n_internal_url n
      | None \<Rightarrow> bc_core_url (e_cfg env))"

definition signal_node_stop :: "Env \<Rightarrow> string \<Rightarrow> string option \<Rightarrow> App \<Rightarrow> App" where
  "signal_node_stop env sub node s =
     s\<lparr>app_signals := app_signals s @ [node_base env node (app_db s) @ ''/internal/tunnels/'' @ sub @ ''/stop'']\<rparr>"

definition signal_if_online :: "Env \<Rightarrow> int \<Rightarrow> string \<Rightarrow> string option \<Rightarrow> App \<Rightarrow> App" where
  "signal_if_online env tid sub node s =
     (if tunnel_status tid (app_db s) = Some ''online'' then signal_node_stop env sub node s else s)"

text \<open>Run an action for an authorized caller.\<close>

definition with_tunnel :: "AuthUser \<Rightarrow> int \<Rightarrow> (string \<Rightarrow> string option \<Rightarrow> 'a handler) \<Rightarrow> 'a handler" where
  "with_tunnel user tid act s =
     (case authorize_tunnel_owner user tid (app_db s) of
        Inl e \<Rightarrow> (Inl e, s)
      | Inr (sub, node) \<Rightarrow> act sub node s)"

section \<open>Reads\<close>

definition get_tunnels_bandwidth :: "AuthUser \<Rightarrow> int \<Rightarrow> DB \<Rightarrow> http_error + (int \<times> int \<times> int \<times> BandwidthRow list)" where
  "get_tunnels_bandwidth user tid db =
     and_then (authorize_tunnel user tid db) (\<lambda>_.
       let series = bandwidth_series tid 100 db;
           (bytes_in, bytes_out) = (case series of b # _ \<Rightarrow> (bw_bytes_in b, bw_bytes_out b) | [] \<Rightarrow> (0, 0))
       in Inr (bytes_in, bytes_out, bytes_in + bytes_out, rev series))"

definition tunnel_logs :: "AuthUser \<Rightarrow> int \<Rightarrow> DB \<Rightarrow> http_error + LogRow list" where
  "tunnel_logs user tid db =
     and_then (authorize_tunnel user tid db) (\<lambda>_. Inr (recent_conn_logs tid 20 db))"

definition get_tunnel_region_blocks :: "AuthUser \<Rightarrow> int \<Rightarrow> DB \<Rightarrow> http_error + string list" where
  "get_tunnel_region_blocks user tid db =
     and_then (authorize_tunnel user tid db) (\<lambda>_. Inr (tunnel_region_blocks tid db))"

definition list_regions :: "DB \<Rightarrow> (string \<times> string \<times> string option) list" where
  "list_regions db = map (\<lambda>n. (n_node_id n, n_name n, n_region n)) (list_nodes True db)"

section \<open>Blocked countries\<close>

definition normal_codes :: "Env \<Rightarrow> string list \<Rightarrow> string list" where
  "normal_codes env codes =
     filter (\<lambda>c. length c = 2 \<and> list_all is_ascii_alphabetic c) (map (\<lambda>c. e_upper env (trim c)) codes)"

definition put_tunnel_region_blocks :: "Env \<Rightarrow> AuthUser \<Rightarrow> int \<Rightarrow> string list \<Rightarrow> Json handler" where
  "put_tunnel_region_blocks env user tid country_codes s =
     (case authorize_tunnel user tid (app_db s) of
        Inl e \<Rightarrow> (Inl e, s)
      | Inr _ \<Rightarrow>
          let codes = remdups_adj (sort (normal_codes env country_codes)) in
          if 100 < length codes then (Inl (400, ''too many countries (max 100)''), s)
          else case set_tunnel_region_blocks tid codes (app_db s) of
            Inl f \<Rightarrow> (Inl (err (e_fault env f)), s)
          | Inr (_, db) \<Rightarrow>
              (Inr (JObj [(''status'', JStr ''updated''), (''country_codes'', JArr (map JStr codes))]), s\<lparr>app_db := db\<rparr>))"

section \<open>Custom domains\<close>

definition label_ok :: "string \<Rightarrow> bool" where
  "label_ok l \<longleftrightarrow>
     l \<noteq> [] \<and> length l \<le> 63 \<and> list_all (\<lambda>c. is_ascii_alphanumeric c \<or> c = CHR ''-'') l
     \<and> hd l \<noteq> CHR ''-'' \<and> last l \<noteq> CHR ''-''"

definition valid_custom_domain :: "string \<Rightarrow> string \<Rightarrow> bool" where
  "valid_custom_domain d apex \<longleftrightarrow>
     (if \<not> (4 \<le> length d \<and> length d \<le> 253) then False
      else if CHR ''/'' \<in> set d \<or> CHR '':'' \<in> set d \<or> CHR '' '' \<in> set d \<or> CHR ''.'' \<notin> set d then False
      else if d = apex \<or> suffix (''.'' @ apex) d then False
      else list_all label_ok (split_on CHR ''.'' d))"

definition set_domain_error :: "Env \<Rightarrow> fault \<Rightarrow> http_error" where
  "set_domain_error env f =
     (if f = UniqueViolation ''tunnels_custom_domain_uq'' then (409, ''that domain is already claimed'')
      else (500, e_fault env f))"

definition put_custom_domain :: "Env \<Rightarrow> AuthUser \<Rightarrow> int \<Rightarrow> string \<Rightarrow> Json handler" where
  "put_custom_domain env user tid raw =
     with_tunnel user tid (\<lambda>sub node s.
       let domain = e_lower env (trim_end_matches CHR ''.'' (trim raw)) in
       if \<not> valid_custom_domain domain (bc_domain (e_cfg env))
       then (Inl (400, ''invalid domain: use a fully-qualified hostname you own, not a natforge.com name''), s)
       else case set_custom_domain tid (Some domain) (app_db s) of
         Inl f \<Rightarrow> (Inl (set_domain_error env f), s)
       | Inr (_, db) \<Rightarrow>
           let s = signal_if_online env tid sub node (s\<lparr>app_db := db\<rparr>);
               edge_host = (case Option.bind node (\<lambda>nid. get_node nid db) of
                              Some n \<Rightarrow> n_public_host n | None \<Rightarrow> bc_domain (e_cfg env))
           in (Inr (JObj [(''status'', JStr ''custom_domain_set''), (''domain'', JStr domain),
                          (''cname_target'', JStr (''edge.'' @ edge_host))]), s))"

definition clear_custom_domain :: "Env \<Rightarrow> AuthUser \<Rightarrow> int \<Rightarrow> Json handler" where
  "clear_custom_domain env user tid =
     with_tunnel user tid (\<lambda>sub node s.
       case set_custom_domain tid None (app_db s) of
         Inl f \<Rightarrow> (Inl (err (e_fault env f)), s)
       | Inr (_, db) \<Rightarrow>
           (Inr (JObj [(''status'', JStr ''custom_domain_cleared'')]),
            signal_if_online env tid sub node (s\<lparr>app_db := db\<rparr>)))"

section \<open>Migration\<close>

definition migrate_error :: "Env \<Rightarrow> ReserveError \<Rightarrow> http_error" where
  "migrate_error env e =
     (case e of
        PortExhausted \<Rightarrow> (503, ''the target region'' @ [CHR 0x27] @ ''s port pool is full'')
      | DbFault f \<Rightarrow> db_err (e_fault env f)
      | _ \<Rightarrow> (500, ''migration failed''))"

definition post_migrate :: "Env \<Rightarrow> locks \<Rightarrow> AuthUser \<Rightarrow> int \<Rightarrow> string \<Rightarrow> Json handler" where
  "post_migrate env locked user tid wanted_node =
     with_tunnel user tid (\<lambda>sub old_node s.
       case get_node (trim wanted_node) (app_db s) of
         None \<Rightarrow> (Inl (400, ''unknown or inactive region''), s)
       | Some target \<Rightarrow>
           if \<not> n_active target then (Inl (400, ''unknown or inactive region''), s)
           else if old_node = Some (n_node_id target) then (Inl (400, ''tunnel is already on that region''), s)
           else case migrate_tunnel locked tid (n_node_id target) (n_public_host target) (app_db s) of
             Inl e \<Rightarrow> (Inl (migrate_error env e), s)
           | Inr db \<Rightarrow>
               (Inr (JObj [(''status'', JStr ''migrated''), (''tunnel_id'', JInt tid),
                           (''node_id'', JStr (n_node_id target)), (''region'', jopt (n_region target))]),
                signal_node_stop env sub old_node (s\<lparr>app_db := db\<rparr>)))"

section \<open>Delete, stop, start\<close>

definition delete_tunnel_handler :: "Env \<Rightarrow> AuthUser \<Rightarrow> int \<Rightarrow> Json handler" where
  "delete_tunnel_handler env user tid =
     with_tunnel user tid (\<lambda>sub node s.
       let s = signal_node_stop env sub node s in
       case delete_tunnel tid (app_db s) of
         (deleted, db) \<Rightarrow>
           if deleted = 0 then (Inl (410, ''tunnel already removed''), s\<lparr>app_db := db\<rparr>)
           else (Inr (JObj [(''status'', JStr ''tunnel_deleted''), (''tunnel_id'', JInt tid)]), s\<lparr>app_db := db\<rparr>))"

definition stop_tunnel_handler :: "Env \<Rightarrow> AuthUser \<Rightarrow> int \<Rightarrow> Json handler" where
  "stop_tunnel_handler env user tid =
     with_tunnel user tid (\<lambda>sub node s.
       let s = signal_node_stop env sub node s in
       case stop_tunnel_keep (e_now env) tid (app_db s) of
         (n, db) \<Rightarrow>
           if n = 0 then (Inl (410, ''tunnel already removed''), s\<lparr>app_db := db\<rparr>)
           else (Inr (JObj [(''status'', JStr ''tunnel_stopped''), (''tunnel_id'', JInt tid)]), s\<lparr>app_db := db\<rparr>))"

definition start_tunnel_handler :: "AuthUser \<Rightarrow> int \<Rightarrow> Json handler" where
  "start_tunnel_handler user tid =
     with_tunnel user tid (\<lambda>sub node s.
       case start_tunnel_keep tid (app_db s) of
         (n, db) \<Rightarrow>
           if n = 0 then (Inl (409, ''service host is not paused''), s\<lparr>app_db := db\<rparr>)
           else (Inr (JObj [(''status'', JStr ''tunnel_started''), (''tunnel_id'', JInt tid)]), s\<lparr>app_db := db\<rparr>))"

section \<open>SRV labels\<close>

definition srv_label :: "string option \<Rightarrow> string option" where
  "srv_label service =
     (case service of
        None \<Rightarrow> None
      | Some raw \<Rightarrow>
          let lowered = to_ascii_lowercase (trim_start_matches CHR ''_'' (trim raw));
              normalized = take 30 (filter (\<lambda>c. is_ascii_alphanumeric c \<or> c = CHR ''-'') lowered)
          in if normalized = [] then None else Some normalized)"

definition post_route_srv :: "Env \<Rightarrow> AuthUser \<Rightarrow> int \<Rightarrow> int \<Rightarrow> string option \<Rightarrow> Json handler" where
  "post_route_srv env user tid rid service_raw =
     with_tunnel user tid (\<lambda>sub node s.
       let service = srv_label service_raw in
       case set_route_srv tid (to_i16 rid) service (app_db s) of
         (n, db) \<Rightarrow>
           if n = 0 then (Inl (404, ''route not found''), s\<lparr>app_db := db\<rparr>)
           else (Inr (JObj [(''status'', JStr ''route_srv_set''), (''tunnel_id'', JInt tid), (''route_id'', JInt rid),
                            (''service'', jopt service)]),
                 signal_if_online env tid sub node (s\<lparr>app_db := db\<rparr>)))"

section \<open>Editing name, labels and subdomain\<close>

record EditTunnelReq =
  ed_name :: "string option"
  ed_subdomain :: "string option"
  ed_route_labels :: "(int \<times> string option) list"

definition edit_name :: "int \<Rightarrow> string option \<Rightarrow> unit handler" where
  "edit_name tid name s =
     (case name of
        None \<Rightarrow> (Inr (), s)
      | Some raw \<Rightarrow>
          if 60 < char_count (trim raw) then (Inl (400, ''name too long (max 60 chars)''), s)
          else (Inr (), s\<lparr>app_db := rename_tunnel tid (if trim raw = [] then None else Some (trim raw)) (app_db s)\<rparr>))"

fun edit_labels :: "int \<Rightarrow> (int \<times> string option) list \<Rightarrow> unit handler" where
  "edit_labels tid [] s = (Inr (), s)"
| "edit_labels tid ((rid, raw) # rest) s =
     (let label = trimmed raw in
      if (case label of Some l \<Rightarrow> 40 < char_count l | None \<Rightarrow> False)
      then (Inl (400, ''route label too long (max 40 chars)''), s)
      else edit_labels tid rest (s\<lparr>app_db := snd (update_route_label tid rid label (app_db s))\<rparr>))"

definition bad_subdomain_text :: string where
  "bad_subdomain_text =
     ''invalid subdomain (3'' @ en_dash @ ''30 chars, lowercase a'' @ en_dash @ ''z/0'' @ en_dash
     @ ''9/-, must start & end alphanumeric)''"

definition edit_subdomain :: "Env \<Rightarrow> int \<Rightarrow> string \<Rightarrow> string option \<Rightarrow> string option \<Rightarrow> bool handler" where
  "edit_subdomain env tid current node requested s =
     (case requested of
        None \<Rightarrow> (Inr False, s)
      | Some raw \<Rightarrow>
          let want = e_lower env (trim raw) in
          if want = current then (Inr False, s)
          else if \<not> valid_subdomain want then (Inl (400, bad_subdomain_text), s)
          else if is_reserved_subdomain want (app_db s) then (Inl (409, ''that subdomain is reserved''), s)
          else if subdomain_in_use want tid (app_db s) then (Inl (409, ''that subdomain is already taken''), s)
          else case set_tunnel_subdomain tid want (app_db s) of
            Inl _ \<Rightarrow> (Inl (409, ''that subdomain is already taken''), s)
          | Inr (_, db) \<Rightarrow> (Inr True, signal_if_online env tid current node (s\<lparr>app_db := db\<rparr>)))"

definition edit_tunnel :: "Env \<Rightarrow> AuthUser \<Rightarrow> int \<Rightarrow> EditTunnelReq \<Rightarrow> Json handler" where
  "edit_tunnel env user tid req =
     with_tunnel user tid (\<lambda>current node s.
       case edit_name tid (ed_name req) s of
         (Inl e, s) \<Rightarrow> (Inl e, s)
       | (Inr _, s) \<Rightarrow>
           (case edit_labels tid (ed_route_labels req) s of
              (Inl e, s) \<Rightarrow> (Inl e, s)
            | (Inr _, s) \<Rightarrow>
                (case edit_subdomain env tid current node (ed_subdomain req) s of
                   (Inl e, s) \<Rightarrow> (Inl e, s)
                 | (Inr changed, s) \<Rightarrow>
                     (Inr (JObj [(''status'', JStr ''tunnel_updated''), (''tunnel_id'', JInt tid),
                                 (''subdomain_changed'', JBool changed)]), s))))"

section \<open>Editing the routes\<close>

definition routes_error :: "Env \<Rightarrow> ReserveError \<Rightarrow> http_error" where
  "routes_error env e =
     (case e of
        PortExhausted \<Rightarrow> (503, ''the region'' @ [CHR 0x27] @ ''s public port pool is full'')
      | RouteSetExists _ \<Rightarrow> (409, ''you already have a service with those exact ports'')
      | DbFault f \<Rightarrow> db_err (e_fault env f)
      | _ \<Rightarrow> (500, ''route update failed''))"

definition route_checks :: "int \<Rightarrow> RequestedRoute list \<Rightarrow> DB \<Rightarrow> http_error + unit" where
  "route_checks tid routes db =
     (case check_route_policy routes of
        Inl e \<Rightarrow> Inl (400, e)
      | Inr _ \<Rightarrow>
          (case tunnel_device_id tid db of
             Some did \<Rightarrow> conflict_check (device_routes_excluding did tid db) routes
           | None \<Rightarrow> Inr ()))"

definition put_service_routes :: "Env \<Rightarrow> locks \<Rightarrow> AuthUser \<Rightarrow> int \<Rightarrow> RequestedRoute list \<Rightarrow> Json handler" where
  "put_service_routes env locked user tid routes =
     with_tunnel user tid (\<lambda>sub node s.
       case node of
         None \<Rightarrow> (Inl (409, ''this tunnel has no host node yet''), s)
       | Some nid \<Rightarrow>
           (case route_checks tid routes (app_db s) of
              Inl e \<Rightarrow> (Inl e, s)
            | Inr _ \<Rightarrow>
                (case set_service_routes locked tid nid (to_requests routes) (app_db s) of
                   Inl e \<Rightarrow> (Inl (routes_error env e), s)
                 | Inr (out, db) \<Rightarrow>
                     (Inr (JObj [(''status'', JStr ''routes_updated''), (''tunnel_id'', JInt tid),
                                 (''route_count'', JInt (int (length out)))]),
                      signal_if_online env tid sub (Some nid) (s\<lparr>app_db := db\<rparr>)))))"

end
