(* ===== verification/ReserveProofs.thy ===== *)
theory ReserveProofs
  imports Reserve
begin

text \<open>
  What the transactions of \<^verbatim>\<open>Reserve\<close> keep and give: the port pool stays consistent under every
  operation that moves ports, reservations are idempotent, and an edit leaves exactly the routes it
  was asked for.
\<close>

section \<open>The pool as an allocator\<close>

definition pool_keys :: "DB \<Rightarrow> (string \<times> int) list" where
  "pool_keys db = map (\<lambda>row. (pp_node_id row, pp_port row)) (pool_t db)"

definition row_is :: "string \<Rightarrow> int \<Rightarrow> int \<Rightarrow> int \<Rightarrow> PoolRow \<Rightarrow> bool" where
  "row_is n q t r row \<longleftrightarrow>
     pp_node_id row = n \<and> pp_port row = q \<and> pp_tunnel_id row = Some t \<and> pp_route_id row = Some r"

lemma held_row: "held db n q t r \<longleftrightarrow> (\<exists>row \<in> set (pool_t db). row_is n q t r row)"
  by (simp add: held_def row_is_def)

lemma held_update:
  "held (db\<lparr>pool_t := update_where P f (pool_t db)\<rparr>) n q t r \<longleftrightarrow>
     (\<exists>row \<in> set (pool_t db). row_is n q t r (if P row then f row else row))"
  by (simp add: held_row update_where_def del: if_image_distrib)

lemma held_claim:
  assumes keys: "distinct (pool_keys db)" and c: "claim_port locked node tid rid db = (Some p, db')"
  shows "held db' n q t r \<longleftrightarrow> held db n q t r \<or> (n, q, t, r) = (node, p, tid, rid)"
proof -
  obtain row0 where row0: "row0 \<in> set (pool_t db)" "pp_node_id row0 = node" "pp_port row0 = p" "pp_tunnel_id row0 = None"
    using claim_port_Some(1) [OF c] by (auto simp: free_row_def)
  have inj: "inj_on (\<lambda>row. (pp_node_id row, pp_port row)) (set (pool_t db))"
    using keys by (simp add: pool_keys_def distinct_map)
  have only: "row = row0" if "row \<in> set (pool_t db)" "pp_node_id row = node" "pp_port row = p" for row
    using inj that row0 by (auto dest: inj_onD)
  have db': "db' = db\<lparr>pool_t := update_where (\<lambda>row. pp_node_id row = node \<and> pp_port row = p)
                  (\<lambda>row. row\<lparr>pp_tunnel_id := Some tid, pp_route_id := Some rid\<rparr>) (pool_t db)\<rparr>"
    by (rule claim_port_Some(2) [OF c])
  have upd: "row_is n q t r (if pp_node_id row = node \<and> pp_port row = p
          then row\<lparr>pp_tunnel_id := Some tid, pp_route_id := Some rid\<rparr> else row)
        \<longleftrightarrow> row_is n q t r row \<or> (row = row0 \<and> (n, q, t, r) = (node, p, tid, rid))" if "row \<in> set (pool_t db)" for row
    using only [OF that] row0 by (auto simp: row_is_def)
  have "held db' n q t r \<longleftrightarrow> (\<exists>row \<in> set (pool_t db). row_is n q t r row \<or> (row = row0 \<and> (n, q, t, r) = (node, p, tid, rid)))"
    unfolding db' held_update by (rule bex_cong [OF refl]) (rule upd)
  also have "\<dots> \<longleftrightarrow> held db n q t r \<or> (n, q, t, r) = (node, p, tid, rid)"
    using row0(1) by (auto simp: held_row)
  finally show ?thesis .
qed

lemma held_free_route: "held (free_route_port tid rid db) n q t r \<longleftrightarrow> held db n q t r \<and> (t, r) \<noteq> (tid, rid)"
proof -
  have "row_is n q t r (if pp_tunnel_id row = Some tid \<and> pp_route_id row = Some rid
          then row\<lparr>pp_tunnel_id := None, pp_route_id := None\<rparr> else row)
        \<longleftrightarrow> row_is n q t r row \<and> (t, r) \<noteq> (tid, rid)" for row
    by (auto simp: row_is_def)
  then show ?thesis unfolding free_route_port_def held_update by (auto simp: held_row)
qed

lemma held_free_tunnel: "held (free_tunnel_ports tid db) n q t r \<longleftrightarrow> held db n q t r \<and> t \<noteq> tid"
proof -
  have "row_is n q t r (if pp_tunnel_id row = Some tid
          then row\<lparr>pp_tunnel_id := None, pp_route_id := None\<rparr> else row)
        \<longleftrightarrow> row_is n q t r row \<and> t \<noteq> tid" for row
    by (auto simp: row_is_def)
  then show ?thesis unfolding free_tunnel_ports_def held_update by (auto simp: held_row)
qed

lemma pool_keys_free [simp]:
  "pool_keys (free_route_port tid rid db) = pool_keys db" "pool_keys (free_tunnel_ports tid db) = pool_keys db"
  by (simp_all add: pool_keys_def free_route_port_def free_tunnel_ports_def map_update_where)

lemma pool_keys_claim: "claim_port locked node tid rid db = (p, db') \<Longrightarrow> pool_keys db' = pool_keys db"
  by (cases p) (auto simp: pool_keys_def claim_port_None dest!: claim_port_Some(2) intro!: map_update_where)

text \<open>
  The contract of a port allocator: a port that is handed out was free and is held for its route
  alone; handing out and freeing leave every other holding; and handing out fails only on an
  exhausted pool.
\<close>

locale port_allocator =
  fixes claim :: "string \<Rightarrow> int \<Rightarrow> int \<Rightarrow> 's \<Rightarrow> int option \<times> 's"
    and release :: "int \<Rightarrow> int \<Rightarrow> 's \<Rightarrow> 's"
    and holds :: "'s \<Rightarrow> string \<Rightarrow> int \<Rightarrow> int \<Rightarrow> int \<Rightarrow> bool"
    and inv :: "'s \<Rightarrow> bool"
  assumes claim_holds: "inv s \<Longrightarrow> claim n t r s = (Some p, s') \<Longrightarrow>
      holds s' n' q t' r' \<longleftrightarrow> holds s n' q t' r' \<or> (n', q, t', r') = (n, p, t, r)"
    and claim_fresh: "inv s \<Longrightarrow> claim n t r s = (Some p, s') \<Longrightarrow> \<not> holds s n p t' r'"
    and claim_inv: "inv s \<Longrightarrow> claim n t r s = (x, s') \<Longrightarrow> inv s'"
    and release_holds: "inv s \<Longrightarrow> holds (release t r s) n' q t' r' \<longleftrightarrow> holds s n' q t' r' \<and> (t', r') \<noteq> (t, r)"
    and release_inv: "inv s \<Longrightarrow> inv (release t r s)"
begin

lemma claim_keeps: "inv s \<Longrightarrow> claim n t r s = (Some p, s') \<Longrightarrow> holds s n' q t' r' \<Longrightarrow> holds s' n' q t' r'"
  by (simp add: claim_holds)

lemma claim_gives: "inv s \<Longrightarrow> claim n t r s = (Some p, s') \<Longrightarrow> holds s' n p t r"
  by (simp add: claim_holds)

lemma claim_exclusive:
  "inv s \<Longrightarrow> claim n t r s = (Some p, s') \<Longrightarrow> holds s' n p t' r' \<Longrightarrow> t' = t \<and> r' = r"
  using claim_fresh [of s n t r p s' t' r'] by (simp add: claim_holds)

lemma release_keeps: "inv s \<Longrightarrow> holds s n q t' r' \<Longrightarrow> (t', r') \<noteq> (t, r) \<Longrightarrow> holds (release t r s) n q t' r'"
  by (simp add: release_holds)

end

interpretation pool: port_allocator "claim_port locked" free_route_port held "\<lambda>db. distinct (pool_keys db)" for locked
proof
  fix s s' :: DB and n t r p n' q t' r' x
  assume i: "distinct (pool_keys s)"
  show "claim_port locked n t r s = (Some p, s') \<Longrightarrow>
      held s' n' q t' r' \<longleftrightarrow> held s n' q t' r' \<or> (n', q, t', r') = (n, p, t, r)"
    by (rule held_claim [OF i])
  show "\<not> held s n p t' r'" if c: "claim_port locked n t r s = (Some p, s')"
  proof
    assume "held s n p t' r'"
    moreover obtain row where "row \<in> set (pool_t s)" "free_row locked n row" "pp_port row = p"
      using claim_port_Some(1) [OF c] by blast
    moreover have "inj_on (\<lambda>row. (pp_node_id row, pp_port row)) (set (pool_t s))"
      using i by (simp add: pool_keys_def distinct_map)
    ultimately show False by (fastforce simp: held_def free_row_def dest: inj_onD)
  qed
  show "claim_port locked n t r s = (x, s') \<Longrightarrow> distinct (pool_keys s')"
    using pool_keys_claim i by metis
  show "held (free_route_port t r s) n' q t' r' \<longleftrightarrow> held s n' q t' r' \<and> (t', r') \<noteq> (t, r)"
    by (rule held_free_route)
  show "distinct (pool_keys (free_route_port t r s))" using i by simp
qed

section \<open>The building blocks keep the database consistent\<close>

definition tunnel_on :: "DB \<Rightarrow> int \<Rightarrow> string \<Rightarrow> bool" where
  "tunnel_on db tid node \<longleftrightarrow> (\<exists>t \<in> set (tunnels_t db). t_id t = tid) \<and>
     (\<forall>t \<in> set (tunnels_t db). t_id t = tid \<longrightarrow> t_node_id t = Some node)"

lemma ids_ok_pool: "ids_ok db \<Longrightarrow> distinct (pool_keys db)"
  by (simp add: ids_ok_def pool_keys_def)

lemma ids_ok_pool_change: "ids_ok db \<Longrightarrow> pool_keys (db\<lparr>pool_t := p\<rparr>) = pool_keys db \<Longrightarrow> ids_ok (db\<lparr>pool_t := p\<rparr>)"
  by (simp add: ids_ok_def pool_keys_def)

lemma claim_port_fields:
  "claim_port locked node tid rid db = (p, db') \<Longrightarrow>
     \<exists>pool. db' = db\<lparr>pool_t := pool\<rparr> \<and> pool_keys (db\<lparr>pool_t := pool\<rparr>) = pool_keys db"
  using pool_keys_claim [of locked node tid rid db p db']
  by (cases p) (auto simp: claim_port_None dest!: claim_port_Some(2) intro: exI [of _ "pool_t db"])

lemma claim_port_ok:
  assumes ok: "db_ok db" and c: "claim_port locked node tid rid db = (Some p, db')"
  shows "db_ok db'"
proof -
  obtain pool where db': "db' = db\<lparr>pool_t := pool\<rparr>" "pool_keys (db\<lparr>pool_t := pool\<rparr>) = pool_keys db"
    using claim_port_fields [OF c] by blast
  have d: "distinct (pool_keys db)" using ok by (auto simp: db_ok_def intro: ids_ok_pool)
  have "ids_ok db'" using ok db' by (auto simp: db_ok_def intro: ids_ok_pool_change)
  moreover have "ports_ok db'"
    using ok pool.claim_keeps [OF d c] by (auto simp: db_ok_def ports_ok_def db'(1))
  ultimately show ?thesis by (simp add: db_ok_def)
qed

lemma port_for_ok:
  assumes "db_ok db" and "port_for locked node tid rid mode db = Inr (pp, db')"
  shows "db_ok db'" and "\<exists>pool. db' = db\<lparr>pool_t := pool\<rparr>"
    and "pp = Some p \<Longrightarrow> held db' node p tid rid" and "pp = None \<longleftrightarrow> is_host_routed mode"
proof -
  have d: "distinct (pool_keys db)" using assms(1) by (auto simp: db_ok_def intro: ids_ok_pool)
  show "db_ok db'" using assms claim_port_ok by (auto simp: port_for_def split: if_splits prod.splits option.splits)
  show "\<exists>pool. db' = db\<lparr>pool_t := pool\<rparr>"
    using assms(2) claim_port_fields
    by (auto simp: port_for_def split: if_splits prod.splits option.splits intro: exI [of _ "pool_t db"]) blast
  show "held db' node p tid rid" if "pp = Some p"
    using assms(2) that pool.claim_gives [OF d]
    by (auto simp: port_for_def split: if_splits prod.splits option.splits)
  show "pp = None \<longleftrightarrow> is_host_routed mode"
    using assms(2) by (auto simp: port_for_def split: if_splits prod.splits option.splits)
qed

lemma insert_route_ok:
  assumes ok: "db_ok db" and i: "insert_route tid rid kind lp pp label db = Inr (u, db')"
    and on: "tunnel_on db tid node" and h: "\<And>p. pp = Some p \<Longrightarrow> held db node p tid rid"
  shows "db_ok db'"
proof -
  let ?r = "\<lparr> r_id = next_id db, r_tunnel_id = tid, r_route_id = rid, r_kind = kind, r_local_port = lp,
                r_public_port = pp, r_label = label, r_srv_service = None \<rparr>"
  have db': "db' = db\<lparr>routes_t := routes_t db @ [?r], next_id := next_id db + 1\<rparr>"
    and new: "\<forall>r \<in> set (routes_t db). \<not> (r_tunnel_id r = tid \<and> r_route_id r = rid)"
    and t: "\<exists>t \<in> set (tunnels_t db). t_id t = tid"
    using i by (auto simp: insert_route_def split: if_splits)
  have "ids_ok db'" using ok new t by (force simp: db_ok_def ids_ok_def db')
  moreover have "ports_ok db'"
    using ok on h by (auto simp: db_ok_def ports_ok_def held_def db' tunnel_on_def)
  ultimately show ?thesis by (simp add: db_ok_def)
qed

lemma new_route_Inr:
  assumes "db_ok db" and "tunnel_on db tid node" and "new_route locked node tid rid req db = Inr (pp, db')"
  shows "db_ok db'" and "tunnels_t db' = tunnels_t db" and "tunnel_on db' tid node"
    and "\<exists>i. routes_t db' = routes_t db @
      [\<lparr> r_id = i, r_tunnel_id = tid, r_route_id = rid, r_kind = as_str (fst req),
         r_local_port = int (unat (fst (snd req))), r_public_port = pp,
         r_label = clean_label (snd (snd req)), r_srv_service = None \<rparr>]"
    and "pp = None \<longleftrightarrow> is_host_routed (fst req)"
    and "pp = Some p \<Longrightarrow> held db' node p tid rid"
    and "\<forall>r \<in> set (routes_t db). \<not> (r_tunnel_id r = tid \<and> r_route_id r = rid)"
proof -
  obtain m lp label where req: "req = (m, lp, label)" by (cases req)
  then obtain db1 u where 1: "port_for locked node tid rid m db = Inr (pp, db1)"
    and 2: "insert_route tid rid (as_str m) (int (unat lp)) pp (clean_label label) db1 = Inr (u, db')"
    using assms(3) by (auto simp: new_route_def and_then_Inr_iff)
  note P = port_for_ok [OF assms(1) 1]
  obtain pool where db1: "db1 = db\<lparr>pool_t := pool\<rparr>" using P(2) by blast
  have on1: "tunnel_on db1 tid node" using assms(2) by (simp add: tunnel_on_def db1)
  show "db_ok db'" by (rule insert_route_ok [OF P(1) 2 on1 P(3)])
  show "tunnels_t db' = tunnels_t db" using 2 by (auto simp: insert_route_def db1 split: if_splits)
  then show "tunnel_on db' tid node" using assms(2) by (simp add: tunnel_on_def)
  show "\<exists>i. routes_t db' = routes_t db @
      [\<lparr> r_id = i, r_tunnel_id = tid, r_route_id = rid, r_kind = as_str (fst req),
         r_local_port = int (unat (fst (snd req))), r_public_port = pp,
         r_label = clean_label (snd (snd req)), r_srv_service = None \<rparr>]"
    using 2 by (auto simp: insert_route_def db1 req split: if_splits)
  show "pp = None \<longleftrightarrow> is_host_routed (fst req)" using P(4) req by simp
  show "held db' node p tid rid" if "pp = Some p"
    using P(3) [OF that] 2 by (auto simp: insert_route_def held_def split: if_splits)
  show "\<forall>r \<in> set (routes_t db). \<not> (r_tunnel_id r = tid \<and> r_route_id r = rid)"
    using 2 by (auto simp: insert_route_def db1 split: if_splits)
qed

section \<open>Reservation\<close>

lemma insert_tunnel_Inr:
  assumes "insert_tunnel now cand owner sig host node device db = Inr (tid, db')"
  shows "tid = next_id db" and "\<forall>t \<in> set (tunnels_t db). t_subdomain t \<noteq> cand"
    and "routes_t db' = routes_t db" "pool_t db' = pool_t db" "reserved_t db' = reserved_t db"
    and "tunnels_t db' = tunnels_t db @
             [\<lparr> t_id = tid, t_subdomain = cand, t_name = None, t_owner_id = owner, t_route_sig = sig,
                t_status = ''awaiting_agent'', t_public_host = host, t_node_id = Some node, t_agent_ip = None,
                t_created_at = now, t_last_seen = None, t_custom_domain = None, t_device_id = device,
                t_last_active_at = None, t_failover_from = None \<rparr>]"
    and "next_id db' = next_id db + 1"
  using assms by (auto simp: insert_tunnel_def split: if_splits option.splits)

lemma insert_tunnel_ok:
  assumes ok: "db_ok db" and i: "insert_tunnel now cand owner sig host node device db = Inr (tid, db')"
  shows "db_ok db'" and "tunnel_on db' tid node" and "\<forall>r \<in> set (routes_t db'). r_tunnel_id r \<noteq> tid"
proof -
  note I = insert_tunnel_Inr [OF i]
  have ids: "ids_ok db" "ports_ok db" using ok by (auto simp: db_ok_def)
  have fresh: "\<forall>t \<in> set (tunnels_t db). t_id t \<noteq> tid" using ids(1) I(1) by (auto simp: ids_ok_def)
  have nr: "\<forall>r \<in> set (routes_t db). r_tunnel_id r \<noteq> tid"
    using ids(1) fresh by (fastforce simp: ids_ok_def)
  have "ids_ok db'"
    unfolding ids_ok_def I(3,4,6,7)
  proof (intro conjI)
    show "distinct (map t_id (tunnels_t db @ [\<lparr> t_id = tid, t_subdomain = cand, t_name = None, t_owner_id = owner, t_route_sig = sig,
                t_status = ''awaiting_agent'', t_public_host = host, t_node_id = Some node, t_agent_ip = None,
                t_created_at = now, t_last_seen = None, t_custom_domain = None, t_device_id = device,
                t_last_active_at = None, t_failover_from = None \<rparr>]))"
      using ids(1) fresh by (auto simp: ids_ok_def)
  qed (use ids(1) I(1,2) in \<open>auto simp: ids_ok_def\<close>)
  moreover have "ports_ok db'"
    using ids(2) nr by (auto simp: ports_ok_def held_def I(3,4,6))
  ultimately show "db_ok db'" by (simp add: db_ok_def)
  show "tunnel_on db' tid node" using fresh by (auto simp: tunnel_on_def I(6))
  show "\<forall>r \<in> set (routes_t db'). r_tunnel_id r \<noteq> tid" using nr I(3) by simp
qed

lemma new_route_fields:
  assumes "new_route locked node tid rid req db = Inr (pp, db')"
  shows "tunnels_t db' = tunnels_t db" "reserved_t db' = reserved_t db" "users_t db' = users_t db"
    "devices_t db' = devices_t db" "nodes_t db' = nodes_t db"
    "filter (\<lambda>r. r_tunnel_id r \<noteq> tid) (routes_t db') = filter (\<lambda>r. r_tunnel_id r \<noteq> tid) (routes_t db)"
proof -
  obtain m lp label where req: "req = (m, lp, label)" by (cases req)
  then obtain db1 u where 1: "port_for locked node tid rid m db = Inr (pp, db1)"
    and 2: "insert_route tid rid (as_str m) (int (unat lp)) pp (clean_label label) db1 = Inr (u, db')"
    using assms by (auto simp: new_route_def and_then_Inr_iff)
  have "\<exists>pool. db1 = db\<lparr>pool_t := pool\<rparr>"
    using 1 claim_port_fields
    by (auto simp: port_for_def split: if_splits prod.splits option.splits intro: exI [of _ "pool_t db"]) blast
  then show "tunnels_t db' = tunnels_t db" "reserved_t db' = reserved_t db" "users_t db' = users_t db"
    "devices_t db' = devices_t db" "nodes_t db' = nodes_t db"
    "filter (\<lambda>r. r_tunnel_id r \<noteq> tid) (routes_t db') = filter (\<lambda>r. r_tunnel_id r \<noteq> tid) (routes_t db)"
    using 2 by (auto simp: insert_route_def split: if_splits)
qed

text \<open>What a reserved route row is: the request it answers, its id, and a port exactly if it needs one.\<close>

definition answers :: "int \<Rightarrow> int \<Rightarrow> request \<Rightarrow> RouteRow \<Rightarrow> bool" where
  "answers tid rid req row \<longleftrightarrow>
     r_tunnel_id row = tid \<and> r_route_id row = rid \<and> r_kind row = as_str (fst req)
     \<and> r_local_port row = int (unat (fst (snd req))) \<and> r_label row = clean_label (snd (snd req))
     \<and> (r_public_port row = None \<longleftrightarrow> is_host_routed (fst req))"

lemma reserve_routes_ok:
  assumes "db_ok db" and "tunnel_on db tid node" and "reserve_routes locked node tid i reqs db = Inr (out, db')"
  shows "db_ok db' \<and> tunnels_t db' = tunnels_t db \<and> reserved_t db' = reserved_t db
    \<and> map (\<lambda>r. r\<lparr>r_id := 0\<rparr>) (routes_t db') = map (\<lambda>r. r\<lparr>r_id := 0\<rparr>) (routes_t db) @ out
    \<and> length out = length reqs
    \<and> (\<forall>k < length reqs. answers tid (to_i16 (to_i16 (i + int k) + 1)) (reqs ! k) (out ! k))"
  using assms
proof (induction reqs arbitrary: i db out)
  case Nil
  then show ?case by simp
next
  case (Cons req reqs)
  let ?rid = "to_i16 (to_i16 i + 1)"
  from Cons.prems(3) obtain pp db1 out1 where
      1: "new_route locked node tid ?rid req db = Inr (pp, db1)"
    and 2: "reserve_routes locked node tid (i + 1) reqs db1 = Inr (out1, db')"
    and out: "out = \<lparr> r_id = 0, r_tunnel_id = tid, r_route_id = ?rid, r_kind = as_str (fst req),
               r_local_port = int (unat (fst (snd req))), r_public_port = pp,
               r_label = clean_label (snd (snd req)), r_srv_service = None \<rparr> # out1"
    by (auto simp: Let_def and_then_Inr_iff)
  note N = new_route_Inr [OF Cons.prems(1,2) 1]
  have IH: "db_ok db' \<and> tunnels_t db' = tunnels_t db1 \<and> reserved_t db' = reserved_t db1
    \<and> map (\<lambda>r. r\<lparr>r_id := 0\<rparr>) (routes_t db') = map (\<lambda>r. r\<lparr>r_id := 0\<rparr>) (routes_t db1) @ out1
    \<and> length out1 = length reqs
    \<and> (\<forall>k < length reqs. answers tid (to_i16 (to_i16 (i + 1 + int k) + 1)) (reqs ! k) (out1 ! k))"
    by (rule Cons.IH [OF N(1) N(3) 2])
  have a: "answers tid (to_i16 (to_i16 (i + int k) + 1)) ((req # reqs) ! k) (out ! k)"
    if k: "k < length (req # reqs)" for k
  proof (cases k)
    case 0
    then show ?thesis using N(5) by (simp add: out answers_def)
  next
    case (Suc k')
    then have "answers tid (to_i16 (to_i16 (i + 1 + int k') + 1)) (reqs ! k') (out1 ! k')" using IH k by simp
    moreover have "i + 1 + int k' = i + int k" using Suc by simp
    ultimately show ?thesis using Suc by (simp add: out)
  qed
  obtain j where "routes_t db1 = routes_t db @
      [\<lparr> r_id = j, r_tunnel_id = tid, r_route_id = ?rid, r_kind = as_str (fst req),
         r_local_port = int (unat (fst (snd req))), r_public_port = pp,
         r_label = clean_label (snd (snd req)), r_srv_service = None \<rparr>]"
    using N(4) by blast
  then show ?case using IH N(2) new_route_fields(2) [OF 1] a by (simp add: out)
qed

lemma pick_random_Inr:
  "pick_random now owner sig host node device cands tx = Inr (tid, sub, db') \<Longrightarrow>
     \<exists>db. tx = Some db \<and> sub \<in> set cands \<and> sub \<notin> set (reserved_t db)
       \<and> insert_tunnel now sub owner sig host node device db = Inr (tid, db')"
proof (induction now owner sig host node device cands tx rule: pick_random.induct)
  case (3 now owner sig host node device cand cs db)
  then show ?case
    by (auto split: if_splits sum.splits prod.splits)
qed simp_all

lemma pick_custom_Inr:
  "pick_custom lower now owner sig host node device custom db = Inr (tid, sub, db') \<Longrightarrow>
     sub = lower (trim custom) \<and> valid_subdomain sub \<and> sub \<notin> set (reserved_t db)
     \<and> insert_tunnel now sub owner sig host node device db = Inr (tid, db')"
  by (auto simp: pick_custom_def Let_def split: if_splits sum.splits prod.splits)

text \<open>A reservation either reuses the tunnel of the same set, or creates one.\<close>

lemma reserve_tunnel_cases:
  assumes "reserve_tunnel lower locked draws now owner node host requested custom mx reuse device db = Inr (rt, db')"
  obtains (reused) ex where "fetch_optional (same_set owner (route_signature (pairs requested)) device) (tunnels_t db) = Some ex"
      "reuse" "db' = db" "rt_tunnel_id rt = t_id ex" "rt_reused rt" "rt_subdomain rt = t_subdomain ex"
      "rt_routes rt = routes_for_tunnel db (t_id ex)"
  | (created) tid sub db1 out where
      "fetch_optional (same_set owner (route_signature (pairs requested)) device) (tunnels_t db) = None"
      "insert_tunnel now sub owner (route_signature (pairs requested)) host node device db = Inr (tid, db1)"
      "sub \<notin> set (reserved_t db)"
      "case custom of Some c \<Rightarrow> sub = lower (trim c) \<and> valid_subdomain sub
                    | None \<Rightarrow> sub \<in> random_subdomain ` set draws"
      "int (count_where (\<lambda>t. t_owner_id t = owner) (tunnels_t db)) < mx"
      "reserve_routes locked node tid 0 requested db1 = Inr (out, db')"
      "rt = \<lparr> rt_tunnel_id = tid, rt_subdomain = sub, rt_node_id = node, rt_public_host = host,
             rt_routes = out, rt_custom_domain = None, rt_reused = False \<rparr>"
proof (cases "fetch_optional (same_set owner (route_signature (pairs requested)) device) (tunnels_t db)")
  case (Some ex)
  then show ?thesis
    using assms by (intro reused [of ex]) (auto simp: reserve_tunnel_def Let_def split: if_splits)
next
  case None
  then obtain tid sub db1 out where
      p: "(case custom of Some c \<Rightarrow> pick_custom lower now owner (route_signature (pairs requested)) host node device c db
          | None \<Rightarrow> pick_random now owner (route_signature (pairs requested)) host node device
                      (map random_subdomain (take 10 draws)) (Some db)) = Inr (tid, sub, db1)"
    and lim: "int (count_where (\<lambda>t. t_owner_id t = owner) (tunnels_t db)) < mx"
    and r: "reserve_routes locked node tid 0 requested db1 = Inr (out, db')"
    and rt: "rt = \<lparr> rt_tunnel_id = tid, rt_subdomain = sub, rt_node_id = node, rt_public_host = host,
             rt_routes = out, rt_custom_domain = None, rt_reused = False \<rparr>"
    using assms by (auto simp: reserve_tunnel_def Let_def and_then_Inr_iff split: if_splits)
  show ?thesis
  proof (cases custom)
    case (Some c)
    then show ?thesis using p created [OF None _ _ _ lim r rt] pick_custom_Inr by fastforce
  next
    case none: None
    then obtain "sub \<in> set (map random_subdomain (take 10 draws))" "sub \<notin> set (reserved_t db)"
        "insert_tunnel now sub owner (route_signature (pairs requested)) host node device db = Inr (tid, db1)"
      using p pick_random_Inr by fastforce
    then show ?thesis using created [OF None _ _ _ lim r rt] none set_take_subset [of 10 draws] by auto
  qed
qed

lemma reserve_keeps_db_ok_lemma:
  assumes ok: "db_ok db"
    and "reserve_tunnel lower locked draws now owner node host requested custom mx reuse device db = Inr (rt, db')"
  shows "db_ok db'"
  using assms(2)
proof (cases rule: reserve_tunnel_cases)
  case (reused ex)
  then show ?thesis using ok by simp
next
  case (created tid sub db1 out)
  note T = insert_tunnel_ok [OF ok created(2)]
  show ?thesis using reserve_routes_ok [OF T(1,2) created(6)] by simp
qed

text \<open>What a fresh reservation gives.\<close>

definition fresh_result ::
    "(string \<Rightarrow> string) \<Rightarrow> (nat \<times> nat \<times> nat \<times> nat \<times> nat) list \<Rightarrow> int \<Rightarrow> string \<Rightarrow> string \<Rightarrow> request list
     \<Rightarrow> string option \<Rightarrow> int \<Rightarrow> int option \<Rightarrow> DB \<Rightarrow> ReservedTunnel \<Rightarrow> DB \<Rightarrow> bool" where
  "fresh_result lower draws owner node host requested custom mx device db rt db' \<longleftrightarrow>
     (\<exists>t. tunnels_t db' = tunnels_t db @ [t] \<and> t_id t = rt_tunnel_id rt \<and> t_subdomain t = rt_subdomain rt
        \<and> t_owner_id t = owner \<and> t_device_id t = device \<and> t_node_id t = Some node
        \<and> t_route_sig t = route_signature (pairs requested))
     \<and> rt_subdomain rt \<notin> t_subdomain ` set (tunnels_t db) \<and> rt_subdomain rt \<notin> set (reserved_t db)
     \<and> rt_tunnel_id rt \<notin> t_id ` set (tunnels_t db)
     \<and> int (count_where (\<lambda>t. t_owner_id t = owner) (tunnels_t db)) < mx
     \<and> length (rt_routes rt) = length requested
     \<and> (\<forall>k < length requested.
          answers (rt_tunnel_id rt) (to_i16 (to_i16 (int k) + 1)) (requested ! k) (rt_routes rt ! k))
     \<and> map (\<lambda>r. r\<lparr>r_id := 0\<rparr>) (routes_t db') = map (\<lambda>r. r\<lparr>r_id := 0\<rparr>) (routes_t db) @ rt_routes rt
     \<and> rt_node_id rt = node \<and> rt_public_host rt = host
     \<and> (case custom of Some c \<Rightarrow> rt_subdomain rt = lower (trim c) \<and> valid_subdomain (rt_subdomain rt)
                     | None \<Rightarrow> rt_subdomain rt \<in> random_subdomain ` set draws)
     \<and> fetch_optional (same_set owner (route_signature (pairs requested)) device) (tunnels_t db) = None"

lemma reserve_created:
  assumes ok: "db_ok db"
    and res: "reserve_tunnel lower locked draws now owner node host requested custom mx reuse device db = Inr (rt, db')"
    and new: "\<not> rt_reused rt"
  shows "fresh_result lower draws owner node host requested custom mx device db rt db'"
  using res
proof (cases rule: reserve_tunnel_cases)
  case (reused ex)
  then show ?thesis using new by simp
next
  case (created tid sub db1 out)
  note T = insert_tunnel_ok [OF ok created(2)] and I = insert_tunnel_Inr [OF created(2)]
  note R = reserve_routes_ok [OF T(1,2) created(6)]
  have fresh: "tid \<notin> t_id ` set (tunnels_t db)" using ok I(1) by (auto simp: db_ok_def ids_ok_def)
  show ?thesis unfolding fresh_result_def using R I(2,3,6) fresh created by (auto split: option.splits)
qed

section \<open>Editing routes\<close>

lemma drop_unwanted_spec:
  "db_ok db \<Longrightarrow> \<forall>r \<in> set rs. r_tunnel_id r = tid \<Longrightarrow>
     db_ok (drop_unwanted tid req rs db)
     \<and> tunnels_t (drop_unwanted tid req rs db) = tunnels_t db
     \<and> reserved_t (drop_unwanted tid req rs db) = reserved_t db
     \<and> (\<forall>x. x \<in> set (routes_t (drop_unwanted tid req rs db)) \<longleftrightarrow>
          x \<in> set (routes_t db)
          \<and> \<not> (r_tunnel_id x = tid \<and> (\<exists>r \<in> set rs. \<not> wanted req r \<and> r_route_id x = r_route_id r)))"
proof (induction rs arbitrary: db)
  case Nil
  then show ?case by simp
next
  case (Cons r rs)
  let ?rid = "r_route_id r"
  let ?f = "free_route_port tid ?rid db"
  let ?d = "?f\<lparr>routes_t := delete_where (\<lambda>x. r_tunnel_id x = tid \<and> r_route_id x = ?rid) (routes_t ?f)\<rparr>"
  have f: "tunnels_t ?f = tunnels_t db" "routes_t ?f = routes_t db" "reserved_t ?f = reserved_t db"
    "next_id ?f = next_id db"
    by (simp_all add: free_route_port_def)
  have ids: "distinct (pool_keys db)" using Cons.prems by (auto simp: db_ok_def intro: ids_ok_pool)
  have h: "held ?d n q t x \<longleftrightarrow> held db n q t x \<and> (t, x) \<noteq> (tid, ?rid)" for n q t x
    using pool.release_holds [OF ids, of tid ?rid n q t x] by (simp add: held_def)
  have keys: "map (\<lambda>row. (pp_node_id row, pp_port row)) (pool_t ?f) = map (\<lambda>row. (pp_node_id row, pp_port row)) (pool_t db)"
    using pool_keys_free(1) [of tid ?rid db] by (simp add: pool_keys_def)
  have "ids_ok ?d"
    using Cons.prems(1) keys by (auto simp: db_ok_def ids_ok_def f distinct_delete_where)
  moreover have "ports_ok ?d"
    using Cons.prems(1) unfolding ports_ok_def h by (auto simp: db_ok_def ports_ok_def f)
  ultimately have ok: "db_ok ?d" by (simp add: db_ok_def)
  show ?case
  proof (cases "wanted req r")
    case True
    then show ?thesis using Cons.IH [OF Cons.prems(1)] Cons.prems(2) by auto
  next
    case False
    have "db_ok (drop_unwanted tid req rs ?d)
     \<and> tunnels_t (drop_unwanted tid req rs ?d) = tunnels_t ?d
     \<and> reserved_t (drop_unwanted tid req rs ?d) = reserved_t ?d
     \<and> (\<forall>x. x \<in> set (routes_t (drop_unwanted tid req rs ?d)) \<longleftrightarrow>
          x \<in> set (routes_t ?d)
          \<and> \<not> (r_tunnel_id x = tid \<and> (\<exists>r \<in> set rs. \<not> wanted req r \<and> r_route_id x = r_route_id r)))"
      by (rule Cons.IH [OF ok]) (use Cons.prems(2) in simp)
    then show ?thesis using False by (auto simp: Let_def f)
  qed
qed

lemma add_missing_spec:
  "db_ok db \<Longrightarrow> tunnel_on db tid node \<Longrightarrow> add_missing locked node tid existing nid reqs db = Inr db' \<Longrightarrow>
     db_ok db' \<and> tunnels_t db' = tunnels_t db
     \<and> set (routes_t db) \<subseteq> set (routes_t db')
     \<and> (\<forall>x \<in> set (routes_t db') - set (routes_t db).
          \<exists>req \<in> set reqs. \<not> already existing req \<and> answers tid (r_route_id x) req x)
     \<and> (\<forall>req \<in> set reqs. \<not> already existing req \<longrightarrow>
          (\<exists>x \<in> set (routes_t db'). answers tid (r_route_id x) req x))"
proof (induction reqs arbitrary: nid db)
  case Nil
  then show ?case by simp
next
  case (Cons req reqs)
  show ?case
  proof (cases "already existing req")
    case True
    then show ?thesis using Cons.IH [OF Cons.prems(1,2)] Cons.prems(3) by auto
  next
    case False
    let ?nid = "to_i16 (nid + 1)"
    obtain pp db1 where 1: "new_route locked node tid ?nid req db = Inr (pp, db1)"
      and 2: "add_missing locked node tid existing ?nid reqs db1 = Inr db'"
      using Cons.prems(3) False by (auto simp: Let_def and_then_Inr_iff)
    note N = new_route_Inr [OF Cons.prems(1,2) 1]
    obtain x where x: "routes_t db1 = routes_t db @ [x]" "answers tid (r_route_id x) req x"
      using N(4,5) by (auto simp: answers_def)
    note IH = Cons.IH [OF N(1,3) 2]
    show ?thesis using IH x N(2) False by auto
  qed
qed

lemma set_route_sig_ok:
  assumes "db_ok db" and "set_route_sig tid sig db = Inr db'"
  shows "db_ok db' \<and> routes_t db' = routes_t db \<and> pool_t db' = pool_t db
    \<and> map t_id (tunnels_t db') = map t_id (tunnels_t db)"
proof -
  have db': "db' = db\<lparr>tunnels_t := update_where (\<lambda>t. t_id t = tid) (\<lambda>t. t\<lparr>t_route_sig := sig\<rparr>) (tunnels_t db)\<rparr>"
    using assms(2) by (auto simp: set_route_sig_def split: if_splits)
  have m: "map t_id (tunnels_t db') = map t_id (tunnels_t db)" "map t_subdomain (tunnels_t db') = map t_subdomain (tunnels_t db)"
    by (simp_all add: db' map_update_where)
  have ids: "\<exists>t \<in> set (tunnels_t db). t_id t = i \<Longrightarrow> \<exists>t \<in> set (tunnels_t db'). t_id t = i" for i
    using m(1) by (metis imageE image_eqI set_map)
  have "\<forall>t \<in> set (tunnels_t db'). t_id t < next_id db"
    using assms(1) by (auto simp: db' in_update_where db_ok_def ids_ok_def)
  then have "ids_ok db'" using assms(1) m ids by (auto simp: db_ok_def ids_ok_def db')
  moreover have "ports_ok db'"
    using assms(1) by (auto simp: db_ok_def ports_ok_def held_def db' in_update_where split: if_splits)
  ultimately show ?thesis using m by (simp add: db_ok_def db')
qed

lemma case_Inl_Inr [simp]:
  "(case r of Inl e \<Rightarrow> Inl (f e) | Inr x \<Rightarrow> Inr x) = Inr y \<longleftrightarrow> r = Inr y"
  by (cases r) auto

lemma set_service_routes_spec:
  assumes ok: "db_ok db" and on: "tunnel_on db tid node"
    and res: "set_service_routes locked tid node requested db = Inr (out, db')"
  shows "db_ok db'"
    and "\<forall>r \<in> set (routes_t db). r_tunnel_id r \<noteq> tid \<or> wanted requested r \<longrightarrow> r \<in> set (routes_t db')"
    and "\<forall>r \<in> set (routes_t db'). r_tunnel_id r \<noteq> tid \<longrightarrow> r \<in> set (routes_t db)"
    and "(\<lambda>r. (r_kind r, r_local_port r)) ` set out = (\<lambda>(m, p, _). (as_str m, int (unat p))) ` set requested"
    and "out = routes_for_tunnel db' tid"
    and "tunnels_t db' = update_where (\<lambda>t. t_id t = tid) (\<lambda>t. t\<lparr>t_route_sig := route_signature (pairs requested)\<rparr>)
           (tunnels_t db)"
proof -
  let ?ex = "routes_for_tunnel db tid"
  let ?db1 = "drop_unwanted tid requested ?ex db"
  obtain db2 where a: "add_missing locked node tid ?ex (coalesce (max_route_id None ?ex) 0) requested ?db1 = Inr db2"
    and s: "set_route_sig tid (route_signature (pairs requested)) db2 = Inr db'"
    and out: "out = routes_for_tunnel db' tid"
    using res by (auto simp: set_service_routes_def Let_def and_then_Inr_iff)
  note D = drop_unwanted_spec [OF ok, of ?ex tid requested]
  have ok1: "db_ok ?db1" and t1: "tunnels_t ?db1 = tunnels_t db" using D by simp_all
  have on1: "tunnel_on ?db1 tid node" using on t1 by (simp add: tunnel_on_def)
  note A = add_missing_spec [OF ok1 on1 a]
  note S = set_route_sig_ok [OF A [THEN conjunct1] s]
  show "db_ok db'" using S by simp
  show "out = routes_for_tunnel db' tid" by (rule out)
  show "tunnels_t db' = update_where (\<lambda>t. t_id t = tid) (\<lambda>t. t\<lparr>t_route_sig := route_signature (pairs requested)\<rparr>)
           (tunnels_t db)"
    using s A t1 by (auto simp: set_route_sig_def split: if_splits)
  have inj: "inj_on (\<lambda>r. (r_tunnel_id r, r_route_id r)) (set (routes_t db))"
    using ok by (simp add: db_ok_def ids_ok_def distinct_map)
  have r1: "x \<in> set (routes_t ?db1) \<longleftrightarrow> x \<in> set (routes_t db) \<and> (r_tunnel_id x = tid \<longrightarrow> wanted requested x)" for x
  proof -
    have "r = x" if "x \<in> set (routes_t db)" "r \<in> set ?ex" "r_tunnel_id x = tid" "r_route_id x = r_route_id r" for r
      using inj that by (auto dest: inj_onD)
    then show ?thesis using D by auto
  qed
  show "\<forall>r \<in> set (routes_t db). r_tunnel_id r \<noteq> tid \<or> wanted requested r \<longrightarrow> r \<in> set (routes_t db')"
    using r1 A S by auto
  show "\<forall>r \<in> set (routes_t db'). r_tunnel_id r \<noteq> tid \<longrightarrow> r \<in> set (routes_t db)"
    using r1 A S by (auto simp: answers_def)
  have mem: "x \<in> set out \<longleftrightarrow> x \<in> set (routes_t db2) \<and> r_tunnel_id x = tid" for x
    using S by (simp add: out)
  show "(\<lambda>r. (r_kind r, r_local_port r)) ` set out = (\<lambda>(m, p, _). (as_str m, int (unat p))) ` set requested"
  proof (intro equalityI subsetI)
    fix k assume "k \<in> (\<lambda>r. (r_kind r, r_local_port r)) ` set out"
    then obtain x where x: "x \<in> set (routes_t db2)" "r_tunnel_id x = tid" "k = (r_kind x, r_local_port x)"
      using mem by auto
    show "k \<in> (\<lambda>(m, p, _). (as_str m, int (unat p))) ` set requested"
    proof (cases "x \<in> set (routes_t ?db1)")
      case True
      then have "wanted requested x" using r1 x(2) by simp
      then show ?thesis using x(3) by (force simp: wanted_def)
    next
      case False
      then obtain m p l where "(m, p, l) \<in> set requested" "answers tid (r_route_id x) (m, p, l) x"
        using A x(1) by (metis DiffI prod_cases3)
      then show ?thesis using x(3) by (force simp: answers_def)
    qed
  next
    fix k assume "k \<in> (\<lambda>(m, p, _). (as_str m, int (unat p))) ` set requested"
    then obtain m p l where req: "(m, p, l) \<in> set requested" "k = (as_str m, int (unat p))" by auto
    show "k \<in> (\<lambda>r. (r_kind r, r_local_port r)) ` set out"
    proof (cases "already ?ex (m, p, l)")
      case True
      then obtain r where r: "r \<in> set (routes_t db)" "r_tunnel_id r = tid" "r_kind r = as_str m" "r_local_port r = int (unat p)"
        by (auto simp: already_def)
      then have "wanted requested r" using req(1) by (force simp: wanted_def)
      then have "r \<in> set out" using r mem r1 A by auto
      then show ?thesis using r req(2) by force
    next
      case False
      then obtain x where "x \<in> set (routes_t db2)" "answers tid (r_route_id x) (m, p, l) x" using A req(1) by blast
      then have "x \<in> set out" "k = (r_kind x, r_local_port x)" using mem req(2) by (auto simp: answers_def)
      then show ?thesis by force
    qed
  qed
qed

end
