(* ===== verification/Reservations.thy ===== *)
theory Reservations
  imports ReserveProofs
begin

text \<open>
  What the reservation layer promises: canonical route signatures, valid names, exclusive public
  ports under every transaction, idempotent reservation, exact route edits, and moves between nodes.
\<close>

section \<open>Moving a tunnel keeps the pool consistent\<close>

lemma update_tunnels_ids:
  assumes "ids_ok db" and f: "\<And>t. t_id (f t) = t_id t" "\<And>t. t_subdomain (f t) = t_subdomain t"
  shows "ids_ok (db\<lparr>tunnels_t := update_where P f (tunnels_t db)\<rparr>)"
proof -
  have m: "map t_id (update_where P f (tunnels_t db)) = map t_id (tunnels_t db)"
    "map t_subdomain (update_where P f (tunnels_t db)) = map t_subdomain (tunnels_t db)"
    by (simp_all add: f map_update_where)
  have im: "t_id ` set (update_where P f (tunnels_t db)) = t_id ` set (tunnels_t db)" by (metis m(1) set_map)
  have lt: "(\<forall>t \<in> set ts. t_id t < n) \<longleftrightarrow> (\<forall>i \<in> t_id ` set ts. i < n)"
    and ex: "(\<exists>t \<in> set ts. t_id t = i) \<longleftrightarrow> i \<in> t_id ` set ts" for ts :: "Tunnel list" and n i
    by auto
  show ?thesis using assms(1) unfolding ids_ok_def lt ex by (simp add: m im)
qed

lemma update_tunnels_ok:
  assumes "db_ok db" and f: "\<And>t. t_id (f t) = t_id t" "\<And>t. t_subdomain (f t) = t_subdomain t"
    "\<And>t. t_node_id (f t) = t_node_id t"
  shows "db_ok (db\<lparr>tunnels_t := update_where P f (tunnels_t db)\<rparr>)"
  using assms(1) update_tunnels_ids [OF _ f(1,2)] f
  by (auto simp: db_ok_def ports_ok_def held_def in_update_where)

text \<open>Every other tunnel's ports are held; and the routes of the moved tunnel numbered in \<^verbatim>\<open>I\<close> are held on the target.\<close>

definition others_ok :: "int \<Rightarrow> DB \<Rightarrow> bool" where
  "others_ok tid db \<longleftrightarrow>
     (\<forall>r \<in> set (routes_t db). \<forall>p t node. r_tunnel_id r \<noteq> tid \<longrightarrow> r_public_port r = Some p \<longrightarrow>
        t \<in> set (tunnels_t db) \<longrightarrow> t_id t = r_tunnel_id r \<longrightarrow> t_node_id t = Some node \<longrightarrow>
        held db node p (r_tunnel_id r) (r_route_id r))"

definition moved_ok :: "int \<Rightarrow> string \<Rightarrow> int set \<Rightarrow> DB \<Rightarrow> bool" where
  "moved_ok tid target I db \<longleftrightarrow>
     (\<forall>r \<in> set (routes_t db). \<forall>p. r_tunnel_id r = tid \<longrightarrow> r_route_id r \<in> I \<longrightarrow> r_public_port r = Some p \<longrightarrow>
        held db target p tid (r_route_id r))"

definition erase_port :: "RouteRow \<Rightarrow> RouteRow" where
  "erase_port r = r\<lparr>r_public_port := None\<rparr>"

definition movable :: "RouteRow \<Rightarrow> bool" where
  "movable r \<longleftrightarrow> r_kind r = ''tcp'' \<or> r_kind r = ''udp'' \<or> r_public_port r = None"

lemma set_port_routes:
  "map erase_port (update_where P (\<lambda>x. x\<lparr>r_public_port := p\<rparr>) rs) = map erase_port rs"
  by (rule map_update_where) (simp add: erase_port_def)

lemma filter_update_where:
  "(\<And>x. P x \<Longrightarrow> \<not> Q x) \<Longrightarrow> (\<And>x. P x \<Longrightarrow> \<not> Q (f x)) \<Longrightarrow> filter Q (update_where P f xs) = filter Q xs"
  by (induction xs) (auto simp: update_where_def)

lemma ball_update_where:
  "(\<forall>x \<in> set (update_where P f xs). R x) \<longleftrightarrow> (\<forall>y \<in> set xs. (P y \<longrightarrow> R (f y)) \<and> (\<not> P y \<longrightarrow> R y))"
  by (auto simp: update_where_def)

lemma update_where_other: "x \<in> set xs \<Longrightarrow> \<not> P x \<Longrightarrow> x \<in> set (update_where P f xs)"
  by (force simp: update_where_def)

lemma set_port_ids:
  "ids_ok db \<Longrightarrow> ids_ok (db\<lparr>routes_t := update_where P (\<lambda>x. x\<lparr>r_public_port := p\<rparr>) (routes_t db)\<rparr>)"
  by (auto simp: ids_ok_def in_update_where map_update_where)

lemma migrate_routes_ok:
  assumes "migrate_routes locked target tid rs db = Inr db'"
    and "ids_ok db" "others_ok tid db" "moved_ok tid target I db"
    and "\<forall>r \<in> set rs. r_kind r = ''tcp'' \<or> r_kind r = ''udp''
           \<or> (\<forall>x \<in> set (routes_t db). r_tunnel_id x = tid \<longrightarrow> r_route_id x = r_route_id r \<longrightarrow> r_public_port x = None)"
    and "distinct (map r_route_id rs)"
  shows "ids_ok db' \<and> others_ok tid db' \<and> moved_ok tid target (I \<union> r_route_id ` set rs) db'
    \<and> tunnels_t db' = tunnels_t db \<and> map erase_port (routes_t db') = map erase_port (routes_t db)
    \<and> filter (\<lambda>x. r_tunnel_id x \<noteq> tid) (routes_t db') = filter (\<lambda>x. r_tunnel_id x \<noteq> tid) (routes_t db)
    \<and> pool_keys db' = pool_keys db"
  using assms
proof (induction rs arbitrary: db I)
  case Nil
  then show ?case by simp
next
  case (Cons r rs)
  let ?r = "r_route_id r"
  show ?case
  proof (cases "r_kind r = ''tcp'' \<or> r_kind r = ''udp''")
    case False
    then have m: "migrate_routes locked target tid rs db = Inr db'" using Cons.prems(1) by simp
    have "moved_ok tid target (insert ?r I) db"
      using Cons.prems(4,5) False by (auto simp: moved_ok_def)
    from Cons.IH [OF m Cons.prems(2,3) this] show ?thesis using Cons.prems(5,6) by auto
  next
    case True
    then obtain p db1 where c: "claim_port locked target tid ?r db = (Some p, db1)"
      and m: "migrate_routes locked target tid rs (db1\<lparr>routes_t := update_where (\<lambda>x. r_tunnel_id x = tid \<and> r_route_id x = ?r)
                       (\<lambda>x. x\<lparr>r_public_port := Some p\<rparr>) (routes_t db1)\<rparr>) = Inr db'"
      using Cons.prems(1) by (auto split: prod.splits option.splits)
    obtain pool where db1: "db1 = db\<lparr>pool_t := pool\<rparr>" "pool_keys (db\<lparr>pool_t := pool\<rparr>) = pool_keys db"
      using claim_port_fields [OF c] by blast
    let ?db2 = "db1\<lparr>routes_t := update_where (\<lambda>x. r_tunnel_id x = tid \<and> r_route_id x = ?r)
                       (\<lambda>x. x\<lparr>r_public_port := Some p\<rparr>) (routes_t db1)\<rparr>"
    have d: "distinct (pool_keys db)" using Cons.prems(2) by (rule ids_ok_pool)
    have keep: "held db n q t x \<Longrightarrow> held ?db2 n q t x" for n q t x
      using pool.claim_keeps [OF d c] by (simp add: held_def)
    have gives: "held ?db2 target p tid ?r"
      using pool.claim_gives [OF d c] by (simp add: held_def)
    have i1: "ids_ok db1" using Cons.prems(2) db1 by (auto intro: ids_ok_pool_change)
    have i2: "ids_ok ?db2" by (rule set_port_ids [OF i1])
    have o2: "others_ok tid ?db2"
      using Cons.prems(3) keep by (auto simp: others_ok_def in_update_where db1 split: if_splits)
    have m2: "moved_ok tid target (insert ?r I) ?db2"
      unfolding moved_ok_def
    proof (intro ballI allI impI)
      fix x q
      assume x: "x \<in> set (routes_t ?db2)" "r_tunnel_id x = tid" "r_route_id x \<in> insert ?r I" "r_public_port x = Some q"
      then obtain y where y: "y \<in> set (routes_t db)"
        "x = (if r_tunnel_id y = tid \<and> r_route_id y = ?r then y\<lparr>r_public_port := Some p\<rparr> else y)"
        by (auto simp: in_update_where db1(1))
      show "held ?db2 target q tid (r_route_id x)"
      proof (cases "r_tunnel_id y = tid \<and> r_route_id y = ?r")
        case True
        then show ?thesis using gives x(4) y(2) by simp
      next
        case False
        then have "held db target q tid (r_route_id x)" using Cons.prems(4) x y by (auto simp: moved_ok_def)
        then show ?thesis by (rule keep)
      qed
    qed
    have k2: "\<forall>r' \<in> set rs. r_kind r' = ''tcp'' \<or> r_kind r' = ''udp''
           \<or> (\<forall>x \<in> set (routes_t ?db2). r_tunnel_id x = tid \<longrightarrow> r_route_id x = r_route_id r' \<longrightarrow> r_public_port x = None)"
    proof
      fix r' assume r': "r' \<in> set rs"
      then have ne: "r_route_id r' \<noteq> ?r" using Cons.prems(6) by (auto simp: image_iff)
      have "r_kind r' = ''tcp'' \<or> r_kind r' = ''udp''
           \<or> (\<forall>x \<in> set (routes_t db). r_tunnel_id x = tid \<longrightarrow> r_route_id x = r_route_id r' \<longrightarrow> r_public_port x = None)"
        using Cons.prems(5) r' by simp
      then show "r_kind r' = ''tcp'' \<or> r_kind r' = ''udp''
           \<or> (\<forall>x \<in> set (routes_t ?db2). r_tunnel_id x = tid \<longrightarrow> r_route_id x = r_route_id r' \<longrightarrow> r_public_port x = None)"
        using ne by (auto simp: ball_update_where db1(1))
    qed
    have dist: "distinct (map r_route_id rs)" using Cons.prems(6) by simp
    have same: "routes_t db1 = routes_t db" "tunnels_t ?db2 = tunnels_t db" "pool_keys ?db2 = pool_keys db"
      using db1(2) by (simp_all add: db1(1) pool_keys_def)
    have f2: "filter (\<lambda>x. r_tunnel_id x \<noteq> tid) (routes_t ?db2) = filter (\<lambda>x. r_tunnel_id x \<noteq> tid) (routes_t db)"
      by (simp add: same(1)) (rule filter_update_where, auto)
    have e2: "map erase_port (routes_t ?db2) = map erase_port (routes_t db)"
      by (simp add: same(1) set_port_routes)
    from Cons.IH [OF m i2 o2 m2 k2 dist] show ?thesis unfolding f2 e2 same(2,3) by simp
  qed
qed

lemma migrate_spec:
  assumes ok: "db_ok db" and mv: "\<forall>r \<in> set (routes_t db). r_tunnel_id r = tid \<longrightarrow> movable r"
    and m: "migrate_tunnel locked tid target host db = Inr db'"
  shows "db_ok db' \<and> tunnels_t db' = update_where (\<lambda>t. t_id t = tid)
          (\<lambda>t. t\<lparr>t_node_id := Some target, t_public_host := host, t_failover_from := None, t_custom_domain := None\<rparr>)
          (tunnels_t db)
    \<and> map erase_port (routes_t db') = map erase_port (routes_t db)
    \<and> filter (\<lambda>r. r_tunnel_id r \<noteq> tid) (routes_t db') = filter (\<lambda>r. r_tunnel_id r \<noteq> tid) (routes_t db)
    \<and> (\<forall>r \<in> set (routes_t db'). \<forall>p. r_tunnel_id r = tid \<longrightarrow> r_public_port r = Some p \<longrightarrow>
          held db' target p tid (r_route_id r))"
proof -
  let ?db0 = "free_tunnel_ports tid db" and ?rs = "routes_for_tunnel db tid"
  obtain db1 where r: "migrate_routes locked target tid ?rs ?db0 = Inr db1" and db': "db' = move_tunnel tid target host db1"
    using m by (auto simp: migrate_tunnel_def and_then_Inr_iff)
  have fields: "tunnels_t ?db0 = tunnels_t db" "routes_t ?db0 = routes_t db" "next_id ?db0 = next_id db"
    by (simp_all add: free_tunnel_ports_def)
  have ids: "ids_ok ?db0"
    using ok ids_ok_pool_change [of db "pool_t ?db0"] pool_keys_free(2) [of tid db]
    by (simp add: db_ok_def free_tunnel_ports_def)
  have oth: "others_ok tid ?db0"
    using ok unfolding others_ok_def held_free_tunnel fields by (auto simp: db_ok_def ports_ok_def)
  have inj: "inj_on (\<lambda>r. (r_tunnel_id r, r_route_id r)) (set (routes_t db))"
    and dr: "distinct (map (\<lambda>r. (r_tunnel_id r, r_route_id r)) (routes_t db))"
    using ok by (simp_all add: db_ok_def ids_ok_def distinct_map)
  have kinds: "\<forall>r \<in> set ?rs. r_kind r = ''tcp'' \<or> r_kind r = ''udp''
           \<or> (\<forall>x \<in> set (routes_t ?db0). r_tunnel_id x = tid \<longrightarrow> r_route_id x = r_route_id r \<longrightarrow> r_public_port x = None)"
  proof
    fix r assume r: "r \<in> set ?rs"
    then have "movable r" using mv by simp
    moreover have "x = r" if "x \<in> set (routes_t db)" "r_tunnel_id x = tid" "r_route_id x = r_route_id r" for x
      using inj that r by (auto dest: inj_onD)
    ultimately show "r_kind r = ''tcp'' \<or> r_kind r = ''udp''
           \<or> (\<forall>x \<in> set (routes_t ?db0). r_tunnel_id x = tid \<longrightarrow> r_route_id x = r_route_id r \<longrightarrow> r_public_port x = None)"
      by (auto simp: movable_def fields)
  qed
  have dist: "distinct (map r_route_id ?rs)"
    using dr inj by (auto simp: routes_for_tunnel_def distinct_map inj_on_def)
  note R = migrate_routes_ok [OF r ids oth _ kinds dist, of "{}"]
  have R': "ids_ok db1" "others_ok tid db1" "moved_ok tid target (r_route_id ` set ?rs) db1"
      "tunnels_t db1 = tunnels_t db" "map erase_port (routes_t db1) = map erase_port (routes_t db)"
      "filter (\<lambda>x. r_tunnel_id x \<noteq> tid) (routes_t db1) = filter (\<lambda>x. r_tunnel_id x \<noteq> tid) (routes_t db)"
    using R by (simp_all add: moved_ok_def fields)
  have keys: "(\<lambda>r. (r_tunnel_id r, r_route_id r)) ` set (routes_t db1) = (\<lambda>r. (r_tunnel_id r, r_route_id r)) ` set (routes_t db)"
  proof -
    have "map (\<lambda>r. (r_tunnel_id r, r_route_id r)) (map erase_port (routes_t db1))
        = map (\<lambda>r. (r_tunnel_id r, r_route_id r)) (map erase_port (routes_t db))"
      using R'(5) by simp
    then have "map (\<lambda>r. (r_tunnel_id r, r_route_id r)) (routes_t db1) = map (\<lambda>r. (r_tunnel_id r, r_route_id r)) (routes_t db)"
      by (simp add: erase_port_def o_def)
    then show ?thesis by (metis set_map)
  qed
  have all: "\<forall>r \<in> set (routes_t db1). \<forall>p. r_tunnel_id r = tid \<longrightarrow> r_public_port r = Some p \<longrightarrow>
          held db1 target p tid (r_route_id r)"
  proof (intro ballI allI impI)
    fix x p assume x: "x \<in> set (routes_t db1)" "r_tunnel_id x = tid" "r_public_port x = Some p"
    then have "(tid, r_route_id x) \<in> (\<lambda>r. (r_tunnel_id r, r_route_id r)) ` set (routes_t db)" using keys by force
    then have "r_route_id x \<in> r_route_id ` set ?rs" by force
    then show "held db1 target p tid (r_route_id x)" using R'(3) x by (auto simp: moved_ok_def)
  qed
  have h: "held db' n q t y \<longleftrightarrow> held db1 n q t y" for n q t y by (simp add: held_def db' move_tunnel_def)
  have "ids_ok db'"
    unfolding db' move_tunnel_def by (rule update_tunnels_ids [OF R'(1)]) simp_all
  moreover have "ports_ok db'"
    unfolding ports_ok_def h
  proof (intro ballI allI impI)
    fix r p t node
    assume r: "r \<in> set (routes_t db')" "r_public_port r = Some p"
      and t: "t \<in> set (tunnels_t db')" "t_id t = r_tunnel_id r" "t_node_id t = Some node"
    have r1: "r \<in> set (routes_t db1)" using r(1) by (simp add: db' move_tunnel_def)
    obtain x where x: "x \<in> set (tunnels_t db1)"
      and tx: "t = (if t_id x = tid then x\<lparr>t_node_id := Some target, t_public_host := host, t_failover_from := None,
                 t_custom_domain := None\<rparr> else x)"
      using t(1) by (auto simp: db' move_tunnel_def in_update_where)
    show "held db1 node p (r_tunnel_id r) (r_route_id r)"
    proof (cases "t_id x = tid")
      case True
      then have "r_tunnel_id r = tid" "node = target" using t(2,3) tx by simp_all
      then show ?thesis using all r1 r(2) by simp
    next
      case False
      then have "t_id x = r_tunnel_id r" "t_node_id x = Some node" "r_tunnel_id r \<noteq> tid" using t(2,3) tx by simp_all
      then show ?thesis using R'(2) r1 r(2) x unfolding others_ok_def by blast
    qed
  qed
  ultimately show ?thesis
    using R'(4-6) all h by (simp add: db_ok_def) (simp add: db' move_tunnel_def)
qed


lemma migrate_routes_movable:
  assumes "migrate_routes locked target tid rs db = Inr db'" and "\<forall>x \<in> set (routes_t db). movable x"
    and "\<forall>r \<in> set rs. \<forall>x \<in> set (routes_t db). r_tunnel_id x = tid \<longrightarrow> r_route_id x = r_route_id r \<longrightarrow> r_kind x = r_kind r"
  shows "\<forall>x \<in> set (routes_t db'). movable x"
  using assms
proof (induction rs arbitrary: db)
  case Nil
  then show ?case by simp
next
  case (Cons r rs)
  show ?case
  proof (cases "r_kind r = ''tcp'' \<or> r_kind r = ''udp''")
    case False
    then have m: "migrate_routes locked target tid rs db = Inr db'" using Cons.prems(1) by simp
    show ?thesis by (rule Cons.IH [OF m Cons.prems(2)]) (use Cons.prems(3) in simp)
  next
    case True
    then obtain p db1 where c: "claim_port locked target tid (r_route_id r) db = (Some p, db1)"
      and m: "migrate_routes locked target tid rs (db1\<lparr>routes_t := update_where
                (\<lambda>x. r_tunnel_id x = tid \<and> r_route_id x = r_route_id r)
                (\<lambda>x. x\<lparr>r_public_port := Some p\<rparr>) (routes_t db1)\<rparr>) = Inr db'"
      using Cons.prems(1) by (auto split: prod.splits option.splits)
    have same: "routes_t db1 = routes_t db" using claim_port_fields [OF c] by auto
    show ?thesis
    proof (rule Cons.IH [OF m])
      show "\<forall>x \<in> set (routes_t (db1\<lparr>routes_t := update_where (\<lambda>x. r_tunnel_id x = tid \<and> r_route_id x = r_route_id r)
                (\<lambda>x. x\<lparr>r_public_port := Some p\<rparr>) (routes_t db1)\<rparr>)). movable x"
      proof -
        have "r_kind x = ''tcp'' \<or> r_kind x = ''udp''"
          if "x \<in> set (routes_t db)" "r_tunnel_id x = tid" "r_route_id x = r_route_id r" for x
          using Cons.prems(3) True that by auto
        then have "\<forall>x \<in> set (routes_t db). r_tunnel_id x = tid \<and> r_route_id x = r_route_id r
            \<longrightarrow> movable (x\<lparr>r_public_port := Some p\<rparr>)"
          by (auto simp: movable_def)
        then show ?thesis using Cons.prems(2) by (simp add: same ball_update_where)
      qed
      show "\<forall>r' \<in> set rs. \<forall>x \<in> set (routes_t (db1\<lparr>routes_t := update_where (\<lambda>x. r_tunnel_id x = tid \<and> r_route_id x = r_route_id r)
                (\<lambda>x. x\<lparr>r_public_port := Some p\<rparr>) (routes_t db1)\<rparr>)).
          r_tunnel_id x = tid \<longrightarrow> r_route_id x = r_route_id r' \<longrightarrow> r_kind x = r_kind r'"
        using Cons.prems(3) by (auto simp: same ball_update_where)
    qed
  qed
qed

lemma migrate_movable:
  assumes ok: "db_ok db" and mv: "\<forall>r \<in> set (routes_t db). movable r"
    and m: "migrate_tunnel locked tid target host db = Inr db'"
  shows "\<forall>r \<in> set (routes_t db'). movable r"
proof -
  obtain db1 where r: "migrate_routes locked target tid (routes_for_tunnel db tid) (free_tunnel_ports tid db) = Inr db1"
    and db': "db' = move_tunnel tid target host db1"
    using m by (auto simp: migrate_tunnel_def and_then_Inr_iff)
  have inj: "inj_on (\<lambda>r. (r_tunnel_id r, r_route_id r)) (set (routes_t db))"
    using ok by (simp add: db_ok_def ids_ok_def distinct_map)
  have "\<forall>x \<in> set (routes_t db1). movable x"
  proof (rule migrate_routes_movable [OF r])
    show "\<forall>x \<in> set (routes_t (free_tunnel_ports tid db)). movable x" using mv by (simp add: free_tunnel_ports_def)
    show "\<forall>r \<in> set (routes_for_tunnel db tid). \<forall>x \<in> set (routes_t (free_tunnel_ports tid db)).
        r_tunnel_id x = tid \<longrightarrow> r_route_id x = r_route_id r \<longrightarrow> r_kind x = r_kind r"
    proof (intro ballI impI)
      fix r x
      assume "r \<in> set (routes_for_tunnel db tid)" "x \<in> set (routes_t (free_tunnel_ports tid db))"
        "r_tunnel_id x = tid" "r_route_id x = r_route_id r"
      then have "x = r" by (intro inj_onD [OF inj]) (auto simp: free_tunnel_ports_def)
      then show "r_kind x = r_kind r" by simp
    qed
  qed
  then show ?thesis by (simp add: db' move_tunnel_def)
qed

section \<open>Failover\<close>

lemma failover_each_spec:
  assumes "db_ok db" and "\<forall>r \<in> set (routes_t db). movable r"
    and "\<forall>(tid, sub, src) \<in> set ps. dead src"
    and "failover_each locked dl target host ps db = (moved, db')"
  shows "db_ok db' \<and> (\<forall>r \<in> set (routes_t db'). movable r)
    \<and> (\<forall>(sub, src, to) \<in> set moved. dead src \<and> to = target)
    \<and> map t_id (tunnels_t db') = map t_id (tunnels_t db)
    \<and> (\<forall>t \<in> set (tunnels_t db). t_id t \<notin> fst ` set ps \<longrightarrow> t \<in> set (tunnels_t db'))
    \<and> (\<forall>t' \<in> set (tunnels_t db'). t' \<in> set (tunnels_t db) \<or> t_node_id t' = Some target \<and> t_id t' \<in> fst ` set ps)"
  using assms(1,2,3,4)
proof (induction ps arbitrary: db moved)
  case Nil
  then show ?case by simp
next
  case (Cons q ps)
  obtain tid sub src where q: "q = (tid, sub, src)" by (cases q)
  have rest: "\<forall>(tid, sub, src) \<in> set ps. dead src"
    using Cons.prems(3) by auto
  have src: "dead src" using Cons.prems(3) q by simp
  show ?case
  proof (cases "src = target \<or> (\<exists>e. migrate_tunnel locked tid target host db = Inl e)")
    case True
    then have "failover_each locked dl target host ps db = (moved, db')"
      using Cons.prems(4) by (auto simp: q split: if_splits)
    from Cons.IH [OF Cons.prems(1,2) rest this] show ?thesis by (auto simp: q)
  next
    case False
    then obtain db1 where ne: "src \<noteq> target" and Inr: "migrate_tunnel locked tid target host db = Inr db1"
      by (cases "migrate_tunnel locked tid target host db") auto
    obtain label where "label = (case find (\<lambda>d. fst d = src) dl of Some (_, l) \<Rightarrow> l | None \<Rightarrow> src)" by simp
    note label = this [symmetric]
    let ?db2 = "db1\<lparr>tunnels_t := update_where (\<lambda>t. t_id t = tid) (\<lambda>t. t\<lparr>t_failover_from := Some label\<rparr>) (tunnels_t db1)\<rparr>"
    obtain m2 where m2: "failover_each locked dl target host ps ?db2 = (m2, db')" and moved: "moved = (sub, src, target) # m2"
      using Cons.prems(4) ne Inr by (auto simp: q Let_def label split: prod.splits)
    have S: "db_ok db1" and ts: "tunnels_t db1 = update_where (\<lambda>t. t_id t = tid)
          (\<lambda>t. t\<lparr>t_node_id := Some target, t_public_host := host, t_failover_from := None, t_custom_domain := None\<rparr>)
          (tunnels_t db)"
      using migrate_spec [OF Cons.prems(1) _ Inr] Cons.prems(2) by auto
    have ok2: "db_ok ?db2" by (rule update_tunnels_ok [OF S]) simp_all
    have mv2: "\<forall>r \<in> set (routes_t ?db2). movable r" using migrate_movable [OF Cons.prems(1,2) Inr] by simp
    have ids2: "map t_id (tunnels_t ?db2) = map t_id (tunnels_t db)" by (simp add: ts map_update_where)
    have keep: "t \<in> set (tunnels_t ?db2)" if "t \<in> set (tunnels_t db)" "t_id t \<noteq> tid" for t
      using that by (simp add: ts update_where_other)
    have bck: "\<forall>t \<in> set (tunnels_t ?db2). t \<in> set (tunnels_t db) \<or> t_node_id t = Some target \<and> t_id t = tid"
      by (simp add: ts ball_update_where)
    from Cons.IH [OF ok2 mv2 rest m2] show ?thesis
      using src keep bck ids2 by (auto simp: q moved)
  qed
qed


lemma failover_spec:
  assumes ok: "db_ok db" and mv: "\<forall>r \<in> set (routes_t db). movable r"
    and f: "failover_stale_nodes locked now stale db = (moved, db')"
  shows "db_ok db' \<and> map t_id (tunnels_t db') = map t_id (tunnels_t db)
    \<and> (\<forall>(sub, src, dst) \<in> set moved.
         (\<exists>n \<in> set (nodes_t db). node_stale now stale n \<and> n_node_id n = src)
         \<and> (\<exists>n \<in> set (nodes_t db). node_healthy now stale n \<and> n_node_id n = dst))
    \<and> (\<forall>t \<in> set (tunnels_t db).
         (\<forall>n \<in> set (nodes_t db). node_stale now stale n \<longrightarrow> t_node_id t \<noteq> Some (n_node_id n)) \<longrightarrow> t \<in> set (tunnels_t db'))
    \<and> (\<forall>t \<in> set (tunnels_t db'). t \<in> set (tunnels_t db)
         \<or> (\<exists>n \<in> set (nodes_t db). node_healthy now stale n \<and> t_node_id t = Some (n_node_id n)))"
proof -
  let ?dead = "map (\<lambda>n. (n_node_id n, region_label n)) (filter (node_stale now stale) (nodes_t db))"
  let ?isdead = "\<lambda>x. \<exists>n \<in> set (nodes_t db). node_stale now stale n \<and> n_node_id n = x"
  show ?thesis
  proof (cases "?dead = [] \<or> sort_key n_created_at (filter (node_healthy now stale) (nodes_t db)) = []")
    case True
    then have "moved = [] \<and> db' = db" using f by (auto simp: failover_stale_nodes_def Let_def split: if_splits)
    then show ?thesis using ok by simp
  next
    case False
    then obtain target tl where t: "sort_key n_created_at (filter (node_healthy now stale) (nodes_t db)) = target # tl"
      by (meson neq_Nil_conv)
    let ?ps = "map (\<lambda>t. (t_id t, t_subdomain t, the (t_node_id t)))
                     (filter (\<lambda>t. t_node_id t \<in> Some ` set (map fst ?dead)) (tunnels_t db))"
    have e: "failover_each locked ?dead (n_node_id target) (n_public_host target) ?ps db = (moved, db')"
      using f False t by (simp add: failover_stale_nodes_def Let_def)
    have tgt: "target \<in> set (nodes_t db) \<and> node_healthy now stale target"
      using arg_cong [OF t, of set] by auto
    have ps: "\<forall>(tid, sub, src) \<in> set ?ps. ?isdead src" by auto
    have outside: "t_id t \<notin> fst ` set ?ps"
      if "t \<in> set (tunnels_t db)" "\<forall>n \<in> set (nodes_t db). node_stale now stale n \<longrightarrow> t_node_id t \<noteq> Some (n_node_id n)" for t
    proof
      assume "t_id t \<in> fst ` set ?ps"
      then obtain u where u: "u \<in> set (tunnels_t db)" "t_id u = t_id t" "t_node_id u \<in> Some ` set (map fst ?dead)" by auto
      then have "u = t" using ok that(1) by (auto simp: db_ok_def ids_ok_def distinct_map dest: inj_onD)
      then show False using u(3) that(2) by auto
    qed
    note S = failover_each_spec [OF ok mv ps e]
    have moves: "(\<exists>n \<in> set (nodes_t db). node_stale now stale n \<and> n_node_id n = src)
         \<and> (\<exists>n \<in> set (nodes_t db). node_healthy now stale n \<and> n_node_id n = dst)"
      if "(sub, src, dst) \<in> set moved" for sub src dst
    proof -
      have "?isdead src \<and> dst = n_node_id target" using S that by blast
      then show ?thesis using tgt by blast
    qed
    have kept: "t \<in> set (tunnels_t db')"
      if "t \<in> set (tunnels_t db)" "\<forall>n \<in> set (nodes_t db). node_stale now stale n \<longrightarrow> t_node_id t \<noteq> Some (n_node_id n)" for t
      using S outside [OF that] that(1) by blast
    have new: "t \<in> set (tunnels_t db) \<or> (\<exists>n \<in> set (nodes_t db). node_healthy now stale n \<and> t_node_id t = Some (n_node_id n))"
      if "t \<in> set (tunnels_t db')" for t
      using S that tgt by blast
    show ?thesis using S moves kept new by blast
  qed
qed

lemma failover_ok:
  "db_ok db \<Longrightarrow> \<forall>r \<in> set (routes_t db). movable r \<Longrightarrow>
     failover_stale_nodes locked now stale db = (moved, db') \<Longrightarrow> db_ok db'"
  using failover_spec by blast

section \<open>Reserving twice\<close>

lemma reserve_routes_tunnels:
  "reserve_routes locked node tid i reqs db = Inr (out, db') \<Longrightarrow> tunnels_t db' = tunnels_t db"
  by (induction reqs arbitrary: i db out)
     (auto simp: Let_def and_then_Inr_iff dest: new_route_fields(1))

lemma fetch_snoc: "fetch_optional P xs = None \<Longrightarrow> P x \<Longrightarrow> fetch_optional P (xs @ [x]) = Some x"
  by (induction xs) (auto simp: fetch_optional_def split: if_splits)

lemma reserve_then_found:
  assumes res: "reserve_tunnel lower locked draws now owner node host requested custom mx reuse device db = Inr (rt, db')"
  shows "\<exists>ex. fetch_optional (same_set owner (route_signature (pairs requested)) device) (tunnels_t db') = Some ex
    \<and> t_id ex = rt_tunnel_id rt \<and> t_subdomain ex = rt_subdomain rt \<and> t_public_host ex = rt_public_host rt"
proof (cases "fetch_optional (same_set owner (route_signature (pairs requested)) device) (tunnels_t db)")
  case (Some ex)
  then show ?thesis using res by (auto simp: reserve_tunnel_def Let_def split: if_splits)
next
  case None
  show ?thesis
    using res
  proof (cases rule: reserve_tunnel_cases)
    case (reused ex)
    then show ?thesis using None by simp
  next
    case (created tid sub db1 out)
    note I = insert_tunnel_Inr [OF created(2)] and t = reserve_routes_tunnels [OF created(6)]
    have "fetch_optional (same_set owner (route_signature (pairs requested)) device) (tunnels_t db1) = Some (last (tunnels_t db1))"
      unfolding I(6) last_snoc by (rule fetch_snoc [OF None]) (simp add: same_set_def)
    then show ?thesis using created(7) by (simp add: t I(6))
  qed
qed

section \<open>An example database\<close>

definition demo_node :: "string \<Rightarrow> int \<Rightarrow> int option \<Rightarrow> NodeRow" where
  "demo_node n created seen = \<lparr> n_node_id = n, n_name = n, n_region = None, n_public_host = n @ ''.example'',
     n_control_endpoint = n, n_internal_url = n, n_http_port = 80, n_https_port = 443, n_active = True,
     n_control_cert_fp = None, n_last_seen = seen, n_created_at = created \<rparr>"

definition demo_pool_row :: "string \<Rightarrow> int \<Rightarrow> PoolRow" where
  "demo_pool_row n p = \<lparr> pp_node_id = n, pp_port = p, pp_tunnel_id = None, pp_route_id = None \<rparr>"

definition demo_user :: User where
  "demo_user = \<lparr> u_id = 7, u_email = ''a@b.c'', u_name = None, u_password_hash = ''h'', u_role = ''user'',
     u_banned = False, u_max_tunnels = 10, u_created_at = 0 \<rparr>"

definition demo_db :: DB where
  "demo_db = \<lparr> users_t = [demo_user], devices_t = [], tunnels_t = [], routes_t = [],
     pool_t = [demo_pool_row ''a'' 20001, demo_pool_row ''a'' 20000, demo_pool_row ''b'' 20000],
     nodes_t = [demo_node ''a'' 0 (Some 10), demo_node ''b'' 1 (Some 990)],
     bandwidth_t = [], logs_t = [], region_blocks_t = [], tunnel_blocks_t = [], reserved_t = [''www''], next_id = 1 \<rparr>"

lemma demo_db_ok: "db_ok demo_db"
  by (simp add: db_ok_def ids_ok_def ports_ok_def demo_db_def demo_pool_row_def)

definition demo_requests :: "request list" where
  "demo_requests = [(Tcp, 22, Some '' ssh ''), (Http, 8080, None)]"

definition demo_reserved :: ReservedTunnel where
  "demo_reserved = \<lparr> rt_tunnel_id = 1, rt_subdomain = ''duck-a1b2'', rt_node_id = ''a'', rt_public_host = ''a.example'',
     rt_routes =
       [\<lparr> r_id = 0, r_tunnel_id = 1, r_route_id = 1, r_kind = ''tcp'', r_local_port = 22, r_public_port = Some 20000,
          r_label = Some ''ssh'', r_srv_service = None \<rparr>,
        \<lparr> r_id = 0, r_tunnel_id = 1, r_route_id = 2, r_kind = ''http'', r_local_port = 8080, r_public_port = None,
          r_label = None, r_srv_service = None \<rparr>],
     rt_custom_domain = None, rt_reused = False \<rparr>"

definition demo_tunnel :: Tunnel where
  "demo_tunnel = \<lparr> t_id = 1, t_subdomain = ''duck-a1b2'', t_name = None, t_owner_id = 7,
     t_route_sig = ''http:8080,tcp:22'', t_status = ''awaiting_agent'', t_public_host = ''a.example'', t_node_id = Some ''a'',
     t_agent_ip = None, t_created_at = 5, t_last_seen = None, t_custom_domain = None, t_device_id = None,
     t_last_active_at = None, t_failover_from = None \<rparr>"

definition demo_db1 :: DB where
  "demo_db1 = demo_db\<lparr>tunnels_t := [demo_tunnel],
     routes_t := [(rt_routes demo_reserved ! 0)\<lparr>r_id := 2\<rparr>, (rt_routes demo_reserved ! 1)\<lparr>r_id := 3\<rparr>],
     pool_t := [demo_pool_row ''a'' 20001,
       (demo_pool_row ''a'' 20000)\<lparr>pp_tunnel_id := Some 1, pp_route_id := Some 1\<rparr>, demo_pool_row ''b'' 20000],
     next_id := 4\<rparr>"

lemma demo_signature: "route_signature (pairs demo_requests) = ''http:8080,tcp:22''"
  by (simp add: route_signature_def pairs_def demo_requests_def route_part_def less_eq_char_def less_char_def)

lemma demo_pick:
  "pick_random 5 7 ''http:8080,tcp:22'' ''a.example'' ''a'' None (map random_subdomain (take 10 [(0, 0, 27, 1, 28)]))
     (Some demo_db) = Inr (1, ''duck-a1b2'', demo_db\<lparr>tunnels_t := [demo_tunnel], next_id := 2\<rparr>)"
  by code_simp

lemma demo_routes:
  "reserve_routes [] ''a'' 1 0 demo_requests (demo_db\<lparr>tunnels_t := [demo_tunnel], next_id := 2\<rparr>)
     = Inr (rt_routes demo_reserved, demo_db1)"
  by code_simp

lemma demo_reserve:
  "reserve_tunnel id [] [(0, 0, 27, 1, 28)] 5 7 ''a'' ''a.example'' demo_requests None 10 reuse None demo_db
     = Inr (demo_reserved, demo_db1)"
proof -
  have none: "fetch_optional (same_set 7 ''http:8080,tcp:22'' None) (tunnels_t demo_db) = None" by code_simp
  have count: "count_where (\<lambda>t. t_owner_id t = 7) (tunnels_t demo_db) = 0" by code_simp
  show ?thesis
    unfolding reserve_tunnel_def demo_signature Let_def none count option.case demo_pick
    by (simp add: demo_routes) (simp add: demo_reserved_def)
qed

lemma demo_db1_ok: "db_ok demo_db1"
  by (rule reserve_keeps_db_ok_lemma [OF demo_db_ok demo_reserve])

lemma subdomain_ends: "\<not> sub_alnum CHR ''-''"
  by code_simp

lemma valid_subdomain_iff:
  "valid_subdomain s \<longleftrightarrow>
     3 \<le> length s \<and> length s \<le> 30 \<and> (\<forall>c \<in> set s. sub_alnum c \<or> c = CHR ''-'')
     \<and> hd s \<noteq> CHR ''-'' \<and> last s \<noteq> CHR ''-''"
proof (cases s)
  case Nil
  then show ?thesis by (simp add: valid_subdomain_def)
next
  case (Cons c cs)
  then have ne: "s \<noteq> []" by simp
  then have ends: "s ! 0 = hd s" "s ! (length s - 1) = last s" "hd s \<in> set s" "last s \<in> set s"
    using hd_conv_nth last_conv_nth by fastforce+
  show ?thesis
  proof (cases "\<forall>c \<in> set s. sub_alnum c \<or> c = CHR ''-''")
    case True
    have "sub_alnum (s ! 0) \<longleftrightarrow> hd s \<noteq> CHR ''-''" "sub_alnum (s ! (length s - 1)) \<longleftrightarrow> last s \<noteq> CHR ''-''"
      using True ends subdomain_ends by metis+
    then show ?thesis unfolding valid_subdomain_def Let_def list_all_iff by argo
  next
    case False
    then show ?thesis unfolding valid_subdomain_def Let_def list_all_iff by argo
  qed
qed

lemma words_ok:
  "list_all (\<lambda>w. length w = 3 \<or> length w = 4) WORDS" "list_all (list_all sub_alnum) WORDS"
  "list_all sub_alnum SUFFIX_CHARS" "length SUFFIX_CHARS = 36" "length WORDS = 12"
  by code_simp+

lemma random_subdomain_valid: "valid_subdomain (random_subdomain d)"
proof -
  obtain w a b c e where d: "d = (w, a, b, c, e)" by (cases d)
  obtain word where word: "word = WORDS ! (w mod length WORDS)" by simp
  then have mem: "word \<in> set WORDS" using words_ok(5) by (simp add: nth_mem)
  then have len: "length word = 3 \<or> length word = 4" and al: "\<forall>c \<in> set word. sub_alnum c"
    using words_ok(1,2) by (auto simp: list_all_iff)
  have suf: "sub_alnum (SUFFIX_CHARS ! (i mod 36))" for i
    using words_ok(3,4) by (simp add: list_all_length)
  have shape: "random_subdomain d = word @ ''-'' @ map (\<lambda>i. SUFFIX_CHARS ! (i mod 36)) [a, b, c, e]"
    by (simp add: random_subdomain_def d word)
  obtain c0 cs where "word = c0 # cs" using len by (cases word) auto
  then have "hd (random_subdomain d) \<in> set word" by (simp add: shape)
  then have "hd (random_subdomain d) \<noteq> CHR ''-''" using al subdomain_ends by metis
  moreover have "last (random_subdomain d) \<noteq> CHR ''-''"
    using suf [of e] subdomain_ends by (auto simp: shape)
  ultimately show ?thesis
    unfolding valid_subdomain_iff using len al suf by (auto simp: shape)
qed

definition demo_edit_requests :: "request list" where
  "demo_edit_requests = [(Tcp, 22, None), (Udp, 53, None)]"

definition demo_edit_out :: "RouteRow list" where
  "demo_edit_out =
     [(rt_routes demo_reserved ! 0)\<lparr>r_id := 2\<rparr>,
      \<lparr> r_id = 4, r_tunnel_id = 1, r_route_id = 3, r_kind = ''udp'', r_local_port = 53, r_public_port = Some 20001,
        r_label = None, r_srv_service = None \<rparr>]"

definition demo_edit_mid :: DB where
  "demo_edit_mid = demo_db1\<lparr>routes_t := demo_edit_out,
     pool_t := [(demo_pool_row ''a'' 20001)\<lparr>pp_tunnel_id := Some 1, pp_route_id := Some 3\<rparr>,
       (demo_pool_row ''a'' 20000)\<lparr>pp_tunnel_id := Some 1, pp_route_id := Some 1\<rparr>, demo_pool_row ''b'' 20000],
     next_id := 5\<rparr>"

definition demo_edit_db :: DB where
  "demo_edit_db = demo_edit_mid\<lparr>tunnels_t := [demo_tunnel\<lparr>t_route_sig := ''tcp:22,udp:53''\<rparr>]\<rparr>"

lemma demo_edit_signature: "route_signature (pairs demo_edit_requests) = ''tcp:22,udp:53''"
  by (simp add: route_signature_def pairs_def demo_edit_requests_def route_part_def less_eq_char_def less_char_def)

lemma demo_edit: "set_service_routes [] 1 ''a'' demo_edit_requests demo_db1 = Inr (demo_edit_out, demo_edit_db)"
proof -
  have a: "add_missing [] ''a'' 1 (routes_for_tunnel demo_db1 1)
        (coalesce (max_route_id None (routes_for_tunnel demo_db1 1)) 0) demo_edit_requests
        (drop_unwanted 1 demo_edit_requests (routes_for_tunnel demo_db1 1) demo_db1) = Inr demo_edit_mid"
    by code_simp
  have s: "set_route_sig 1 ''tcp:22,udp:53'' demo_edit_mid = Inr demo_edit_db" by code_simp
  have o: "routes_for_tunnel demo_edit_db 1 = demo_edit_out" by code_simp
  show ?thesis unfolding set_service_routes_def Let_def demo_edit_signature a by (simp add: s o)
qed

lemma demo_on: "tunnel_on demo_db1 1 ''a''"
  by (simp add: tunnel_on_def demo_db1_def demo_tunnel_def)

definition demo_moved_db :: DB where
  "demo_moved_db = demo_db1\<lparr>
     tunnels_t := [demo_tunnel\<lparr>t_node_id := Some ''b'', t_public_host := ''b.example''\<rparr>],
     routes_t := [(rt_routes demo_reserved ! 0)\<lparr>r_id := 2\<rparr>, (rt_routes demo_reserved ! 1)\<lparr>r_id := 3\<rparr>],
     pool_t := [demo_pool_row ''a'' 20001, demo_pool_row ''a'' 20000,
       (demo_pool_row ''b'' 20000)\<lparr>pp_tunnel_id := Some 1, pp_route_id := Some 1\<rparr>]\<rparr>"

lemma demo_migrate: "migrate_tunnel [] 1 ''b'' ''b.example'' demo_db1 = Inr demo_moved_db"
  by code_simp

lemma demo_movable: "\<forall>r \<in> set (routes_t demo_db1). r_tunnel_id r = 1 \<longrightarrow> movable r"
  by (simp add: demo_db1_def demo_reserved_def movable_def)

text \<open>
  A tunnel with a \<^verbatim>\<open>both\<close> route: the move frees its port on the old node but takes none on the new one,
  so the route still advertises port 20000 while the target's pool hands 20000 to the next tunnel.
\<close>

definition demo_both_db :: DB where
  "demo_both_db = demo_db1\<lparr>
     routes_t := [(rt_routes demo_reserved ! 0)\<lparr>r_id := 2, r_kind := ''both''\<rparr>]\<rparr>"

theorem both_routes_keep_a_foreign_port:
  "case migrate_tunnel [] 1 ''b'' ''b.example'' demo_both_db of
     Inl _ \<Rightarrow> False
   | Inr db' \<Rightarrow>
       map (\<lambda>r. (r_tunnel_id r, r_public_port r)) (routes_t db') = [(1, Some 20000)]
       \<and> map t_node_id (tunnels_t db') = [Some ''b'']
       \<and> list_all (\<lambda>row. pp_tunnel_id row = None) (pool_t db')
       \<and> fst (claim_port [] ''b'' 2 1 db') = Some 20000"
  by code_simp

section \<open>Properties\<close>

text \<open>
  The stored signature of a route set is canonical: two requests have the same signature exactly
  if they ask for the same routes the same number of times, in whatever order.
\<close>

theorem signature_canonical: "route_signature a = route_signature b \<longleftrightarrow> mset a = mset b"
  by (rule route_signature_eq_iff)

text \<open>
  A subdomain is accepted exactly if it is a DNS label of 3 to 30 lowercase letters, digits and
  hyphens that neither starts nor ends with a hyphen; every generated name is accepted.
\<close>

theorem subdomain_rule:
  "(valid_subdomain s \<longleftrightarrow>
      3 \<le> length s \<and> length s \<le> 30 \<and> (set s \<subseteq> {c. is_ascii_lowercase c \<or> is_ascii_digit c \<or> c = CHR ''-''})
      \<and> hd s \<noteq> CHR ''-'' \<and> last s \<noteq> CHR ''-'')
   \<and> valid_subdomain (random_subdomain d)"
  using random_subdomain_valid [of d] by (auto simp: valid_subdomain_iff sub_alnum_def)

text \<open>
  C4: a reservation keeps the database consistent, so afterwards no public port of a node is
  advertised by two routes.
\<close>

theorem reserve_ports_exclusive:
  assumes "db_ok db"
    and "reserve_tunnel lower locked draws now owner node host requested custom mx reuse device db = Inr (rt, db')"
  shows "db_ok db' \<and>
    (\<forall>r \<in> set (routes_t db'). \<forall>r' \<in> set (routes_t db'). \<forall>t \<in> set (tunnels_t db'). \<forall>t' \<in> set (tunnels_t db').
       \<forall>p n. r_public_port r = Some p \<and> r_public_port r' = Some p \<and> t_id t = r_tunnel_id r \<and> t_id t' = r_tunnel_id r'
         \<and> t_node_id t = Some n \<and> t_node_id t' = Some n \<longrightarrow> r = r')"
  using reserve_keeps_db_ok_lemma [OF assms] by (blast intro: ports_exclusive)

theorem reserve_ports_exclusive_witness: "db_ok demo_db1 \<and> routes_t demo_db1 \<noteq> []"
  using reserve_ports_exclusive [OF demo_db_ok demo_reserve] by (simp add: demo_db1_def)

text \<open>
  C24: a reservation that is not a reuse appends one tunnel under the owner's quota, with a subdomain
  that no other tunnel has and that is not on the block list (the chosen one in lower case, or a
  generated one), and one route per request in order: its kind, local port, cleaned label, a dedicated
  public port exactly if it is not host-routed, and route ids counting from 1.
\<close>

theorem reserve_creates:
  assumes "db_ok db"
    and "reserve_tunnel lower locked draws now owner node host requested custom mx reuse device db = Inr (rt, db')"
    and "\<not> rt_reused rt"
  shows "(\<exists>t. tunnels_t db' = tunnels_t db @ [t] \<and> t_id t = rt_tunnel_id rt \<and> t_subdomain t = rt_subdomain rt
        \<and> t_owner_id t = owner \<and> t_device_id t = device \<and> t_node_id t = Some node
        \<and> t_route_sig t = route_signature (pairs requested))
     \<and> rt_subdomain rt \<notin> t_subdomain ` set (tunnels_t db) \<and> rt_subdomain rt \<notin> set (reserved_t db)
     \<and> rt_tunnel_id rt \<notin> t_id ` set (tunnels_t db)
     \<and> int (count_where (\<lambda>t. t_owner_id t = owner) (tunnels_t db)) < mx
     \<and> length (rt_routes rt) = length requested
     \<and> (\<forall>k < length requested.
          answers (rt_tunnel_id rt) (to_i16 (to_i16 (int k) + 1)) (requested ! k) (rt_routes rt ! k))
     \<and> map (\<lambda>r. r\<lparr>r_id := 0\<rparr>) (routes_t db') = map (\<lambda>r. r\<lparr>r_id := 0\<rparr>) (routes_t db) @ rt_routes rt
     \<and> (case custom of Some c \<Rightarrow> rt_subdomain rt = lower (trim c) \<and> valid_subdomain (rt_subdomain rt)
                     | None \<Rightarrow> rt_subdomain rt \<in> random_subdomain ` set draws)"
  using reserve_created [OF assms] by (simp add: fresh_result_def)

theorem reserve_creates_witness:
  "t_subdomain ` set (tunnels_t demo_db1) = {''duck-a1b2''} \<and> ''duck-a1b2'' \<notin> set (reserved_t demo_db)"
  using reserve_creates [OF demo_db_ok demo_reserve] by (auto simp: demo_reserved_def demo_db_def)

text \<open>
  Reserving the same set again, with the routes in any order, gives back the same tunnel,
  subdomain, host and stored routes without touching the database, whatever node or name it asks for;
  where reuse is not allowed it is refused and names that tunnel's subdomain.
\<close>

theorem reserve_idempotent:
  assumes res: "reserve_tunnel lower locked draws now owner node host requested custom mx reuse device db = Inr (rt, db')"
    and same: "mset (pairs again) = mset (pairs requested)"
  shows "(\<exists>rt'. reserve_tunnel lower locked' draws' now' owner node' host' again custom' mx' True device db' = Inr (rt', db')
        \<and> rt_tunnel_id rt' = rt_tunnel_id rt \<and> rt_subdomain rt' = rt_subdomain rt
        \<and> rt_public_host rt' = rt_public_host rt \<and> rt_reused rt'
        \<and> rt_routes rt' = routes_for_tunnel db' (rt_tunnel_id rt))
    \<and> reserve_tunnel lower locked' draws' now' owner node' host' again custom' mx' False device db'
        = Inl (RouteSetExists (rt_subdomain rt))"
proof -
  have sig: "route_signature (pairs again) = route_signature (pairs requested)"
    using same by (simp add: route_signature_eq_iff)
  show ?thesis using reserve_then_found [OF res] by (auto simp: reserve_tunnel_def Let_def sig)
qed

theorem reserve_idempotent_witness:
  "reserve_tunnel id [] [] 9 7 ''b'' ''b.example'' [(Http, 8080, Some ''web''), (Tcp, 22, None)] (Some ''x'') 0 False None demo_db1
     = Inl (RouteSetExists ''duck-a1b2'')"
  using reserve_idempotent [OF demo_reserve, of "[(Http, 8080, Some ''web''), (Tcp, 22, None)]" "[]" "[]" 9 "''b''" "''b.example''" "Some ''x''" 0]
  by (simp add: pairs_def demo_requests_def demo_reserved_def)
text \<open>
  C25: editing a service's routes keeps the database consistent, leaves exactly the requested (kind,
  local port) pairs on the tunnel, keeps every row that is still wanted as it is (its route id, public
  port and label), and touches no other tunnel's routes; the result is the stored rows in id order.
\<close>

theorem service_routes_exact:
  assumes "db_ok db" and "tunnel_on db tid node"
    and "set_service_routes locked tid node requested db = Inr (out, db')"
  shows "db_ok db'
    \<and> (\<lambda>r. (r_kind r, r_local_port r)) ` set out = (\<lambda>(m, p, _). (as_str m, int (unat p))) ` set requested
    \<and> out = routes_for_tunnel db' tid
    \<and> (\<forall>r \<in> set (routes_t db). r_tunnel_id r \<noteq> tid \<or> wanted requested r \<longrightarrow> r \<in> set (routes_t db'))
    \<and> (\<forall>r \<in> set (routes_t db'). r_tunnel_id r \<noteq> tid \<longrightarrow> r \<in> set (routes_t db))"
  using set_service_routes_spec [OF assms] by simp

theorem service_routes_exact_witness:
  "(\<lambda>r. (r_kind r, r_local_port r)) ` set demo_edit_out = {(''tcp'', 22), (''udp'', 53)} \<and> db_ok demo_edit_db"
  using service_routes_exact [OF demo_db1_ok demo_on demo_edit] by (simp add: demo_edit_requests_def)



text \<open>
  The failover sweep keeps the database consistent, moves tunnels only off nodes whose heartbeat
  is stale and only onto a node whose heartbeat is fresh, and leaves every tunnel that is not on a
  stale node as it is.
\<close>

theorem failover_sound:
  assumes ok: "db_ok db" and mv: "\<forall>r \<in> set (routes_t db). movable r"
    and f: "failover_stale_nodes locked now stale db = (moved, db')"
  shows "db_ok db' \<and> map t_id (tunnels_t db') = map t_id (tunnels_t db)
    \<and> (\<forall>(sub, src, dst) \<in> set moved.
         (\<exists>n \<in> set (nodes_t db). node_stale now stale n \<and> n_node_id n = src)
         \<and> (\<exists>n \<in> set (nodes_t db). node_healthy now stale n \<and> n_node_id n = dst))
    \<and> (\<forall>t \<in> set (tunnels_t db).
         (\<forall>n \<in> set (nodes_t db). node_stale now stale n \<longrightarrow> t_node_id t \<noteq> Some (n_node_id n)) \<longrightarrow> t \<in> set (tunnels_t db'))
    \<and> (\<forall>t \<in> set (tunnels_t db'). t \<in> set (tunnels_t db)
         \<or> (\<exists>n \<in> set (nodes_t db). node_healthy now stale n \<and> t_node_id t = Some (n_node_id n)))"
  by (rule failover_spec [OF assms])

theorem failover_sound_witness:
  "db_ok (demo_moved_db\<lparr>tunnels_t := [demo_tunnel\<lparr>t_node_id := Some ''b'', t_public_host := ''b.example'',
       t_failover_from := Some ''a''\<rparr>]\<rparr>)"
proof -
  have "failover_stale_nodes [] 1000 90 demo_db1 = ([(''duck-a1b2'', ''a'', ''b'')],
      demo_moved_db\<lparr>tunnels_t := [demo_tunnel\<lparr>t_node_id := Some ''b'', t_public_host := ''b.example'',
        t_failover_from := Some ''a''\<rparr>]\<rparr>)"
    by code_simp
  moreover have "\<forall>r \<in> set (routes_t demo_db1). movable r"
    by (simp add: demo_db1_def demo_reserved_def movable_def)
  ultimately show ?thesis using failover_sound [OF demo_db1_ok] by blast
qed

end
