(* ===== verification/LifecycleProofs.thy ===== *)
theory LifecycleProofs
  imports Lifecycle Reservations
begin

text \<open>
  Every statement of the query layer keeps the database consistent: the statements as a step
  relation, the invariant \<^verbatim>\<open>db_ok\<close> by rule induction, and what the sweeps do.
\<close>

named_theorems db_safe \<open>statements that keep \<^verbatim>\<open>db_ok\<close>\<close>

section \<open>Frames\<close>

lemma bex_delete_where [simp]: "(\<exists>x \<in> set (delete_where P xs). Q x) \<longleftrightarrow> (\<exists>x \<in> set xs. \<not> P x \<and> Q x)"
  by auto

lemma ports_ok_alt:
  "ports_ok db \<longleftrightarrow> (\<forall>r \<in> set (routes_t db). \<forall>t \<in> set (tunnels_t db). \<forall>p node.
     r_public_port r = Some p \<longrightarrow> t_id t = r_tunnel_id r \<longrightarrow> t_node_id t = Some node \<longrightarrow>
     held db node p (r_tunnel_id r) (r_route_id r))"
  by (auto simp: ports_ok_def)

text \<open>A change outside tunnels, routes and pool.\<close>

lemma db_ok_frame:
  assumes "db_ok db" "tunnels_t db' = tunnels_t db" "routes_t db' = routes_t db" "pool_t db' = pool_t db"
    "next_id db \<le> next_id db'"
  shows "db_ok db'"
  using assms by (fastforce simp: db_ok_def ids_ok_def ports_ok_def held_def)

lemma update_tunnel_ok:
  assumes "db_ok db" "\<And>t. t_id (f t) = t_id t" "\<And>t. t_subdomain (f t) = t_subdomain t" "\<And>t. t_node_id (f t) = t_node_id t"
  shows "db_ok (update_tunnel tid f db)"
  unfolding update_tunnel_def by (rule update_tunnels_ok [OF assms])

lemma update_routes_ok:
  assumes ok: "db_ok db" and f: "\<And>r. r_tunnel_id (f r) = r_tunnel_id r" "\<And>r. r_route_id (f r) = r_route_id r"
    "\<And>r. r_public_port (f r) = r_public_port r"
  shows "db_ok (db\<lparr>routes_t := update_where P f (routes_t db)\<rparr>)"
proof -
  have m: "map (\<lambda>r. (r_tunnel_id r, r_route_id r)) (update_where P f (routes_t db))
      = map (\<lambda>r. (r_tunnel_id r, r_route_id r)) (routes_t db)"
    by (rule map_update_where) (simp add: f)
  show ?thesis using ok f by (simp add: db_ok_def ids_ok_def ports_ok_def held_def ball_update_where m)
qed

section \<open>Deleting tunnels\<close>

lemma pool_keys_update:
  "(\<And>row. pp_node_id (f row) = pp_node_id row) \<Longrightarrow> (\<And>row. pp_port (f row) = pp_port row) \<Longrightarrow>
     pool_keys (db\<lparr>pool_t := update_where P f (pool_t db)\<rparr>) = pool_keys db"
  by (simp add: pool_keys_def map_update_where)

text \<open>Rows that name other tunnels are kept by a pool update on the rows of \<^verbatim>\<open>D\<close>.\<close>

lemma held_pool_update:
  assumes "held db n q t r" and "\<And>row. P row \<Longrightarrow> pp_tunnel_id row \<noteq> Some t"
  shows "held (db\<lparr>pool_t := update_where P f (pool_t db)\<rparr>) n q t r"
proof -
  obtain row where row: "row \<in> set (pool_t db)" "row_is n q t r row" using assms(1) by (auto simp: held_row)
  then have "\<not> P row" using assms(2) by (auto simp: row_is_def)
  then have "row \<in> set (update_where P f (pool_t db))" by (rule update_where_other [OF row(1)])
  then show ?thesis using row(2) by (auto simp: held_row)
qed

text \<open>The condition in between: consistent apart from the ports of the tunnels in \<^verbatim>\<open>S\<close>, whose rows are then removed.\<close>

definition ok_except :: "int set \<Rightarrow> DB \<Rightarrow> bool" where
  "ok_except S db \<longleftrightarrow> ids_ok db \<and>
     (\<forall>r \<in> set (routes_t db). \<forall>p t node. r_tunnel_id r \<notin> S \<longrightarrow> r_public_port r = Some p \<longrightarrow>
        t \<in> set (tunnels_t db) \<longrightarrow> t_id t = r_tunnel_id r \<longrightarrow> t_node_id t = Some node \<longrightarrow>
        held db node p (r_tunnel_id r) (r_route_id r))"

lemma free_ports_ok_except:
  assumes ok: "db_ok db"
  shows "ok_except (set ids) (free_ports_of ids db)"
proof -
  have k: "pool_keys (free_ports_of ids db) = pool_keys db"
    unfolding free_ports_of_def by (rule pool_keys_update) simp_all
  have "ids_ok (free_ports_of ids db)"
    using ok ids_ok_pool_change [of db "pool_t (free_ports_of ids db)"] k by (simp add: db_ok_def free_ports_of_def)
  moreover have "held (free_ports_of ids db) n q t r" if "held db n q t r" "t \<notin> set ids" for n q t r
    unfolding free_ports_of_def by (rule held_pool_update [OF that(1)]) (use that(2) in auto)
  ultimately show ?thesis
    using ok by (auto simp: ok_except_def db_ok_def ports_ok_def) (simp add: free_ports_of_def)
qed

lemma free_tunnel_ports_is: "free_tunnel_ports tid db = free_ports_of [tid] db"
  by (simp add: free_tunnel_ports_def free_ports_of_def)

lemma ok_except_cascade:
  assumes "ok_except S db" and "\<And>t. t \<in> set (tunnels_t db) \<Longrightarrow> t_id t \<in> S \<Longrightarrow> D (t_id t)"
  shows "db_ok (cascade_tunnels D db)"
proof -
  let ?db = "cascade_tunnels D db"
  let ?P = "\<lambda>row. case pp_tunnel_id row of Some t \<Rightarrow> D t | None \<Rightarrow> False"
  let ?f = "\<lambda>row. row\<lparr>pp_tunnel_id := None\<rparr>"
  have ids: "ids_ok db" using assms(1) by (simp add: ok_except_def)
  have p: "map (\<lambda>row. (pp_node_id row, pp_port row)) (update_where ?P ?f (pool_t db))
      = map (\<lambda>row. (pp_node_id row, pp_port row)) (pool_t db)"
    by (rule map_update_where) simp
  have h: "held ?db n q t r" if "held db n q t r" "\<not> D t" for n q t r
  proof -
    have "held (db\<lparr>pool_t := update_where ?P ?f (pool_t db)\<rparr>) n q t r"
      by (rule held_pool_update [OF that(1)]) (use that(2) in \<open>auto split: option.splits\<close>)
    then show ?thesis by (simp add: held_def cascade_tunnels_def)
  qed
  have "\<exists>t \<in> set (tunnels_t db). \<not> D (t_id t) \<and> t_id t = r_tunnel_id r"
    if "r \<in> set (routes_t db)" "\<not> D (r_tunnel_id r)" for r
    using ids that by (metis ids_ok_def)
  then have "ids_ok ?db"
    using ids by (auto simp: ids_ok_def cascade_tunnels_def distinct_delete_where p)
  moreover have "ports_ok ?db"
    unfolding ports_ok_def
  proof (intro ballI allI impI)
    fix r p t node
    assume r: "r \<in> set (routes_t ?db)" "r_public_port r = Some p" and t: "t \<in> set (tunnels_t ?db)" "t_id t = r_tunnel_id r"
      "t_node_id t = Some node"
    have r': "r \<in> set (routes_t db)" "\<not> D (r_tunnel_id r)" and t': "t \<in> set (tunnels_t db)" "\<not> D (t_id t)"
      using r(1) t(1) by (simp_all add: cascade_tunnels_def)
    then have "r_tunnel_id r \<notin> S" using assms(2) [of t] t(2) by auto
    then have "held db node p (r_tunnel_id r) (r_route_id r)"
      using assms(1) r' t' r(2) t(2,3) by (auto simp: ok_except_def)
    then show "held ?db node p (r_tunnel_id r) (r_route_id r)" by (rule h [OF _ r'(2)])
  qed
  ultimately show ?thesis by (simp add: db_ok_def)
qed

lemma ok_except_none: "ok_except {} db \<longleftrightarrow> db_ok db"
  by (auto simp: ok_except_def db_ok_def ports_ok_def)

lemma cascade_ok [db_safe]: "db_ok db \<Longrightarrow> db_ok (cascade_tunnels D db)"
  by (rule ok_except_cascade [of "{}"]) (simp_all add: ok_except_none)

lemma cascade_where_ok [db_safe]: "db_ok db \<Longrightarrow> db_ok (cascade_where P db)"
  by (simp add: cascade_where_def cascade_ok)

lemma ok_except_cascade_where:
  "ok_except S db \<Longrightarrow> (\<And>t. t \<in> set (tunnels_t db) \<Longrightarrow> t_id t \<in> S \<Longrightarrow> P t) \<Longrightarrow> db_ok (cascade_where P db)"
  unfolding cascade_where_def by (rule ok_except_cascade [where S = S]) (auto simp: tunnels_where_def)

lemma ok_except_routes:
  assumes "ok_except S db"
  shows "db_ok (db\<lparr>routes_t := delete_where (\<lambda>r. r_tunnel_id r \<in> S) (routes_t db)\<rparr>)"
  using assms by (auto simp: ok_except_def db_ok_def ids_ok_def ports_ok_def held_def distinct_delete_where)

section \<open>The statements\<close>

lemma delete_tunnel_ok [db_safe]: "db_ok db \<Longrightarrow> delete_tunnel tid db = (n, db') \<Longrightarrow> db_ok db'"
  using ok_except_cascade_where [OF free_ports_ok_except [of db "[tid]"], of "\<lambda>t. t_id t = tid"]
  by (auto simp: delete_tunnel_def free_tunnel_ports_is)

lemma reconcile_ok [db_safe]: "db_ok db \<Longrightarrow> reconcile_abandoned now grace db = (n, db') \<Longrightarrow> db_ok db'"
  using ok_except_cascade_where [OF free_ports_ok_except [of db "tunnels_where (abandoned now grace) db"],
      of "\<lambda>t. t_id t \<in> set (tunnels_where (abandoned now grace) db)"]
  by (auto simp: reconcile_abandoned_def Let_def split: if_splits)

lemma expire_ok [db_safe]: "db_ok db \<Longrightarrow> expire_idle_service_hosts now secs db = (n, db') \<Longrightarrow> db_ok db'"
proof -
  assume ok: "db_ok db" and e: "expire_idle_service_hosts now secs db = (n, db')"
  let ?idle = "tunnels_where (idle_host now secs) db"
  let ?db1 = "free_ports_of ?idle db"
  let ?db2 = "?db1\<lparr>routes_t := delete_where (\<lambda>r. r_tunnel_id r \<in> set ?idle) (routes_t ?db1)\<rparr>"
  have "db_ok ?db2" by (rule ok_except_routes [OF free_ports_ok_except [OF ok]])
  then have "db_ok (?db2\<lparr>tunnels_t := update_where (\<lambda>t. t_id t \<in> set ?idle) (\<lambda>t. t\<lparr>t_route_sig := []\<rparr>) (tunnels_t ?db2)\<rparr>)"
    by (rule update_tunnels_ok) simp_all
  then show ?thesis using e ok by (auto simp: expire_idle_service_hosts_def Let_def split: if_splits)
qed

lemma delete_user_ok [db_safe]: "db_ok db \<Longrightarrow> delete_user uid db = (n, db') \<Longrightarrow> db_ok db'"
  by (auto simp: delete_user_def Let_def split: if_splits
      intro: db_ok_frame [OF cascade_where_ok])

lemma delete_device_ok [db_safe]: "db_ok db \<Longrightarrow> delete_device did owner db = (n, db') \<Longrightarrow> db_ok db'"
  by (auto simp: delete_device_def Let_def split: if_splits intro: db_ok_frame [OF cascade_where_ok])

lemma user_device_ok [db_safe]:
  "db_ok db \<Longrightarrow> create_user now email hash db = Inr (u, db') \<Longrightarrow> db_ok db'"
  "db_ok db \<Longrightarrow> update_user_profile uid name email db = Inr (x, db') \<Longrightarrow> db_ok db'"
  "db_ok db \<Longrightarrow> db_ok (update_user_password uid hash db)"
  "db_ok db \<Longrightarrow> db_ok (set_user_banned uid b db)"
  "db_ok db \<Longrightarrow> create_device now owner dn db = Inr (d, db') \<Longrightarrow> db_ok db'"
  "db_ok db \<Longrightarrow> db_ok (set_device_token did nonce db)"
  "db_ok db \<Longrightarrow> db_ok (touch_device_online now did db)"
  "db_ok db \<Longrightarrow> mark_stale_devices_offline now secs db = (n, db') \<Longrightarrow> db_ok db'"
  "db_ok db \<Longrightarrow> disconnect_device did owner db = (ok, db') \<Longrightarrow> db_ok db'"
  "db_ok db \<Longrightarrow> rename_device did owner dn db = (ok, db') \<Longrightarrow> db_ok db'"
  by (erule db_ok_frame; auto simp: create_user_def update_user_profile_def update_user_password_def set_user_banned_def
      create_device_def set_device_token_def touch_device_online_def mark_stale_devices_offline_def
      disconnect_device_def rename_device_def Let_def split: if_splits)+

lemma tunnel_status_ok [db_safe]:
  "db_ok db \<Longrightarrow> set_custom_domain tid domain db = Inr (x, db') \<Longrightarrow> db_ok db'"
  "db_ok db \<Longrightarrow> db_ok (set_tunnel_offline now tid db)"
  "db_ok db \<Longrightarrow> stop_tunnel_keep now tid db = (n, db') \<Longrightarrow> db_ok db'"
  "db_ok db \<Longrightarrow> start_tunnel_keep tid db = (n, db') \<Longrightarrow> db_ok db'"
  "db_ok db \<Longrightarrow> db_ok (rename_tunnel tid name db)"
  by (auto simp: set_custom_domain_def set_tunnel_offline_def stop_tunnel_keep_def start_tunnel_keep_def
      rename_tunnel_def split: if_splits intro!: update_tunnel_ok update_tunnels_ok)

lemma route_edit_ok [db_safe]:
  "db_ok db \<Longrightarrow> set_route_srv tid rid srv db = (n, db') \<Longrightarrow> db_ok db'"
  "db_ok db \<Longrightarrow> update_route_label tid rid label db = (n, db') \<Longrightarrow> db_ok db'"
  by (auto simp: set_route_srv_def update_route_label_def intro!: update_routes_ok)

lemma log_ok [db_safe]:
  "db_ok db \<Longrightarrow> insert_conn_log tid owner rid kind ip country bi bo ms blocked db = Inr (x, db') \<Longrightarrow> db_ok db'"
  "db_ok db \<Longrightarrow> prune_conn_logs keep db = (n, db') \<Longrightarrow> db_ok db'"
  "db_ok db \<Longrightarrow> db_ok (add_region_block code db)"
  "db_ok db \<Longrightarrow> db_ok (remove_region_block code db)"
  "db_ok db \<Longrightarrow> db_ok (update_node nid nname region act db)"
  by (erule db_ok_frame; auto simp: insert_conn_log_def prune_conn_logs_def add_region_block_def
      remove_region_block_def update_node_def split: if_splits)+

lemma update_tunnel_fields [simp]:
  "routes_t (update_tunnel tid f db) = routes_t db" "pool_t (update_tunnel tid f db) = pool_t db"
  "next_id (update_tunnel tid f db) = next_id db"
  "tunnels_t (update_tunnel tid f db) = update_where (\<lambda>t. t_id t = tid) f (tunnels_t db)"
  by (simp_all add: update_tunnel_def)

lemma bandwidth_ok [db_safe]:
  assumes "db_ok db" "append_bandwidth now tid owner bi bo db = Inr (x, db')"
  shows "db_ok db'"
proof -
  obtain row f where db': "db' = update_tunnel tid f (db\<lparr>bandwidth_t := row # bandwidth_t db\<rparr>)"
    and f: "\<And>t. t_id (f t) = t_id t \<and> t_subdomain (f t) = t_subdomain t \<and> t_node_id (f t) = t_node_id t"
    using assms(2) by (fastforce simp: append_bandwidth_def Let_def split: if_splits)
  show ?thesis unfolding db' by (rule update_tunnel_ok [OF db_ok_frame [OF assms(1)]]) (simp_all add: f)
qed

lemma online_ok [db_safe]:
  assumes ok: "db_ok db" and same: "\<forall>t \<in> set (tunnels_t db). t_id t = tid \<longrightarrow> t_node_id t = Some node"
  shows "db_ok (set_tunnel_online now tid node ip db)"
proof -
  have "set_tunnel_online now tid node ip db
      = update_tunnel tid (\<lambda>t. t\<lparr>t_status := ''online'', t_agent_ip := ip, t_last_seen := Some now\<rparr>) db"
    using same by (auto simp: set_tunnel_online_def update_tunnel_def update_where_def)
  then show ?thesis using ok by (simp add: update_tunnel_ok)
qed

lemma subdomain_ok [db_safe]:
  assumes ok: "db_ok db" and s: "set_tunnel_subdomain tid sub db = Inr (x, db')"
  shows "db_ok db'"
proof -
  let ?f = "\<lambda>t. t\<lparr>t_subdomain := sub\<rparr>"
  let ?ts = "update_where (\<lambda>t. t_id t = tid) ?f (tunnels_t db)"
  have db': "db' = db\<lparr>tunnels_t := ?ts\<rparr>"
    and free: "\<forall>t \<in> set (tunnels_t db). t_id t \<noteq> tid \<longrightarrow> (\<exists>t \<in> set (tunnels_t db). t_id t = tid) \<longrightarrow> t_subdomain t \<noteq> sub"
    using s by (auto simp: set_tunnel_subdomain_def subdomain_in_use_def update_tunnel_def split: if_splits)
  have ids: "ids_ok db" using ok by (simp add: db_ok_def)
  have m: "map t_id ?ts = map t_id (tunnels_t db)" by (simp add: map_update_where)
  have im: "t_id ` set ?ts = t_id ` set (tunnels_t db)" by (metis m set_map)
  have inj: "inj_on t_id (set (tunnels_t db))" "inj_on t_subdomain (set (tunnels_t db))" and dist: "distinct (tunnels_t db)"
    using ids by (simp_all add: ids_ok_def distinct_map)
  have "inj_on (\<lambda>t. t_subdomain (if t_id t = tid then ?f t else t)) (set (tunnels_t db))"
  proof (rule inj_onI)
    fix a b assume ab: "a \<in> set (tunnels_t db)" "b \<in> set (tunnels_t db)"
      "t_subdomain (if t_id a = tid then ?f a else a) = t_subdomain (if t_id b = tid then ?f b else b)"
    show "a = b"
    proof (cases "t_id a = tid \<or> t_id b = tid")
      case True
      then have "t_id a = t_id b" using ab free by (auto split: if_splits)
      then show ?thesis using inj(1) ab by (auto dest: inj_onD)
    next
      case False
      then show ?thesis using inj(2) ab by (auto dest: inj_onD)
    qed
  qed
  then have "distinct (map t_subdomain ?ts)" using dist by (simp add: update_where_def o_def distinct_map)
  moreover have lt: "(\<forall>t \<in> set ts. t_id t < n) \<longleftrightarrow> (\<forall>i \<in> t_id ` set ts. i < n)"
    and ex: "(\<exists>t \<in> set ts. t_id t = i) \<longleftrightarrow> i \<in> t_id ` set ts" for ts :: "Tunnel list" and n i
    by auto
  ultimately have "ids_ok db'" using ids unfolding ids_ok_def lt ex by (simp add: db' m im)
  moreover have "ports_ok db'"
    using ok unfolding db_ok_def ports_ok_alt by (simp add: db' held_def ball_update_where)
  ultimately show ?thesis by (simp add: db_ok_def)
qed

lemma insert_blocks_fields [simp]:
  "tunnels_t (insert_tunnel_blocks tid cs db) = tunnels_t db" "routes_t (insert_tunnel_blocks tid cs db) = routes_t db"
  "pool_t (insert_tunnel_blocks tid cs db) = pool_t db" "next_id (insert_tunnel_blocks tid cs db) = next_id db"
  by (induction tid cs db rule: insert_tunnel_blocks.induct) auto

lemma blocks_ok [db_safe]: "db_ok db \<Longrightarrow> set_tunnel_region_blocks tid codes db = Inr (x, db') \<Longrightarrow> db_ok db'"
  by (erule db_ok_frame) (auto simp: set_tunnel_region_blocks_def split: if_splits)

lemma register_node_ok [db_safe]:
  assumes ok: "db_ok db"
  shows "db_ok (register_node now n lo hi db)"
proof -
  let ?new = "map (\<lambda>p. \<lparr> pp_node_id = n_node_id n, pp_port = p, pp_tunnel_id = None, pp_route_id = None \<rparr>)
            (missing_ports (n_node_id n) lo hi (pool_t db))"
  have "distinct (map (\<lambda>row. (pp_node_id row, pp_port row)) (pool_t db @ ?new))"
    using ok by (auto simp: db_ok_def ids_ok_def missing_ports_def distinct_map o_def inj_on_def)
  moreover have "held (register_node now n lo hi db) m q t r \<longleftrightarrow> held db m q t r" for m q t r
    by (auto simp: register_node_def held_def)
  ultimately show ?thesis
    using ok unfolding db_ok_def ids_ok_def ports_ok_def by (simp add: register_node_def)
qed

lemma delete_node_ok [db_safe]:
  assumes ok: "db_ok db" and unused: "\<forall>t \<in> set (tunnels_t db). t_node_id t \<noteq> Some nid"
  shows "db_ok (delete_node nid db)"
proof -
  have "held (delete_node nid db) m q t r" if "held db m q t r" "m \<noteq> nid" for m q t r
    using that by (auto simp: delete_node_def held_def)
  then show ?thesis
    using ok unused by (auto simp: db_ok_def ids_ok_def ports_ok_def delete_node_def distinct_delete_where)
qed

section \<open>Every reachable database\<close>

text \<open>
  One transaction of the query layer. The guards are what the callers establish or what the model
  needs: an edit names the node the tunnel is on (the handler reads it from the row), a node reports
  a tunnel up that is placed on it, a move or a failover meets no port of a \<^verbatim>\<open>both\<close> route, and a node
  is deleted only when no tunnel is placed on it.
\<close>

inductive db_step :: "DB \<Rightarrow> DB \<Rightarrow> bool" where
  step_create_user: "create_user now email hash db = Inr (u, db') \<Longrightarrow> db_step db db'"
| step_profile: "update_user_profile uid name email db = Inr (x, db') \<Longrightarrow> db_step db db'"
| step_password: "db_step db (update_user_password uid hash db)"
| step_banned: "db_step db (set_user_banned uid b db)"
| step_delete_user: "delete_user uid db = (n, db') \<Longrightarrow> db_step db db'"
| step_create_device: "create_device now owner dn db = Inr (d, db') \<Longrightarrow> db_step db db'"
| step_device_token: "db_step db (set_device_token did nonce db)"
| step_touch: "db_step db (touch_device_online now did db)"
| step_stale_devices: "mark_stale_devices_offline now secs db = (n, db') \<Longrightarrow> db_step db db'"
| step_disconnect: "disconnect_device did owner db = (ok, db') \<Longrightarrow> db_step db db'"
| step_rename_device: "rename_device did owner dn db = (ok, db') \<Longrightarrow> db_step db db'"
| step_delete_device: "delete_device did owner db = (ok, db') \<Longrightarrow> db_step db db'"
| step_reserve: "reserve_tunnel lower locked draws now owner node host requested custom mx reuse device db = Inr (rt, db')
    \<Longrightarrow> db_step db db'"
| step_edit: "tunnel_on db tid node \<Longrightarrow> set_service_routes locked tid node requested db = Inr (out, db') \<Longrightarrow> db_step db db'"
| step_migrate: "\<forall>r \<in> set (routes_t db). r_tunnel_id r = tid \<longrightarrow> movable r \<Longrightarrow>
    migrate_tunnel locked tid target host db = Inr db' \<Longrightarrow> db_step db db'"
| step_failover: "\<forall>r \<in> set (routes_t db). movable r \<Longrightarrow>
    failover_stale_nodes locked now secs db = (moved, db') \<Longrightarrow> db_step db db'"
| step_custom_domain: "set_custom_domain tid domain db = Inr (x, db') \<Longrightarrow> db_step db db'"
| step_online: "\<forall>t \<in> set (tunnels_t db). t_id t = tid \<longrightarrow> t_node_id t = Some node \<Longrightarrow>
    db_step db (set_tunnel_online now tid node ip db)"
| step_offline: "db_step db (set_tunnel_offline now tid db)"
| step_delete_tunnel: "delete_tunnel tid db = (n, db') \<Longrightarrow> db_step db db'"
| step_stop: "stop_tunnel_keep now tid db = (n, db') \<Longrightarrow> db_step db db'"
| step_start: "start_tunnel_keep tid db = (n, db') \<Longrightarrow> db_step db db'"
| step_rename: "db_step db (rename_tunnel tid tname db)"
| step_subdomain: "set_tunnel_subdomain tid sub db = Inr (x, db') \<Longrightarrow> db_step db db'"
| step_srv: "set_route_srv tid rid srv db = (n, db') \<Longrightarrow> db_step db db'"
| step_label: "update_route_label tid rid label db = (n, db') \<Longrightarrow> db_step db db'"
| step_bandwidth: "append_bandwidth now tid owner bi bo db = Inr (x, db') \<Longrightarrow> db_step db db'"
| step_conn_log: "insert_conn_log tid owner rid kind ip country bi bo ms blocked db = Inr (x, db') \<Longrightarrow> db_step db db'"
| step_prune: "prune_conn_logs keep db = (n, db') \<Longrightarrow> db_step db db'"
| step_reconcile: "reconcile_abandoned now grace db = (n, db') \<Longrightarrow> db_step db db'"
| step_expire: "expire_idle_service_hosts now secs db = (n, db') \<Longrightarrow> db_step db db'"
| step_add_block: "db_step db (add_region_block code db)"
| step_remove_block: "db_step db (remove_region_block code db)"
| step_tunnel_blocks: "set_tunnel_region_blocks tid codes db = Inr (x, db') \<Longrightarrow> db_step db db'"
| step_register_node: "db_step db (register_node now n lo hi db)"
| step_update_node: "db_step db (update_node nid nname region act db)"
| step_delete_node: "\<forall>t \<in> set (tunnels_t db). t_node_id t \<noteq> Some nid \<Longrightarrow> db_step db (delete_node nid db)"

text \<open>The database the migrations leave.\<close>

definition fresh_db :: "string list \<Rightarrow> string list \<Rightarrow> DB" where
  "fresh_db reserved blocks = \<lparr> users_t = [], devices_t = [], tunnels_t = [], routes_t = [], pool_t = [], nodes_t = [],
     bandwidth_t = [], logs_t = [], region_blocks_t = blocks, tunnel_blocks_t = [], reserved_t = reserved, next_id = 1 \<rparr>"

inductive db_reachable :: "DB \<Rightarrow> bool" where
  db_start: "db_reachable (fresh_db reserved blocks)"
| db_next: "db_reachable db \<Longrightarrow> db_step db db' \<Longrightarrow> db_reachable db'"

lemma fresh_db_ok: "db_ok (fresh_db reserved blocks)"
  by (simp add: fresh_db_def db_ok_def ids_ok_def ports_ok_def)

lemma edit_ok [db_safe]:
  "db_ok db \<Longrightarrow> tunnel_on db tid node \<Longrightarrow> set_service_routes locked tid node requested db = Inr (out, db') \<Longrightarrow> db_ok db'"
  by (rule set_service_routes_spec(1))

lemma migrate_ok [db_safe]:
  "db_ok db \<Longrightarrow> \<forall>r \<in> set (routes_t db). r_tunnel_id r = tid \<longrightarrow> movable r \<Longrightarrow>
     migrate_tunnel locked tid target host db = Inr db' \<Longrightarrow> db_ok db'"
  using migrate_spec by blast

lemma db_step_ok: "db_step db db' \<Longrightarrow> db_ok db \<Longrightarrow> db_ok db'"
proof (induction rule: db_step.induct)
  case (step_failover db locked now secs moved db')
  then show ?case using failover_ok by blast
qed (blast intro: db_safe reserve_keeps_db_ok_lemma)+

lemma db_reachable_ok: "db_reachable db \<Longrightarrow> db_ok db"
  by (induction rule: db_reachable.induct) (auto intro: fresh_db_ok db_step_ok)

end
