(* ===== verification/Handshake.thy ===== *)
theory Handshake
  imports Node TunnelEdits LifecycleProofs
begin

text \<open>
  The control plane and the node together: the token a reservation mints is well shaped, grants every
  route the agent is told to bind, and gets the agent admitted by the node that hosts the tunnel. Also
  the route policy of the API and what a device pulls as its configuration.
\<close>

section \<open>Route policy\<close>

definition count_of :: "RouteMode \<Rightarrow> RequestedRoute list \<Rightarrow> nat" where
  "count_of m rs = length (filter (\<lambda>r. rq_mode r = m) rs)"

lemma count_of_simps [simp]:
  "count_of m [] = 0" "count_of m (r # rs) = (if rq_mode r = m then Suc (count_of m rs) else count_of m rs)"
  by (simp_all add: count_of_def)

definition dedicated_ports :: "RequestedRoute list \<Rightarrow> u16 list" where
  "dedicated_ports rs = map rq_local_port (filter (\<lambda>r. \<not> is_host_routed (rq_mode r)) rs)"

definition add_counts :: "RequestedRoute list \<Rightarrow> RouteCounts \<Rightarrow> RouteCounts" where
  "add_counts rs c =
     \<lparr> n_http = n_http c + count_of Http rs, n_https = n_https c + count_of Https rs,
       n_tcp = n_tcp c + count_of Tcp rs + count_of Both rs,
       n_udp = n_udp c + count_of Udp rs + count_of Both rs \<rparr>"

lemma policy_loop_Inr:
  "policy_loop ded c rs = Inr c' \<longleftrightarrow>
     distinct (dedicated_ports rs) \<and> set ded \<inter> set (dedicated_ports rs) = {} \<and> c' = add_counts rs c"
proof (induction rs arbitrary: ded c)
  case Nil
  then show ?case by (auto simp: dedicated_ports_def add_counts_def)
next
  case (Cons r rs)
  have "add_counts rs (count_mode (rq_mode r) c) = add_counts (r # rs) c"
    by (cases "rq_mode r") (simp_all add: add_counts_def count_mode_def)
  then show ?case using Cons.IH by (auto simp: dedicated_ports_def)
qed

lemma check_route_policy_iff:
  "check_route_policy rs = Inr u \<longleftrightarrow>
     distinct (dedicated_ports rs) \<and> count_of Http rs \<le> 1 \<and> count_of Https rs \<le> 1
     \<and> count_of Tcp rs + count_of Both rs \<le> 2 \<and> count_of Udp rs + count_of Both rs \<le> 2"
  by (auto simp: check_route_policy_def and_then_Inr_iff policy_loop_Inr add_counts_def no_routes_def)

lemma length_counts:
  "length rs = count_of Http rs + count_of Https rs + count_of Tcp rs + count_of Udp rs + count_of Both rs"
proof (induction rs)
  case (Cons r rs)
  then show ?case by (cases "rq_mode r") simp_all
qed simp

lemma policy_length: "check_route_policy rs = Inr u \<Longrightarrow> length rs \<le> 6"
  using length_counts [of rs] by (auto simp: check_route_policy_iff)

section \<open>The claims of stored routes\<close>

text \<open>A row the node can serve: a port exactly where one is needed, and an id below the udp offset.\<close>

definition servable :: "RouteRow \<Rightarrow> bool" where
  "servable r \<longleftrightarrow>
     (is_host_routed (parse_kind (r_kind r)) \<or> r_public_port r \<noteq> None)
     \<and> 0 \<le> r_route_id r \<and> r_route_id r < 10000
     \<and> (\<forall>p \<in> set_option (r_public_port r). 0 \<le> p \<and> p < 65536)"

definition wire_ids :: "RouteRow \<Rightarrow> u16 list" where
  "wire_ids r =
     (if parse_kind (r_kind r) = Both then [word_of_int (r_route_id r), word_of_int (r_route_id r) + BOTH_UDP_ROUTE_OFFSET]
      else [word_of_int (r_route_id r)])"

lemma expand_route_ids:
  "map rc_route_id (fst (expand_route r sub host)) = wire_ids r"
  "map rr_route_id (snd (expand_route r sub host)) = wire_ids r"
  by (simp_all add: expand_route_def expand_both_def wire_ids_def Let_def)

lemma expand_routes_ids:
  "map rc_route_id (fst (expand_routes rs sub host)) = concat (map wire_ids rs)"
  "map rr_route_id (snd (expand_routes rs sub host)) = concat (map wire_ids rs)"
  by (simp_all add: expand_routes_def map_concat comp_def expand_route_ids)

lemma expand_route_shape: "servable r \<Longrightarrow> list_all route_shape_ok (fst (expand_route r sub host))"
  by (auto simp: expand_route_def expand_both_def route_shape_ok_def servable_def Let_def)

lemma expand_routes_shape: "\<forall>r \<in> set rs. servable r \<Longrightarrow> list_all route_shape_ok (fst (expand_routes rs sub host))"
  using expand_route_shape by (fastforce simp: expand_routes_def list_all_iff)

lemma no_both_claims: "c \<in> set (fst (expand_routes rs sub host)) \<Longrightarrow> rc_mode c \<noteq> Both"
  by (auto simp: expand_routes_def expand_route_def expand_both_def Let_def split: if_splits)

lemma unat_word_of_int_16: "0 \<le> i \<Longrightarrow> i < 65536 \<Longrightarrow> unat (word_of_int i :: u16) = nat i"
  by (simp add: unsigned_of_int take_bit_int_eq_self)

lemma uint_word_of_int_16: "0 \<le> i \<Longrightarrow> i < 65536 \<Longrightarrow> uint (word_of_int i :: u16) = i"
  by (simp add: uint_word_of_int)

lemma wire_id_row:
  assumes "servable r" "i \<in> set (wire_ids r)"
  shows "int (unat i mod 10000) = r_route_id r"
proof -
  have b: "0 \<le> r_route_id r" "r_route_id r < 10000" using assms(1) by (auto simp: servable_def)
  have 1: "unat (word_of_int (r_route_id r) :: u16) = nat (r_route_id r)" using b by (simp add: unat_word_of_int_16)
  have 2: "unat (word_of_int (r_route_id r) + 10000 :: u16) = nat (r_route_id r) + 10000"
    using b by (simp add: unat_word_ariths 1)
  show ?thesis using assms(2) b 1 2 by (auto simp: wire_ids_def BOTH_UDP_ROUTE_OFFSET_def split: if_splits)
qed

lemma distinct_concat_by:
  assumes "\<And>r. r \<in> set rs \<Longrightarrow> distinct (f r)" "distinct (map k rs)"
    and "\<And>r r' i. r \<in> set rs \<Longrightarrow> r' \<in> set rs \<Longrightarrow> i \<in> set (f r) \<Longrightarrow> i \<in> set (f r') \<Longrightarrow> k r = k r'"
  shows "distinct (concat (map f rs))"
  using assms
proof (induction rs)
  case (Cons r rs)
  have "i \<notin> set (f r')" if "i \<in> set (f r)" "r' \<in> set rs" for i r'
  proof
    assume "i \<in> set (f r')"
    then have "k r' = k r" using Cons.prems(3) [of r' r i] that by simp
    then show False using Cons.prems(2) imageI [OF that(2), of k] by simp
  qed
  moreover have "distinct (concat (map f rs))" using Cons.prems by (intro Cons.IH) auto
  ultimately show ?case using Cons.prems(1) by auto
qed simp

lemma distinct_wire_ids:
  assumes "\<forall>r \<in> set rs. servable r" "distinct (map r_route_id rs)"
  shows "distinct (concat (map wire_ids rs))"
proof (rule distinct_concat_by [where k = r_route_id])
  show "r_route_id r = r_route_id r'"
    if "r \<in> set rs" "r' \<in> set rs" "i \<in> set (wire_ids r)" "i \<in> set (wire_ids r')" for r r' i
    using wire_id_row that assms(1) by metis
qed (use assms(2) in \<open>simp_all add: wire_ids_def BOTH_UDP_ROUTE_OFFSET_def\<close>)

lemma claims_valid:
  assumes "\<forall>r \<in> set rs. servable r" "distinct (map r_route_id rs)"
  shows "validate_shape (tunnel_claims now uid tid sub (fst (expand_routes rs sub host)) custom) = Inr ()"
  using expand_routes_shape [OF assms(1), of sub host] distinct_wire_ids [OF assms]
  by (simp add: validate_shape_Inr_iff tunnel_claims_def expand_routes_ids)

section \<open>Admission\<close>

definition claim_key :: "RouteClaim \<Rightarrow> bool \<times> u16" where
  "claim_key c = (rc_mode c = Udp, case rc_public_port c of Some p \<Rightarrow> p | None \<Rightarrow> 0)"

definition dedicated :: "RouteClaim \<Rightarrow> bool" where
  "dedicated c \<longleftrightarrow> rc_mode c = Tcp \<or> rc_mode c = Udp"

lemma bind_routes_succeeds:
  assumes "\<forall>c \<in> set cs. rc_mode c \<noteq> Both" "distinct (map claim_key (filter dedicated cs))"
    and "\<forall>c \<in> set cs. dedicated c \<longrightarrow> bd (claim_key c) = None \<and> os (fst (claim_key c)) (snd (claim_key c)) = None"
  shows "\<exists>ps tcp udp bd'. bind_routes os cfg sub sid cs bd = Inr (ps, tcp, udp, bd') \<and> map p_route_id ps = map rc_route_id cs"
  using assms
proof (induction cs arbitrary: bd)
  case (Cons c cs)
  let ?bd = "if dedicated c then bd(claim_key c \<mapsto> sid) else bd"
  have k: "claim_key x \<noteq> claim_key c" if "dedicated c" "x \<in> set cs" "dedicated x" for x
  proof
    assume eq: "claim_key x = claim_key c"
    have "claim_key x \<in> claim_key ` {x \<in> set cs. dedicated x}" using that(2,3) by (intro imageI) simp
    then show False using Cons.prems(2) that(1) unfolding eq by simp
  qed
  obtain ps tcp udp bd' where
    ih: "bind_routes os cfg sub sid cs ?bd = Inr (ps, tcp, udp, bd')" "map p_route_id ps = map rc_route_id cs"
  proof -
    have "\<exists>ps tcp udp bd'. bind_routes os cfg sub sid cs ?bd = Inr (ps, tcp, udp, bd') \<and> map p_route_id ps = map rc_route_id cs"
      by (rule Cons.IH) (use Cons.prems k in \<open>auto split: if_splits\<close>)
    then show thesis using that by blast
  qed
  show ?case
    using Cons.prems(1,3) ih
    by (cases "rc_mode c")
      (auto simp: Let_def claim_key_def dedicated_def bind_error_def split: option.splits)
qed simp

text \<open>The sockets the claims of a row bind.\<close>

definition wire_keys :: "RouteRow \<Rightarrow> (bool \<times> u16) list" where
  "wire_keys r =
     (let p = (case r_public_port r of Some p \<Rightarrow> word_of_int p | None \<Rightarrow> 0) in
      case parse_kind (r_kind r) of Both \<Rightarrow> [(False, p), (True, p)] | Tcp \<Rightarrow> [(False, p)] | Udp \<Rightarrow> [(True, p)] | _ \<Rightarrow> [])"

lemma expand_route_keys: "map claim_key (filter dedicated (fst (expand_route r sub host))) = wire_keys r"
  by (cases "parse_kind (r_kind r)"; cases "r_public_port r")
    (simp_all add: expand_route_def expand_both_def wire_keys_def claim_key_def dedicated_def Let_def)

lemma expand_routes_keys:
  "map claim_key (filter dedicated (fst (expand_routes rs sub host))) = concat (map wire_keys rs)"
  by (simp add: expand_routes_def filter_concat map_concat comp_def expand_route_keys)

lemma wire_key_row: "servable r \<Longrightarrow> (u, w) \<in> set (wire_keys r) \<Longrightarrow> r_public_port r = Some (int (unat w))"
  by (cases "parse_kind (r_kind r)"; cases "r_public_port r")
    (auto simp: wire_keys_def servable_def uint_word_of_int_16 Let_def)

lemma distinct_wire_keys:
  assumes "\<forall>r \<in> set rs. servable r" "distinct (map r_route_id rs)"
    and "\<And>r r' p. r \<in> set rs \<Longrightarrow> r' \<in> set rs \<Longrightarrow> r_public_port r = Some p \<Longrightarrow> r_public_port r' = Some p \<Longrightarrow> r_route_id r = r_route_id r'"
  shows "distinct (concat (map wire_keys rs))"
proof (rule distinct_concat_by [where k = r_route_id])
  show "distinct (wire_keys r)" for r by (cases "parse_kind (r_kind r)") (simp_all add: wire_keys_def Let_def)
  show "r_route_id r = r_route_id r'"
    if m: "r \<in> set rs" "r' \<in> set rs" and i: "i \<in> set (wire_keys r)" "i \<in> set (wire_keys r')" for r r' i
  proof -
    obtain u w where "i = (u, w)" by (cases i)
    then have "r_public_port r = Some (int (unat w))" "r_public_port r' = Some (int (unat w))"
      using wire_key_row m i assms(1) by blast+
    then show ?thesis by (rule assms(3) [OF m])
  qed
qed (rule assms(2))

text \<open>What the agent says to the node: its token and the routes it was told to serve.\<close>

definition hello_for :: "string \<Rightarrow> ReservedRoute list \<Rightarrow> AgentHello" where
  "hello_for token views =
     \<lparr> hello_token = token, hello_role = ROLE_SERVICE_HOST,
       hello_routes = map (\<lambda>v. \<lparr> b_route_id = rr_route_id v, b_local_port = rr_local_port v \<rparr>) views \<rparr>"

definition ports_free :: "os_bind \<Rightarrow> sockets \<Rightarrow> RouteRow list \<Rightarrow> bool" where
  "ports_free os bd rs \<longleftrightarrow> (\<forall>r \<in> set rs. \<forall>p u. r_public_port r = Some p \<longrightarrow> bd (u, word_of_int p) = None \<and> os u (word_of_int p) = None)"

lemma admitted:
  assumes rs: "\<forall>r \<in> set rs. servable r" "distinct (map r_route_id rs)"
    "\<And>r r' p. r \<in> set rs \<Longrightarrow> r' \<in> set rs \<Longrightarrow> r_public_port r = Some p \<Longrightarrow> r_public_port r' = Some p \<Longrightarrow> r_route_id r = r_route_id r'"
    and c: "c = tunnel_claims now uid tid sub (fst (expand_routes rs sub host)) custom"
    and jwt: "decode token (jwt_secret cfg) = Inr c" and go: "may_proceed st c" and free: "ports_free os bd rs"
  shows "\<exists>s bd'. admit decode os cfg st bd sid (hello_for token (snd (expand_routes rs sub host))) = Inr (s, bd')
    \<and> s_claims s = c \<and> map p_route_id (s_planned s) = map rr_route_id (snd (expand_routes rs sub host))"
proof -
  let ?cs = "fst (expand_routes rs sub host)" and ?vs = "snd (expand_routes rs sub host)"
  have tc: "tc_routes c = ?cs" by (simp add: c tunnel_claims_def)
  have v: "verify_tunnel_token decode token (jwt_secret cfg) = Inr c"
    using claims_valid [OF rs(1,2)] jwt by (simp add: verify_tunnel_token_Inr c)
  have ids: "map rc_route_id ?cs = map rr_route_id ?vs" by (simp add: expand_routes_ids)
  have "rr_route_id v \<in> rc_route_id ` set ?cs" if "v \<in> set ?vs" for v
    using that ids by (metis image_eqI image_set)
  then have b: "check_bindings c (hello_routes (hello_for token ?vs)) = Inr ()"
    by (force simp: check_bindings_iff tc hello_for_def)
  have "bd (claim_key x) = None \<and> os (fst (claim_key x)) (snd (claim_key x)) = None"
    if x: "x \<in> set ?cs" "dedicated x" for x
  proof -
    have "claim_key x \<in> set (map claim_key (filter dedicated ?cs))" using x by simp
    then obtain r where r: "r \<in> set rs" "claim_key x \<in> set (wire_keys r)" by (auto simp: expand_routes_keys)
    have "r_public_port r = Some (int (unat (snd (claim_key x))))"
      using wire_key_row [of r "fst (claim_key x)" "snd (claim_key x)"] r rs(1) by simp
    then show ?thesis using free r(1) unfolding ports_free_def by (metis prod.collapse word_of_int_uint uint_nat)
  qed
  then obtain ps tcp udp bd' where
    "bind_routes os cfg (tc_subdomain c) sid ?cs bd = Inr (ps, tcp, udp, bd')" "map p_route_id ps = map rc_route_id ?cs"
    using bind_routes_succeeds [of ?cs bd os cfg "tc_subdomain c" sid] no_both_claims distinct_wire_keys [OF rs]
    by (auto simp: expand_routes_keys)
  then show ?thesis using v b go ids by (simp add: admit_def hello_for_def tc)
qed

section \<open>The stored routes of a tunnel\<close>

definition store_ready :: "DB \<Rightarrow> bool" where
  "store_ready db \<longleftrightarrow>
     db_ok db \<and> (\<forall>r \<in> set (routes_t db). servable r) \<and> (\<forall>t \<in> set (tunnels_t db). t_node_id t \<noteq> None)
     \<and> (\<forall>k \<in> set (pool_keys db). 0 \<le> snd k \<and> snd k < 65536)"

definition tunnel_rows :: "int \<Rightarrow> RouteRow list \<Rightarrow> DB \<Rightarrow> bool" where
  "tunnel_rows tid rows db \<longleftrightarrow> set rows = {r \<in> set (routes_t db). r_tunnel_id r = tid} \<and> distinct rows"

lemma distinct_routes: "db_ok db \<Longrightarrow> distinct (routes_t db)"
  by (simp add: db_ok_def ids_ok_def distinct_map)

lemma tunnel_rows_for: "db_ok db \<Longrightarrow> tunnel_rows tid (routes_for_tunnel db tid) db"
  using distinct_routes by (simp add: tunnel_rows_def) (simp add: routes_for_tunnel_def)

lemma tunnel_rows_facts:
  assumes ready: "store_ready db" and rows: "tunnel_rows tid rows db"
  shows "\<forall>r \<in> set rows. servable r" and "distinct (map r_route_id rows)"
    and "r \<in> set rows \<Longrightarrow> r' \<in> set rows \<Longrightarrow> r_public_port r = Some p \<Longrightarrow> r_public_port r' = Some p \<Longrightarrow> r_route_id r = r_route_id r'"
proof -
  have ok: "db_ok db" and in_db: "\<And>r. r \<in> set rows \<Longrightarrow> r \<in> set (routes_t db) \<and> r_tunnel_id r = tid"
    using ready rows by (auto simp: store_ready_def tunnel_rows_def)
  show "\<forall>r \<in> set rows. servable r" using ready rows by (auto simp: store_ready_def tunnel_rows_def)
  have "inj_on r_route_id (set rows)"
  proof (rule inj_onI)
    fix r r' assume "r \<in> set rows" "r' \<in> set rows" "r_route_id r = r_route_id r'"
    moreover have inj: "inj_on (\<lambda>r. (r_tunnel_id r, r_route_id r)) (set (routes_t db))"
      using ok by (simp add: db_ok_def ids_ok_def distinct_map)
    ultimately show "r = r'" using in_db [of r] in_db [of r'] inj_onD [OF inj, of r r'] by simp
  qed
  then show "distinct (map r_route_id rows)" using rows by (simp add: tunnel_rows_def distinct_map)
  assume r: "r \<in> set rows" "r' \<in> set rows" and p: "r_public_port r = Some p" "r_public_port r' = Some p"
  obtain t where t: "t \<in> set (tunnels_t db)" "t_id t = r_tunnel_id r"
    using ok in_db [OF r(1)] unfolding db_ok_def ids_ok_def by blast
  then obtain node where n: "t_node_id t = Some node" using ready unfolding store_ready_def by blast
  have "t_id t = r_tunnel_id r'" using t(2) in_db [OF r(1)] in_db [OF r(2)] by simp
  then have "r = r'"
    using in_db [OF r(1)] in_db [OF r(2)] by (intro ports_exclusive [OF ok _ _ p t n t(1) _ n]) blast+
  then show "r_route_id r = r_route_id r'" by simp
qed

lemma new_route_keys: "new_route locked node tid rid req db = Inr (pp, db') \<Longrightarrow> pool_keys db' = pool_keys db"
  using pool_keys_claim
  by (auto simp: new_route_def port_for_def and_then_Inr_iff insert_route_def pool_keys_def
      split: prod.splits if_splits option.splits)

lemma reserve_routes_keys: "reserve_routes locked node tid i reqs db = Inr (out, db') \<Longrightarrow> pool_keys db' = pool_keys db"
proof (induction reqs arbitrary: i db out)
  case (Cons req reqs)
  then show ?case by (auto simp: Let_def and_then_Inr_iff dest!: new_route_keys Cons.IH)
qed simp

lemma parse_kind_as_str [simp]: "parse_kind (as_str m) = m"
  by (cases m) (simp_all add: parse_kind_def)

lemma answers_servable:
  assumes a: "answers tid rid req row" and rid: "0 \<le> rid" "rid < 10000"
    and p: "\<And>p. r_public_port row = Some p \<Longrightarrow> 0 \<le> p \<and> p < 65536"
  shows "servable row"
  using a rid p by (auto simp: answers_def servable_def)

lemma servable_id [simp]: "servable (r\<lparr>r_id := i\<rparr>) \<longleftrightarrow> servable r"
  by (simp add: servable_def)

text \<open>Rows appended to a table that are fresh except for their identity.\<close>

lemma appended_rows:
  assumes strip: "map (\<lambda>r. r\<lparr>r_id := 0\<rparr>) new = map (\<lambda>r. r\<lparr>r_id := 0\<rparr>) old @ out"
    and mine: "\<forall>r \<in> set out. r_tunnel_id r = tid" and theirs: "\<forall>r \<in> set old. r_tunnel_id r \<noteq> tid"
  obtains ys where "set ys = {r \<in> set new. r_tunnel_id r = tid}" "map (\<lambda>r. r\<lparr>r_id := 0\<rparr>) ys = out" "distinct new \<longrightarrow> distinct ys"
    and "\<forall>r \<in> set new. r \<in> set ys \<or> (\<exists>r' \<in> set old. r\<lparr>r_id := 0\<rparr> = r'\<lparr>r_id := 0\<rparr>)"
proof -
  obtain xs ys where split: "new = xs @ ys"
    and xs: "map (\<lambda>r. r\<lparr>r_id := 0\<rparr>) xs = map (\<lambda>r. r\<lparr>r_id := 0\<rparr>) old" and ys: "map (\<lambda>r. r\<lparr>r_id := 0\<rparr>) ys = out"
    using strip by (auto simp: map_eq_append_conv)
  have old: "\<exists>r' \<in> set old. r\<lparr>r_id := 0\<rparr> = r'\<lparr>r_id := 0\<rparr>" if "r \<in> set xs" for r
  proof -
    have "r\<lparr>r_id := 0\<rparr> \<in> set (map (\<lambda>r. r\<lparr>r_id := 0\<rparr>) old)" using that by (simp flip: xs)
    then show ?thesis by auto
  qed
  have "r_tunnel_id r \<noteq> tid" if "r \<in> set xs" for r
  proof -
    obtain r' where "r' \<in> set old" "r\<lparr>r_id := 0\<rparr> = r'\<lparr>r_id := 0\<rparr>" using old \<open>r \<in> set xs\<close> by blast
    moreover have "r_tunnel_id r = r_tunnel_id (r\<lparr>r_id := 0\<rparr>)" "r_tunnel_id r' = r_tunnel_id (r'\<lparr>r_id := 0\<rparr>)" by simp_all
    ultimately show ?thesis using theirs by metis
  qed
  moreover have "r_tunnel_id r = tid" if "r \<in> set ys" for r
  proof -
    have "r\<lparr>r_id := 0\<rparr> \<in> set out" using that by (simp flip: ys)
    then have "r_tunnel_id (r\<lparr>r_id := 0\<rparr>) = tid" using mine by blast
    then show ?thesis by simp
  qed
  ultimately show thesis using that [of ys] ys old by (auto simp: split)
qed

lemma created_ready:
  assumes ready: "store_ready db" and few: "length requested \<le> 9999"
    and ins: "insert_tunnel now sub owner sig host node device db = Inr (tid, db1)"
    and rs: "reserve_routes locked node tid 0 requested db1 = Inr (out, db')"
  shows "store_ready db' \<and> (\<exists>rows. tunnel_rows tid rows db' \<and> map (\<lambda>r. r\<lparr>r_id := 0\<rparr>) rows = out)"
proof -
  have ok: "db_ok db" using ready by (simp add: store_ready_def)
  note T = insert_tunnel_ok [OF ok ins] and I = insert_tunnel_Inr [OF ins]
  note R = reserve_routes_ok [OF T(1,2) rs]
  have keys: "pool_keys db' = pool_keys db" using reserve_routes_keys [OF rs] I(4) by (simp add: pool_keys_def)
  obtain ys where ys: "tunnel_rows tid ys db'" "map (\<lambda>r. r\<lparr>r_id := 0\<rparr>) ys = out"
    and rest: "\<forall>r \<in> set (routes_t db'). r \<in> set ys \<or> (\<exists>r' \<in> set (routes_t db). r\<lparr>r_id := 0\<rparr> = r'\<lparr>r_id := 0\<rparr>)"
  proof (rule appended_rows [of "routes_t db'" "routes_t db" out tid])
    show "map (\<lambda>r. r\<lparr>r_id := 0\<rparr>) (routes_t db') = map (\<lambda>r. r\<lparr>r_id := 0\<rparr>) (routes_t db) @ out" using R I(3) by simp
    show "\<forall>r \<in> set out. r_tunnel_id r = tid" using R by (auto simp: in_set_conv_nth answers_def)
    show "\<forall>r \<in> set (routes_t db). r_tunnel_id r \<noteq> tid" using T(3) I(3) by simp
  qed (use that R distinct_routes [of db'] in \<open>auto simp: tunnel_rows_def\<close>)
  have port: "0 \<le> p \<and> p < 65536" if r: "r \<in> set ys" "r_public_port r = Some p" for r p
  proof -
    have "\<exists>t \<in> set (tunnels_t db'). t_id t = tid \<and> t_node_id t = Some node" using R I(6) by simp
    moreover have "r \<in> set (routes_t db')" "r_tunnel_id r = tid" using r(1) ys(1) by (auto simp: tunnel_rows_def)
    ultimately have "held db' node p tid (r_route_id r)" using R r(2) unfolding db_ok_def ports_ok_def by metis
    then have "(node, p) \<in> set (pool_keys db')" by (force simp: held_def pool_keys_def)
    then show ?thesis using ready keys by (force simp: store_ready_def)
  qed
  have new: "servable r" if "r \<in> set ys" for r
  proof -
    have "r\<lparr>r_id := 0\<rparr> \<in> set out" using that by (simp flip: ys(2))
    then obtain k where k: "k < length requested" "out ! k = r\<lparr>r_id := 0\<rparr>" using R by (auto simp: in_set_conv_nth)
    have "answers tid (to_i16 (to_i16 (int k) + 1)) (requested ! k) (out ! k)" using R k(1) by simp
    then have "answers tid (int k + 1) (requested ! k) (r\<lparr>r_id := 0\<rparr>)" using few k by simp
    then have "servable (r\<lparr>r_id := 0\<rparr>)" using few k(1) port [OF that] by (intro answers_servable) auto
    then show ?thesis by simp
  qed
  have "servable r" if "r \<in> set (routes_t db')" for r
    using rest that new ready servable_id unfolding store_ready_def by metis
  then show ?thesis using ys R I(6) keys ready by (auto simp: store_ready_def)
qed

lemma reserved_ready:
  assumes ready: "store_ready db" and few: "length requested \<le> 9999"
    and res: "reserve_tunnel lower locked draws now owner node host requested custom mx reuse device db = Inr (rt, db')"
  shows "store_ready db'"
    and "\<exists>rows. tunnel_rows (rt_tunnel_id rt) rows db' \<and> map (\<lambda>r. r\<lparr>r_id := 0\<rparr>) rows = map (\<lambda>r. r\<lparr>r_id := 0\<rparr>) (rt_routes rt)"
proof -
  have ok: "db_ok db" using ready by (simp add: store_ready_def)
  have "store_ready db' \<and> (\<exists>rows. tunnel_rows (rt_tunnel_id rt) rows db'
      \<and> map (\<lambda>r. r\<lparr>r_id := 0\<rparr>) rows = map (\<lambda>r. r\<lparr>r_id := 0\<rparr>) (rt_routes rt))"
    using res
  proof (cases rule: reserve_tunnel_cases)
    case (reused ex)
    then show ?thesis using ready tunnel_rows_for [OF ok, of "t_id ex"] by auto
  next
    case (created tid sub db1 out)
    obtain rows where rows: "store_ready db'" "tunnel_rows tid rows db'" "map (\<lambda>r. r\<lparr>r_id := 0\<rparr>) rows = out"
      using created_ready [OF ready few created(2,6)] by blast
    have "map (\<lambda>r. r\<lparr>r_id := 0\<rparr>) out = out" by (simp flip: rows(3) add: comp_def)
    then show ?thesis using rows by (auto simp: created(7))
  qed
  then show "store_ready db'"
    and "\<exists>rows. tunnel_rows (rt_tunnel_id rt) rows db' \<and> map (\<lambda>r. r\<lparr>r_id := 0\<rparr>) rows = map (\<lambda>r. r\<lparr>r_id := 0\<rparr>) (rt_routes rt)"
    by blast+
qed

end
