(* ===== verification/Sweeps.thy ===== *)
theory Sweeps
  imports LifecycleProofs
begin

text \<open>
  What the reachable databases and the periodic sweeps of \<^verbatim>\<open>natforge-backend/src/main.rs\<close> promise.
\<close>

section \<open>Deleting by id and by condition\<close>

lemma delete_ids_eq_filter:
  assumes "distinct (map f xs)" and "set ids = f ` set (filter P xs)"
  shows "delete_where (\<lambda>x. f x \<in> set ids) xs = filter (\<lambda>x. \<not> P x) xs"
proof -
  have inj: "inj_on f (set xs)" using assms(1) by (simp add: distinct_map)
  have "f x \<in> set ids \<longleftrightarrow> P x" if "x \<in> set xs" for x
    using inj that by (auto simp: assms(2) dest: inj_onD)
  then show ?thesis by (simp add: delete_where_def cong: filter_cong)
qed

lemma in_tunnels_where: "i \<in> set (tunnels_where P db) \<longleftrightarrow> (\<exists>t \<in> set (tunnels_t db). P t \<and> t_id t = i)"
  by (auto simp: tunnels_where_def)

lemma tunnels_where_iff:
  "db_ok db \<Longrightarrow> t \<in> set (tunnels_t db) \<Longrightarrow> t_id t \<in> set (tunnels_where P db) \<longleftrightarrow> P t"
  by (auto simp: in_tunnels_where db_ok_def ids_ok_def distinct_map dest: inj_onD)

lemma count_where_ids:
  "db_ok db \<Longrightarrow> count_where (\<lambda>t. t_id t \<in> set (tunnels_where P db)) (tunnels_t db) = length (filter P (tunnels_t db))"
  unfolding count_where_def by (rule arg_cong [where f = length], rule filter_cong) (simp_all add: tunnels_where_iff)

lemma cascade_where_fields:
  "tunnels_t (cascade_where P db) = delete_where (\<lambda>t. t_id t \<in> set (tunnels_where P db)) (tunnels_t db)"
  "routes_t (cascade_where P db) = delete_where (\<lambda>r. r_tunnel_id r \<in> set (tunnels_where P db)) (routes_t db)"
  by (simp_all add: cascade_where_def cascade_tunnels_def)

lemma cascade_pool:
  "\<forall>row \<in> set (pool_t (cascade_where P db)). \<forall>i \<in> set (tunnels_where P db). pp_tunnel_id row \<noteq> Some i"
  by (auto simp: cascade_where_def cascade_tunnels_def ball_update_where split: option.split)

lemma free_ports_fields [simp]:
  "tunnels_t (free_ports_of ids db) = tunnels_t db" "routes_t (free_ports_of ids db) = routes_t db"
  by (simp_all add: free_ports_of_def)

lemma tunnels_where_free [simp]: "tunnels_where P (free_ports_of ids db) = tunnels_where P db"
  by (simp add: tunnels_where_def)

lemma free_ports_pool:
  "\<forall>row \<in> set (pool_t (free_ports_of ids db)). \<forall>i \<in> set ids. pp_tunnel_id row \<noteq> Some i"
  by (auto simp: free_ports_of_def ball_update_where)

lemma reconcile_spec:
  assumes ok: "db_ok db" and r: "reconcile_abandoned now grace db = (n, db')"
  shows "tunnels_t db' = filter (\<lambda>t. \<not> abandoned now grace t) (tunnels_t db)
    \<and> n = length (filter (abandoned now grace) (tunnels_t db))
    \<and> (\<forall>row \<in> set (pool_t db'). \<forall>t \<in> set (tunnels_t db). abandoned now grace t \<longrightarrow>
         pp_tunnel_id row \<noteq> Some (t_id t))
    \<and> routes_t db' = filter (\<lambda>r. \<forall>t \<in> set (tunnels_t db). t_id t = r_tunnel_id r \<longrightarrow> \<not> abandoned now grace t) (routes_t db)"
proof -
  let ?stale = "tunnels_where (abandoned now grace) db"
  have dist: "distinct (map t_id (tunnels_t db))" using ok by (simp add: db_ok_def ids_ok_def)
  have iff: "t_id t \<in> set ?stale \<longleftrightarrow> abandoned now grace t" if "t \<in> set (tunnels_t db)" for t
    by (rule tunnels_where_iff [OF ok that])
  show ?thesis
  proof (cases "?stale = []")
    case True
    then have none: "\<forall>t \<in> set (tunnels_t db). \<not> abandoned now grace t" by (auto simp: tunnels_where_def filter_empty_conv)
    have "n = 0 \<and> db' = db" using r True by (simp add: reconcile_abandoned_def)
    then show ?thesis using none by (auto simp: filter_empty_conv filter_id_conv)
  next
    case False
    let ?db1 = "free_ports_of ?stale db"
    have n: "n = count_where (\<lambda>t. t_id t \<in> set ?stale) (tunnels_t db)"
      and db': "db' = cascade_where (\<lambda>t. t_id t \<in> set ?stale) ?db1"
      using r False by (simp_all add: reconcile_abandoned_def Let_def)
    have same: "set (tunnels_where (\<lambda>t. t_id t \<in> set ?stale) ?db1) = set ?stale"
      by (simp only: set_eq_iff in_tunnels_where tunnels_where_free free_ports_fields) blast
    have t: "tunnels_t db' = filter (\<lambda>t. \<not> abandoned now grace t) (tunnels_t db)"
      unfolding db' cascade_where_fields same free_ports_fields
      by (rule delete_ids_eq_filter [OF dist]) (auto simp: tunnels_where_def)
    have rts: "routes_t db' = filter (\<lambda>r. \<forall>t \<in> set (tunnels_t db). t_id t = r_tunnel_id r \<longrightarrow> \<not> abandoned now grace t) (routes_t db)"
      unfolding db' cascade_where_fields same free_ports_fields delete_where_def
      by (rule filter_cong) (auto simp: in_tunnels_where)
    have "\<forall>row \<in> set (pool_t db'). \<forall>i \<in> set ?stale. pp_tunnel_id row \<noteq> Some i"
      using cascade_pool [of "\<lambda>t. t_id t \<in> set ?stale" ?db1] by (simp only: db' same)
    then have "\<forall>row \<in> set (pool_t db'). \<forall>t \<in> set (tunnels_t db). abandoned now grace t \<longrightarrow> pp_tunnel_id row \<noteq> Some (t_id t)"
      using iff by blast
    then show ?thesis using t rts count_where_ids [OF ok] by (auto simp: n)
  qed
qed


lemma expire_spec:
  assumes ok: "db_ok db" and e: "expire_idle_service_hosts now secs db = (n, db')"
  shows "tunnels_t db' = update_where (idle_host now secs) (\<lambda>t. t\<lparr>t_route_sig := []\<rparr>) (tunnels_t db)
    \<and> n = length (filter (idle_host now secs) (tunnels_t db))
    \<and> routes_t db' = filter (\<lambda>r. \<forall>t \<in> set (tunnels_t db). t_id t = r_tunnel_id r \<longrightarrow> \<not> idle_host now secs t) (routes_t db)
    \<and> (\<forall>row \<in> set (pool_t db'). \<forall>t \<in> set (tunnels_t db). idle_host now secs t \<longrightarrow> pp_tunnel_id row \<noteq> Some (t_id t))"
proof -
  let ?idle = "tunnels_where (idle_host now secs) db"
  have iff: "t_id t \<in> set ?idle \<longleftrightarrow> idle_host now secs t" if "t \<in> set (tunnels_t db)" for t
    by (rule tunnels_where_iff [OF ok that])
  show ?thesis
  proof (cases "?idle = []")
    case True
    then have none: "\<forall>t \<in> set (tunnels_t db). \<not> idle_host now secs t" by (auto simp: tunnels_where_def filter_empty_conv)
    have "n = 0 \<and> db' = db" using e True by (simp add: expire_idle_service_hosts_def)
    then show ?thesis using none by (auto simp: filter_empty_conv filter_id_conv update_where_def map_idI)
  next
    case False
    let ?db1 = "free_ports_of ?idle db"
    have n: "n = length ?idle" and t: "tunnels_t db' = update_where (\<lambda>t. t_id t \<in> set ?idle) (\<lambda>t. t\<lparr>t_route_sig := []\<rparr>) (tunnels_t db)"
      and r: "routes_t db' = delete_where (\<lambda>r. r_tunnel_id r \<in> set ?idle) (routes_t db)" and p: "pool_t db' = pool_t ?db1"
      using e False by (auto simp: expire_idle_service_hosts_def Let_def)
    have "tunnels_t db' = update_where (idle_host now secs) (\<lambda>t. t\<lparr>t_route_sig := []\<rparr>) (tunnels_t db)"
      unfolding t update_where_def using iff by (intro map_cong) simp_all
    moreover have "routes_t db' = filter (\<lambda>r. \<forall>t \<in> set (tunnels_t db). t_id t = r_tunnel_id r \<longrightarrow> \<not> idle_host now secs t) (routes_t db)"
      unfolding r delete_where_def by (rule filter_cong) (auto simp: in_tunnels_where)
    moreover have "\<forall>row \<in> set (pool_t db'). \<forall>i \<in> set ?idle. pp_tunnel_id row \<noteq> Some i"
      unfolding p by (rule free_ports_pool)
    then have "\<forall>row \<in> set (pool_t db'). \<forall>t \<in> set (tunnels_t db). idle_host now secs t \<longrightarrow> pp_tunnel_id row \<noteq> Some (t_id t)"
      using iff by blast
    ultimately show ?thesis by (simp add: n tunnels_where_def)
  qed
qed

section \<open>Pruning logs\<close>

lemma card_ranks:
  fixes S :: "int set"
  assumes fin: "finite S" and keep: "0 \<le> k"
  shows "int (card {i \<in> S. int (card {j \<in> S. i \<le> j}) \<le> k}) \<le> k"
proof -
  let ?rank = "\<lambda>i::int. card {j \<in> S. i \<le> j}"
  let ?K = "{i \<in> S. int (?rank i) \<le> k}"
  have less: "?rank j < ?rank i" if "i \<in> S" "i < j" for i j
  proof (rule psubset_card_mono)
    show "finite {j \<in> S. i \<le> j}" using fin by simp
    have "i \<in> {x \<in> S. i \<le> x}" "i \<notin> {x \<in> S. j \<le> x}" using that by simp_all
    then show "{x \<in> S. j \<le> x} \<subset> {x \<in> S. i \<le> x}" using that(2) by (intro psubsetI) (force, blast)
  qed
  have inj: "inj_on ?rank ?K"
  proof (rule inj_onI)
    fix i j assume ij: "i \<in> ?K" "j \<in> ?K" "?rank i = ?rank j"
    show "i = j"
    proof (cases i j rule: linorder_cases)
      case less
      then show ?thesis using ij \<open>\<And>i j. i \<in> S \<Longrightarrow> i < j \<Longrightarrow> ?rank j < ?rank i\<close> [of i j] by auto
    next
      case greater
      then show ?thesis using ij \<open>\<And>i j. i \<in> S \<Longrightarrow> i < j \<Longrightarrow> ?rank j < ?rank i\<close> [of j i] by auto
    qed
  qed
  have "?rank ` ?K \<subseteq> {1..nat k}"
  proof
    fix n assume "n \<in> ?rank ` ?K"
    then obtain i where i: "i \<in> S" "int (?rank i) \<le> k" "n = ?rank i" by auto
    have "i \<in> {j \<in> S. i \<le> j}" using i(1) by simp
    moreover have "finite {j \<in> S. i \<le> j}" using fin by simp
    ultimately have "0 < ?rank i" by (auto simp: card_gt_0_iff)
    then show "n \<in> {1..nat k}" using i(2,3) by auto
  qed
  then have "card ?K \<le> card {1..nat k}"
    by (rule card_inj_on_le [OF inj]) simp
  then show ?thesis using keep by simp
qed

lemma count_where_card:
  "distinct (map f xs) \<Longrightarrow> count_where P xs = card (f ` set (filter P xs))"
  unfolding count_where_def by (metis distinct_card distinct_map_filter length_map set_map)

lemma prune_spec:
  assumes dist: "distinct (map l_id (logs_t db))" and keep: "0 \<le> keep" and p: "prune_conn_logs keep db = (n, db')"
  shows "int (count_where (\<lambda>l. l_tunnel_id l = tid) (logs_t db')) \<le> keep
    \<and> (\<forall>l \<in> set (logs_t db) - set (logs_t db'). \<forall>m \<in> set (logs_t db'). l_tunnel_id m = l_tunnel_id l \<longrightarrow> l_id l < l_id m)
    \<and> (\<forall>l \<in> set (logs_t db). int (count_where (\<lambda>m. l_tunnel_id m = l_tunnel_id l) (logs_t db)) \<le> keep \<longrightarrow> l \<in> set (logs_t db'))
    \<and> n + length (logs_t db') = length (logs_t db)"
proof -
  let ?logs = "logs_t db"
  have n: "n = length (filter (\<lambda>l. keep < log_rank ?logs l) ?logs)"
    and l': "logs_t db' = filter (\<lambda>l. \<not> keep < log_rank ?logs l) ?logs"
    using p by (auto simp: prune_conn_logs_def count_where_def delete_where_def)
  let ?S = "\<lambda>t. l_id ` set (filter (\<lambda>l. l_tunnel_id l = t) ?logs)"
  have inj: "inj_on l_id (set ?logs)" using dist by (simp add: distinct_map)
  have rank: "log_rank ?logs l = int (card {j \<in> ?S (l_tunnel_id l). l_id l \<le> j})" for l
  proof -
    have "l_id ` set (filter (\<lambda>m. l_tunnel_id m = l_tunnel_id l \<and> l_id l \<le> l_id m) ?logs)
        = {j \<in> ?S (l_tunnel_id l). l_id l \<le> j}" by auto
    then show ?thesis using count_where_card [OF dist] by (simp add: log_rank_def)
  qed
  have "count_where (\<lambda>l. l_tunnel_id l = tid) (logs_t db') = card (l_id ` set (filter (\<lambda>l. l_tunnel_id l = tid) (logs_t db')))"
    by (rule count_where_card) (simp add: l' distinct_map_filter dist)
  also have "l_id ` set (filter (\<lambda>l. l_tunnel_id l = tid) (logs_t db')) = {i \<in> ?S tid. int (card {j \<in> ?S tid. i \<le> j}) \<le> keep}"
    by (auto simp: l' rank not_less)
  finally have bound: "int (count_where (\<lambda>l. l_tunnel_id l = tid) (logs_t db')) \<le> keep"
    using card_ranks [of "?S tid" keep] keep by simp
  have newer: "l_id l < l_id m"
    if l: "l \<in> set ?logs" "l \<notin> set (logs_t db')" and m: "m \<in> set (logs_t db')" "l_tunnel_id m = l_tunnel_id l" for l m
  proof (rule ccontr)
    assume "\<not> l_id l < l_id m"
    then have "{j \<in> ?S (l_tunnel_id l). l_id l \<le> j} \<subseteq> {j \<in> ?S (l_tunnel_id l). l_id m \<le> j}" by auto
    then have "log_rank ?logs l \<le> log_rank ?logs m" by (simp add: rank m(2) card_mono)
    then show False using l m(1) by (simp add: l')
  qed
  have small: "l \<in> set (logs_t db')"
    if "l \<in> set ?logs" "int (count_where (\<lambda>m. l_tunnel_id m = l_tunnel_id l) ?logs) \<le> keep" for l
  proof -
    have "log_rank ?logs l \<le> int (card (?S (l_tunnel_id l)))" by (simp add: rank card_mono)
    also have "\<dots> \<le> keep" using that(2) count_where_card [OF dist] by simp
    finally show ?thesis using that(1) by (simp add: l')
  qed
  have "n + length (logs_t db') = length ?logs" by (simp add: n l' sum_length_filter_compl)
  then show ?thesis using bound newer small by blast
qed

section \<open>Properties\<close>

definition start_db :: DB where
  "start_db = register_node 5 (demo_node ''a'' 0 None) 20000 20001 (fresh_db [''www''] [])"

definition user_db :: DB where
  "user_db = (case create_user 6 ''a@b.c'' ''h'' start_db of Inr (u, db) \<Rightarrow> db | Inl _ \<Rightarrow> start_db)"

definition live_reservation :: "ReserveError + ReservedTunnel \<times> DB" where
  "live_reservation = reserve_tunnel id [] [(0, 0, 27, 1, 28)] 7 1 ''a'' ''a.example'' demo_requests None 10 True None user_db"

lemma user_db_reachable: "db_reachable user_db"
proof -
  have "db_reachable start_db" unfolding start_db_def by (rule db_next [OF db_start step_register_node])
  moreover have "\<exists>u. create_user 6 ''a@b.c'' ''h'' start_db = Inr (u, user_db)"
    by (simp add: user_db_def create_user_def start_db_def register_node_def fresh_db_def Let_def)
  ultimately show ?thesis using step_create_user db_next by blast
qed

lemma live_reserved:
  "\<exists>rt db. live_reservation = Inr (rt, db) \<and> map r_public_port (routes_t db) = [Some 20000, None] \<and> db_reachable db"
proof -
  let ?db1 = "user_db\<lparr>tunnels_t := [demo_tunnel\<lparr>t_id := 2, t_owner_id := 1, t_created_at := 7\<rparr>], next_id := 3\<rparr>"
  have none: "fetch_optional (same_set 1 ''http:8080,tcp:22'' None) (tunnels_t user_db) = None" by code_simp
  have count: "count_where (\<lambda>t. t_owner_id t = 1) (tunnels_t user_db) = 0" by code_simp
  have pick: "pick_random 7 1 ''http:8080,tcp:22'' ''a.example'' ''a'' None (map random_subdomain (take 10 [(0, 0, 27, 1, 28)]))
     (Some user_db) = Inr (2, ''duck-a1b2'', ?db1)"
    by code_simp
  have "case reserve_routes [] ''a'' 2 0 demo_requests ?db1 of Inl _ \<Rightarrow> False
      | Inr (out, db) \<Rightarrow> map r_public_port (routes_t db) = [Some 20000, None]"
    by code_simp
  then obtain out db where r: "reserve_routes [] ''a'' 2 0 demo_requests ?db1 = Inr (out, db)"
    and m: "map r_public_port (routes_t db) = [Some 20000, None]"
    by (auto split: sum.split_asm prod.split_asm)
  have l: "\<exists>rt. live_reservation = Inr (rt, db)"
    unfolding live_reservation_def reserve_tunnel_def demo_signature Let_def none count option.case pick by (simp add: r)
  then have "db_reachable db"
    using step_reserve db_next [OF user_db_reachable] unfolding live_reservation_def by blast
  moreover obtain rt where "live_reservation = Inr (rt, db)" using l by (elim exE)
  ultimately show ?thesis using m by (intro exI [of _ rt] exI [of _ db]) simp
qed



text \<open>
  The reconciliation sweep deletes exactly the abandoned tunnels and their routes, frees every port
  they held and reports how many it deleted; it never touches a tunnel of a device, nor one that waits
  for its agent or is stopped.
\<close>

theorem reconcile_exact:
  assumes "db_ok db" and "reconcile_abandoned now grace db = (n, db')"
  shows "tunnels_t db' = filter (\<lambda>t. \<not> abandoned now grace t) (tunnels_t db)
    \<and> n = length (filter (abandoned now grace) (tunnels_t db))
    \<and> routes_t db' = filter (\<lambda>r. \<forall>t \<in> set (tunnels_t db). t_id t = r_tunnel_id r \<longrightarrow> \<not> abandoned now grace t) (routes_t db)
    \<and> (\<forall>row \<in> set (pool_t db'). \<forall>t \<in> set (tunnels_t db). abandoned now grace t \<longrightarrow> pp_tunnel_id row \<noteq> Some (t_id t))
    \<and> (\<forall>t \<in> set (tunnels_t db). t_device_id t \<noteq> None \<or> t_status t = ''stopped'' \<or> t_status t = ''awaiting_agent'' \<longrightarrow>
         t \<in> set (tunnels_t db'))"
  using reconcile_spec [OF assms] by (auto simp: abandoned_def)

theorem reconcile_exact_witness:
  "\<exists>db'. reconcile_abandoned 5000 3600 (set_tunnel_online 6 1 ''a'' None demo_db1) = (1, db') \<and> tunnels_t db' = []
     \<and> (\<forall>row \<in> set (pool_t db'). pp_tunnel_id row \<noteq> Some 1)"
proof -
  let ?db = "set_tunnel_online 6 1 ''a'' None demo_db1"
  have ok: "db_ok ?db" by (rule online_ok [OF demo_db1_ok]) (simp add: demo_db1_def demo_tunnel_def)
  obtain n db' where r: "reconcile_abandoned 5000 3600 ?db = (n, db')" by fastforce
  have t: "filter (abandoned 5000 3600) (tunnels_t ?db) = tunnels_t ?db" "map t_id (tunnels_t ?db) = [1]"
    by (simp_all add: set_tunnel_online_def update_where_def demo_db1_def demo_tunnel_def abandoned_def)
  then obtain u where u: "tunnels_t ?db = [u]" "t_id u = 1" "abandoned 5000 3600 u"
    by (auto simp: map_eq_Cons_conv filter_id_conv)
  show ?thesis using reconcile_exact [OF ok r] r by (simp add: u)
qed

text \<open>
  The idle sweep parks exactly the device services that still have routes and saw no traffic in the
  window: they lose their routes, ports and signature and nothing else, and every other tunnel and
  route is kept as it is.
\<close>

theorem idle_sweep_exact:
  assumes "db_ok db" and "expire_idle_service_hosts now secs db = (n, db')"
  shows "tunnels_t db' = update_where (idle_host now secs) (\<lambda>t. t\<lparr>t_route_sig := []\<rparr>) (tunnels_t db)
    \<and> n = length (filter (idle_host now secs) (tunnels_t db))
    \<and> routes_t db' = filter (\<lambda>r. \<forall>t \<in> set (tunnels_t db). t_id t = r_tunnel_id r \<longrightarrow> \<not> idle_host now secs t) (routes_t db)
    \<and> (\<forall>row \<in> set (pool_t db'). \<forall>t \<in> set (tunnels_t db). idle_host now secs t \<longrightarrow> pp_tunnel_id row \<noteq> Some (t_id t))"
  by (rule expire_spec [OF assms])

definition device_db :: DB where
  "device_db = demo_db1\<lparr>tunnels_t := [demo_tunnel\<lparr>t_device_id := Some 9\<rparr>]\<rparr>"

lemma device_db_ok: "db_ok device_db"
proof -
  have "device_db = demo_db1\<lparr>tunnels_t := update_where (\<lambda>_. True) (\<lambda>t. t\<lparr>t_device_id := Some 9\<rparr>) (tunnels_t demo_db1)\<rparr>"
    by (simp add: device_db_def demo_db1_def update_where_def)
  then show ?thesis by (rule ssubst) (rule update_tunnels_ok [OF demo_db1_ok]; simp)
qed

theorem idle_sweep_exact_witness:
  "\<exists>db'. expire_idle_service_hosts 100 50 device_db = (1, db') \<and> routes_t db' = []
     \<and> map t_route_sig (tunnels_t db') = [[]] \<and> (\<forall>row \<in> set (pool_t db'). pp_tunnel_id row \<noteq> Some 1)"
proof -
  note ok = device_db_ok
  obtain n db' where e: "expire_idle_service_hosts 100 50 device_db = (n, db')" by fastforce
  have "filter (idle_host 100 50) (tunnels_t device_db) = tunnels_t device_db"
    by (simp add: device_db_def demo_tunnel_def idle_host_def)
  moreover have "tunnels_t device_db = [demo_tunnel\<lparr>t_device_id := Some 9\<rparr>]" by (simp add: device_db_def)
  moreover have "map r_tunnel_id (routes_t device_db) = [1, 1]" by (simp add: device_db_def demo_db1_def demo_reserved_def)
  ultimately show ?thesis
    using idle_sweep_exact [OF ok e] e
    by (auto simp: update_where_def demo_tunnel_def filter_empty_conv idle_host_def map_eq_Cons_conv)
qed

text \<open>
  Pruning leaves at most \<^verbatim>\<open>keep\<close> log rows per tunnel, and they are the newest: every removed row is
  older than every kept row of its tunnel, a tunnel within the limit loses none, and the count
  returned is the number removed.
\<close>

theorem prune_keeps_newest:
  assumes "distinct (map l_id (logs_t db))" and "0 \<le> keep" and "prune_conn_logs keep db = (n, db')"
  shows "int (count_where (\<lambda>l. l_tunnel_id l = tid) (logs_t db')) \<le> keep
    \<and> (\<forall>l \<in> set (logs_t db) - set (logs_t db'). \<forall>m \<in> set (logs_t db'). l_tunnel_id m = l_tunnel_id l \<longrightarrow> l_id l < l_id m)
    \<and> (\<forall>l \<in> set (logs_t db). int (count_where (\<lambda>m. l_tunnel_id m = l_tunnel_id l) (logs_t db)) \<le> keep \<longrightarrow> l \<in> set (logs_t db'))
    \<and> n + length (logs_t db') = length (logs_t db)"
  by (rule prune_spec [OF assms])

definition demo_log :: "int \<Rightarrow> LogRow" where
  "demo_log i = \<lparr> l_id = i, l_tunnel_id = 1, l_owner_id = 7, l_route_id = 1, l_kind = ''tcp'', l_peer_ip = ''10.0.0.1'',
     l_country = None, l_bytes_in = 0, l_bytes_out = 0, l_duration_ms = 1, l_blocked = False \<rparr>"

theorem prune_keeps_newest_witness:
  "\<exists>db'. prune_conn_logs 2 (demo_db1\<lparr>logs_t := map demo_log [5, 6, 8]\<rparr>) = (1, db') \<and> map l_id (logs_t db') = [6, 8]
     \<and> int (count_where (\<lambda>l. l_tunnel_id l = 1) (logs_t db')) \<le> 2"
proof -
  let ?db = "demo_db1\<lparr>logs_t := map demo_log [5, 6, 8]\<rparr>"
  have p: "prune_conn_logs 2 ?db = (1, demo_db1\<lparr>logs_t := map demo_log [6, 8]\<rparr>)"
    by (simp add: prune_conn_logs_def log_rank_def count_where_def delete_where_def demo_log_def)
  have "distinct (map l_id (logs_t ?db))" by (simp add: demo_log_def)
  then show ?thesis using prune_keeps_newest [OF _ _ p, of 1] p by (simp add: demo_log_def)
qed

text \<open>
  A bandwidth report is activity exactly if a counter grew past the last snapshot (or is positive in
  the first one): only then does it move the idle clock of its tunnel; it always refreshes last_seen,
  and it becomes the newest snapshot.
\<close>

theorem idle_clock_moves_on_traffic:
  assumes "append_bandwidth now tid owner bytes_in bytes_out db = Inr (x, db')"
  shows "latest_bandwidth tid db' = Some (bytes_in, bytes_out)
    \<and> tunnels_t db' = update_where (\<lambda>t. t_id t = tid)
        (\<lambda>t. t\<lparr>t_last_seen := Some now,
               t_last_active_at := if traffic_active (latest_bandwidth tid db) bytes_in bytes_out then Some now
                                   else t_last_active_at t\<rparr>) (tunnels_t db)"
proof (cases "traffic_active (latest_bandwidth tid db) bytes_in bytes_out")
  case True
  then show ?thesis using assms
    by (auto simp: append_bandwidth_def Let_def latest_bandwidth_def fetch_optional_def update_tunnel_def split: if_splits)
next
  case False
  then show ?thesis using assms
    by (auto simp: append_bandwidth_def Let_def latest_bandwidth_def fetch_optional_def update_tunnel_def update_where_def
        split: if_splits)
qed

theorem idle_clock_moves_on_traffic_witness:
  "\<exists>db'. append_bandwidth 50 1 7 10 0 demo_db1 = Inr ((), db') \<and> latest_bandwidth 1 db' = Some (10, 0)"
proof -
  obtain db' where a: "append_bandwidth 50 1 7 10 0 demo_db1 = Inr ((), db')"
    by (simp add: append_bandwidth_def Let_def demo_db1_def demo_db_def demo_tunnel_def demo_user_def)
  show ?thesis using idle_clock_moves_on_traffic [OF a] a by simp
qed

end
