(* ===== verification/ApiProps.thy ===== *)
theory ApiProps
  imports Handshake Sweeps
begin

text \<open>
  Properties of the tunnel API: what a reservation and a device configuration hand to an agent is
  accepted by the node, the route policy, the exclusive local endpoints of a device, and who may edit a
  tunnel and what such an edit can touch.
\<close>

section \<open>Reservations that reach the node\<close>

lemma expand_route_id [simp]: "expand_route (r\<lparr>r_id := i\<rparr>) sub host = expand_route r sub host"
  by (simp add: expand_route_def expand_both_def Let_def)

lemma expand_routes_strip: "expand_routes (map (\<lambda>r. r\<lparr>r_id := 0\<rparr>) rs) sub host = expand_routes rs sub host"
  by (simp add: expand_routes_def comp_def)

lemma ports_free_subset: "ports_free os bd rs \<Longrightarrow> set rows \<subseteq> set rs \<Longrightarrow> ports_free os bd rows"
  by (auto simp: ports_free_def)

definition stored_rows :: "int \<Rightarrow> DB \<Rightarrow> RouteRow list" where
  "stored_rows tid db = filter (\<lambda>r. r_tunnel_id r = tid) (routes_t db)"

text \<open>
  A token that encodes claims and gets its bearer in: wherever decoding it gives those claims back, the
  ports are free and no other tunnel answers for the subdomain, the agent is admitted under exactly
  these claims, with one planned route per route it was told.
\<close>

definition token_admits ::
    "TunnelClaims \<Rightarrow> string \<Rightarrow> ReservedRoute list \<Rightarrow> RouteRow list \<Rightarrow> bool" where
  "token_admits c token views rows \<longleftrightarrow>
     (\<forall>decode os cfg st bd sid.
        decode token (jwt_secret cfg) = Inr c
        \<longrightarrow> free_or_ours (tc_tunnel_id c) (map_option h_tunnel_id (http_routes st (tc_subdomain c)))
        \<longrightarrow> free_or_ours (tc_tunnel_id c) (map_option h_tunnel_id (https_routes st (tc_subdomain c)))
        \<longrightarrow> ports_free os bd rows
        \<longrightarrow> (\<exists>sess bd'. admit decode os cfg st bd sid (hello_for token views) = Inr (sess, bd') \<and> s_claims sess = c
               \<and> map p_route_id (s_planned sess) = map rr_route_id views))"

lemma tunnel_admitted:
  assumes ready: "store_ready db" and rows: "tunnel_rows tid rows db"
    and c: "c = tunnel_claims now uid tid sub (fst (expand_routes rows sub host)) custom"
  shows "token_admits c token (snd (expand_routes rows sub host)) (stored_rows tid db)"
  unfolding token_admits_def
proof (intro allI impI)
  fix decode :: jwt_decoder and os :: os_bind and cfg :: Config and st :: CoreState and bd :: sockets and sid
  assume d: "decode token (jwt_secret cfg) = Inr c"
    and "free_or_ours (tc_tunnel_id c) (map_option h_tunnel_id (http_routes st (tc_subdomain c)))"
      "free_or_ours (tc_tunnel_id c) (map_option h_tunnel_id (https_routes st (tc_subdomain c)))"
    and free: "ports_free os bd (stored_rows tid db)"
  then have go: "may_proceed st c" by (simp add: may_proceed_def)
  have "ports_free os bd rows"
    using free rows by (auto elim!: ports_free_subset simp: stored_rows_def tunnel_rows_def)
  then show "\<exists>sess bd'. admit decode os cfg st bd sid (hello_for token (snd (expand_routes rows sub host))) = Inr (sess, bd')
    \<and> s_claims sess = c \<and> map p_route_id (s_planned sess) = map rr_route_id (snd (expand_routes rows sub host))"
    by (intro admitted [of rows c now uid tid sub host custom] tunnel_rows_facts(1,2) [OF ready rows] c d go
        tunnel_rows_facts(3) [OF ready rows])
qed

lemma request_tunnel_Inr:
  assumes "request_tunnel env locked draws user req s = (Inr ans, s')"
  obtains node rt where "request_checks env user req (app_db s) = Inr node"
    "reserve_tunnel (e_lower env) locked draws (e_now env) (au_user_id user) (n_node_id node)
       (n_public_host node) (to_requests (rt_req_routes req)) (trimmed (rt_req_subdomain req))
       (user_max_tunnels (au_user_id user) (app_db s)) (\<not> rt_req_create_new req) (rt_req_device_id req) (app_db s)
       = Inr (rt, app_db s')"
    "ans = request_answer env user node rt (app_db s')" "s' = s\<lparr>app_db := app_db s'\<rparr>"
  using assms by (auto simp: request_tunnel_def Let_def split: sum.splits prod.splits)

lemma request_checks_policy:
  "request_checks env user req db = Inr node \<Longrightarrow> check_route_policy (rt_req_routes req) = Inr ()
     \<and> rt_req_routes req \<noteq> [] \<and> device_check user (rt_req_device_id req) (rt_req_routes req) db = Inr ()
     \<and> \<not> is_user_banned (au_user_id user) db"
  by (auto simp: request_checks_def and_then_Inr_iff split: if_splits sum.splits)

lemma request_answer_fields:
  "tr_tunnel_id (request_answer env user node rt db) = rt_tunnel_id rt"
  "tr_subdomain (request_answer env user node rt db) = rt_subdomain rt"
  "tr_custom_domain (request_answer env user node rt db) = rt_custom_domain rt"
  "tr_routes (request_answer env user node rt db) = snd (expand_routes (rt_routes rt) (rt_subdomain rt) (rt_public_host rt))"
  "tr_tunnel_token (request_answer env user node rt db) =
     issue_tunnel_token env (au_user_id user) (rt_tunnel_id rt) (rt_subdomain rt)
       (fst (expand_routes (rt_routes rt) (rt_subdomain rt) (rt_public_host rt))) (rt_custom_domain rt)"
  by (simp_all add: request_answer_def Let_def split: prod.splits)

text \<open>
  C6: the control plane and the node agree. When a request for a tunnel succeeds, the token of the
  answer encodes claims for the answer's tunnel, owner, subdomain and custom domain, and the agent that
  presents it and binds the answer's routes is admitted by every node that decodes it to these claims,
  if the tunnel's public ports are free there and no other tunnel answers for its subdomain; one route
  is planned per route the agent was told, in order. The store stays ready for the next request.
\<close>

theorem reserved_agent_is_admitted:
  assumes "store_ready (app_db s)" and "request_tunnel env locked draws user req s = (Inr ans, s')"
  shows "store_ready (app_db s')
    \<and> (\<exists>c. tr_tunnel_token ans = e_encode_tunnel env (bc_jwt_secret (e_cfg env)) c
         \<and> tc_tunnel_id c = tr_tunnel_id ans \<and> tc_sub c = au_user_id user \<and> tc_subdomain c = tr_subdomain ans
         \<and> tc_custom_domain c = tr_custom_domain ans
         \<and> token_admits c (tr_tunnel_token ans) (tr_routes ans) (stored_rows (tr_tunnel_id ans) (app_db s')))"
proof -
  obtain node rt where chk: "request_checks env user req (app_db s) = Inr node"
    and res: "reserve_tunnel (e_lower env) locked draws (e_now env) (au_user_id user) (n_node_id node)
       (n_public_host node) (to_requests (rt_req_routes req)) (trimmed (rt_req_subdomain req))
       (user_max_tunnels (au_user_id user) (app_db s)) (\<not> rt_req_create_new req) (rt_req_device_id req) (app_db s)
       = Inr (rt, app_db s')"
    and ans: "ans = request_answer env user node rt (app_db s')"
    using request_tunnel_Inr [OF assms(2)] by metis
  have "length (to_requests (rt_req_routes req)) \<le> 9999"
    using policy_length request_checks_policy [OF chk] by (fastforce simp: to_requests_def)
  note R = reserved_ready [OF assms(1) this res]
  obtain rows where rows: "tunnel_rows (rt_tunnel_id rt) rows (app_db s')"
    and strip: "map (\<lambda>r. r\<lparr>r_id := 0\<rparr>) rows = map (\<lambda>r. r\<lparr>r_id := 0\<rparr>) (rt_routes rt)"
    using R(2) by blast
  have same: "expand_routes (rt_routes rt) sub host = expand_routes rows sub host" for sub host
    using expand_routes_strip [of rows] expand_routes_strip [of "rt_routes rt"] strip by metis
  let ?c = "tunnel_claims (e_now env) (au_user_id user) (rt_tunnel_id rt) (rt_subdomain rt)
      (fst (expand_routes rows (rt_subdomain rt) (rt_public_host rt))) (rt_custom_domain rt)"
  have "token_admits ?c (tr_tunnel_token ans) (tr_routes ans) (stored_rows (tr_tunnel_id ans) (app_db s'))"
    using tunnel_admitted [OF R(1) rows refl] by (simp add: ans request_answer_fields same)
  moreover have "tr_tunnel_token ans = e_encode_tunnel env (bc_jwt_secret (e_cfg env)) ?c"
    by (simp add: ans request_answer_fields issue_tunnel_token_def same)
  ultimately show ?thesis
    using R(1) by (intro conjI exI [of _ ?c]) (simp_all add: ans request_answer_fields tunnel_claims_def)
qed

section \<open>An example application\<close>

definition demo_env :: Env where
  "demo_env = \<lparr> e_cfg = backend_from_env (\<lambda>_. None), e_now = 5, e_lower = id, e_upper = id,
     e_fault = (\<lambda>_. ''fault''), e_redis_error = (\<lambda>_. ''redis''), e_hash = (\<lambda>p. ''h'' @ p), e_verify_hash = (\<lambda>p h. h = ''h'' @ p),
     e_parse_ip = (\<lambda>_. None), e_show_ip = (\<lambda>_. []), e_country = (\<lambda>_. None),
     e_encode_session = (\<lambda>_ c. sc_email c), e_encode_tunnel = (\<lambda>_ c. tc_subdomain c), e_encode_device = (\<lambda>_ c. dc_nonce c),
     e_decode_session = (\<lambda>_ _. Inl ''bad''),
     e_decode_device = (\<lambda>_ t. Inr \<lparr> dc_sub = 7, dc_device_id = 9, dc_nonce = t, dc_purpose = ''device'', dc_exp = 0 \<rparr>) \<rparr>"

definition demo_owner :: AuthUser where
  "demo_owner = \<lparr> au_user_id = 7, au_email = ''a@b.c'', au_role = ''user'' \<rparr>"

definition demo_app :: "DB \<Rightarrow> App" where
  "demo_app db = \<lparr> app_db = db, app_redis = (\<lambda>_. None), app_signals = [] \<rparr>"

definition demo_request :: RequestTunnelReq where
  "demo_request = \<lparr> rt_req_routes = [\<lparr> rq_mode = Tcp, rq_local_port = 22, rq_label = Some '' ssh '' \<rparr>,
       \<lparr> rq_mode = Http, rq_local_port = 8080, rq_label = None \<rparr>],
     rt_req_subdomain = None, rt_req_node_id = Some ''a'', rt_req_device_id = None, rt_req_create_new = False \<rparr>"

lemma demo_store_ready: "store_ready demo_db"
  using demo_db_ok by (simp add: store_ready_def) (simp add: demo_db_def pool_keys_def demo_pool_row_def)

lemma demo_request_checks: "request_checks demo_env demo_owner demo_request demo_db = Inr (demo_node ''a'' 0 (Some 10))"
  by (simp add: request_checks_def demo_owner_def demo_request_def is_user_banned_def user_by_id_def fetch_optional_def
      demo_db_def demo_user_def check_route_policy_def count_mode_def no_routes_def choose_node_def get_node_def
      demo_node_def device_check_def)

lemma demo_request_tunnel:
  "request_tunnel demo_env [] [(0, 0, 27, 1, 28)] demo_owner demo_request (demo_app demo_db)
     = (Inr (request_answer demo_env demo_owner (demo_node ''a'' 0 (Some 10)) demo_reserved demo_db1), demo_app demo_db1)"
proof -
  have r: "to_requests (rt_req_routes demo_request) = demo_requests"
    by (simp add: to_requests_def demo_request_def demo_requests_def)
  have m: "user_max_tunnels 7 demo_db = 10"
    by (simp add: user_max_tunnels_def user_by_id_def fetch_optional_def demo_db_def demo_user_def)
  have f: "e_lower demo_env = id" "e_now demo_env = 5" "au_user_id demo_owner = 7"
    "n_node_id (demo_node ''a'' 0 (Some 10)) = ''a''" "n_public_host (demo_node ''a'' 0 (Some 10)) = ''a.example''"
    "trimmed (rt_req_subdomain demo_request) = None" "rt_req_device_id demo_request = None"
    by (simp_all add: demo_env_def demo_owner_def demo_node_def demo_request_def)
  have a: "app_db (demo_app db) = db" "(demo_app db)\<lparr>app_db := db'\<rparr> = demo_app db'" for db db'
    by (simp_all add: demo_app_def)
  show ?thesis
    unfolding request_tunnel_def Let_def a demo_request_checks r f m sum.case demo_reserve prod.case ..
qed

lemma admitted_by_empty_node:
  assumes "token_admits c token views rows"
  shows "\<exists>sess bd'. admit (\<lambda>_ _. Inr c) (\<lambda>_ _. None) cfg empty_state Map.empty sid (hello_for token views) = Inr (sess, bd')
    \<and> s_claims sess = c \<and> map p_route_id (s_planned sess) = map rr_route_id views"
  by (rule assms [unfolded token_admits_def, rule_format])
    (simp_all add: empty_state_def free_or_ours_def ports_free_def)

theorem reserved_agent_is_admitted_witness:
  "\<exists>ans s' c sess bd'. request_tunnel demo_env [] [(0, 0, 27, 1, 28)] demo_owner demo_request (demo_app demo_db) = (Inr ans, s')
     \<and> tr_subdomain ans = ''duck-a1b2''
     \<and> admit (\<lambda>_ _. Inr c) (\<lambda>_ _. None) demo_cfg empty_state Map.empty 1 (hello_for (tr_tunnel_token ans) (tr_routes ans))
         = Inr (sess, bd')
     \<and> s_claims sess = c \<and> map p_route_id (s_planned sess) = [1, 2]"
proof -
  let ?ans = "request_answer demo_env demo_owner (demo_node ''a'' 0 (Some 10)) demo_reserved demo_db1"
  have ready: "store_ready (app_db (demo_app demo_db))" using demo_store_ready by (simp add: demo_app_def)
  have ids: "map rr_route_id (tr_routes ?ans) = [1, 2]" "tr_subdomain ?ans = ''duck-a1b2''"
    by (simp_all add: request_answer_fields expand_routes_ids wire_ids_def parse_kind_def demo_reserved_def)
  obtain c where "token_admits c (tr_tunnel_token ?ans) (tr_routes ?ans) (stored_rows (tr_tunnel_id ?ans) (app_db (demo_app demo_db1)))"
    using reserved_agent_is_admitted [OF ready demo_request_tunnel] by blast
  from admitted_by_empty_node [OF this] show ?thesis using demo_request_tunnel ids by metis
qed

section \<open>The configuration of a device\<close>

definition served :: "DB \<Rightarrow> Tunnel \<Rightarrow> bool" where
  "served db t \<longleftrightarrow>
     t_status t \<noteq> ''stopped'' \<and> Option.bind (t_node_id t) (\<lambda>nid. get_node nid db) \<noteq> None
     \<and> routes_for_tunnel db (t_id t) \<noteq> []"

lemma config_entries_map:
  "config_entries env owner db ts =
     map (\<lambda>t. build_reservation env owner t (routes_for_tunnel db (t_id t))
               (the (Option.bind (t_node_id t) (\<lambda>nid. get_node nid db))) (tunnel_custom_domain (t_id t) db))
       (filter (served db) ts)"
  by (induction ts) (auto simp: served_def Let_def split: option.splits)

lemma build_reservation_fields:
  "tr_tunnel_id (build_reservation env owner t rs node custom) = t_id t"
  "tr_subdomain (build_reservation env owner t rs node custom) = t_subdomain t"
  "tr_custom_domain (build_reservation env owner t rs node custom) = custom"
  "tr_routes (build_reservation env owner t rs node custom) = snd (expand_routes rs (t_subdomain t) (t_public_host t))"
  "tr_tunnel_token (build_reservation env owner t rs node custom) =
     issue_tunnel_token env owner (t_id t) (t_subdomain t) (fst (expand_routes rs (t_subdomain t) (t_public_host t))) custom"
  by (simp_all add: build_reservation_def Let_def split: prod.splits)

lemma touch_ready: "store_ready db \<Longrightarrow> store_ready (touch_device_online now did db)"
  by (simp add: store_ready_def touch_device_online_def pool_keys_def db_ok_def ids_ok_def ports_ok_def held_def)

lemma touch_fields [simp]:
  "tunnels_t (touch_device_online now did db) = tunnels_t db" "routes_t (touch_device_online now did db) = routes_t db"
  by (simp_all add: touch_device_online_def)

text \<open>
  What a device pulls is exactly its services that are not paused, live on a known node and have
  routes, in id order; each entry names its tunnel and subdomain and carries a token whose claims are
  for that tunnel and the device's owner and get the agent admitted (as above). A poll only records
  the heartbeat: no tunnel or route changes.
\<close>

theorem device_config_exact:
  assumes "store_ready (app_db s)" and "device_config env dev s = (r, s')"
  shows "tunnels_t (app_db s') = tunnels_t (app_db s) \<and> routes_t (app_db s') = routes_t (app_db s)
    \<and> (\<exists>es. r = Inr es
        \<and> map tr_tunnel_id es = map t_id (filter (served (app_db s')) (device_service_tunnels (da_device_id dev) (app_db s')))
        \<and> (\<forall>e \<in> set es. \<exists>t \<in> set (tunnels_t (app_db s)). \<exists>c.
             t_id t = tr_tunnel_id e \<and> t_device_id t = Some (da_device_id dev) \<and> t_status t \<noteq> ''stopped''
             \<and> t_subdomain t = tr_subdomain e
             \<and> tr_tunnel_token e = e_encode_tunnel env (bc_jwt_secret (e_cfg env)) c
             \<and> tc_tunnel_id c = t_id t \<and> tc_sub c = da_owner_id dev \<and> tc_subdomain c = t_subdomain t
             \<and> token_admits c (tr_tunnel_token e) (tr_routes e) (stored_rows (t_id t) (app_db s))))"
proof -
  let ?db = "touch_device_online (e_now env) (da_device_id dev) (app_db s)"
  let ?ts = "device_service_tunnels (da_device_id dev) ?db"
  have r: "r = Inr (config_entries env (da_owner_id dev) ?db ?ts)" and s': "app_db s' = ?db"
    using assms(2) by (auto simp: device_config_def Let_def)
  have ready: "store_ready ?db" by (rule touch_ready [OF assms(1)])
  then have ok: "db_ok ?db" by (simp add: store_ready_def)
  have "\<exists>t \<in> set (tunnels_t (app_db s)). \<exists>c.
             t_id t = tr_tunnel_id e \<and> t_device_id t = Some (da_device_id dev) \<and> t_status t \<noteq> ''stopped''
             \<and> t_subdomain t = tr_subdomain e
             \<and> tr_tunnel_token e = e_encode_tunnel env (bc_jwt_secret (e_cfg env)) c
             \<and> tc_tunnel_id c = t_id t \<and> tc_sub c = da_owner_id dev \<and> tc_subdomain c = t_subdomain t
             \<and> token_admits c (tr_tunnel_token e) (tr_routes e) (stored_rows (t_id t) (app_db s))"
    if member: "e \<in> set (config_entries env (da_owner_id dev) ?db ?ts)" for e
  proof -
    obtain t where t: "t \<in> set ?ts" "served ?db t"
      and e: "e = build_reservation env (da_owner_id dev) t (routes_for_tunnel ?db (t_id t))
               (the (Option.bind (t_node_id t) (\<lambda>nid. get_node nid ?db))) (tunnel_custom_domain (t_id t) ?db)"
      using member by (auto simp: config_entries_map)
    let ?c = "tunnel_claims (e_now env) (da_owner_id dev) (t_id t) (t_subdomain t)
      (fst (expand_routes (routes_for_tunnel ?db (t_id t)) (t_subdomain t) (t_public_host t))) (tunnel_custom_domain (t_id t) ?db)"
    have "token_admits ?c (tr_tunnel_token e) (tr_routes e) (stored_rows (t_id t) ?db)"
      using tunnel_admitted [OF ready tunnel_rows_for [OF ok] refl] by (simp add: e build_reservation_fields)
    then have "token_admits ?c (tr_tunnel_token e) (tr_routes e) (stored_rows (t_id t) (app_db s))"
      by (simp add: stored_rows_def)
    then show ?thesis using t
      by (intro bexI [of _ t] exI [of _ ?c])
        (simp_all add: e build_reservation_fields issue_tunnel_token_def tunnel_claims_def served_def device_service_tunnels_def)
  qed
  then show ?thesis by (simp add: r s' config_entries_map build_reservation_fields comp_def)
qed

definition demo_device_auth :: DeviceAuth where
  "demo_device_auth = \<lparr> da_owner_id = 7, da_device_id = 9 \<rparr>"

theorem device_config_exact_witness:
  "\<exists>es s'. device_config demo_env demo_device_auth (demo_app device_db) = (Inr es, s')
     \<and> map tr_tunnel_id es = [1] \<and> map t_subdomain (tunnels_t (app_db s')) = [''duck-a1b2'']"
proof -
  let ?db = "touch_device_online 5 9 device_db"
  have ready: "store_ready (app_db (demo_app device_db))"
    using device_db_ok by (simp add: store_ready_def demo_app_def)
      (simp add: device_db_def demo_db1_def demo_db_def demo_reserved_def demo_tunnel_def servable_def parse_kind_def
        pool_keys_def demo_pool_row_def)
  obtain r s' where c: "device_config demo_env demo_device_auth (demo_app device_db) = (r, s')" by fastforce
  then have s': "app_db s' = ?db"
    by (auto simp: device_config_def Let_def demo_app_def demo_device_auth_def demo_env_def)
  have "map t_id (filter (served ?db) (device_service_tunnels 9 ?db)) = [1]"
    "map t_subdomain (tunnels_t device_db) = [''duck-a1b2'']" by code_simp+
  then show ?thesis
    using device_config_exact [OF ready c] c by (auto simp: demo_device_auth_def s' demo_app_def)
qed

section \<open>Route policy\<close>

text \<open>
  The route policy accepts exactly the route lists in which no two dedicated routes share a local
  port and there are at most one http, one https, two tcp and two udp routes, a \<^verbatim>\<open>both\<close> route counting
  as one of each; so at most six routes, and empty lists pass.
\<close>

theorem route_policy_exact:
  "(check_route_policy rs = Inr () \<longleftrightarrow>
      distinct (map rq_local_port (filter (\<lambda>r. \<not> is_host_routed (rq_mode r)) rs))
      \<and> length (filter (\<lambda>r. rq_mode r = Http) rs) \<le> 1 \<and> length (filter (\<lambda>r. rq_mode r = Https) rs) \<le> 1
      \<and> length (filter (\<lambda>r. rq_mode r = Tcp) rs) + length (filter (\<lambda>r. rq_mode r = Both) rs) \<le> 2
      \<and> length (filter (\<lambda>r. rq_mode r = Udp) rs) + length (filter (\<lambda>r. rq_mode r = Both) rs) \<le> 2)
   \<and> (6 < length rs \<longrightarrow> check_route_policy rs \<noteq> Inr ())"
  using check_route_policy_iff [of rs] policy_length [of rs]
  by (auto simp: count_of_def dedicated_ports_def)

theorem route_policy_exact_witness: "check_route_policy (replicate 7 \<lparr> rq_mode = Tcp, rq_local_port = 1, rq_label = None \<rparr>) \<noteq> Inr ()"
  using route_policy_exact [of "replicate 7 \<lparr> rq_mode = Tcp, rq_local_port = 1, rq_label = None \<rparr>"] by simp

end
