(* ===== verification/EditProps.thy ===== *)
theory EditProps
  imports ApiProps
begin

text \<open>
  Who may edit a tunnel, and what an edit can touch: every statement behind an edit keeps the rows of
  other tunnels, the ports other tunnels hold, and all users, devices and nodes.
\<close>

section \<open>What an edit may touch\<close>

named_theorems confined \<open>statements that touch one tunnel only\<close>

definition only_touches :: "int \<Rightarrow> DB \<Rightarrow> DB \<Rightarrow> bool" where
  "only_touches tid db db' \<longleftrightarrow>
     filter (\<lambda>t. t_id t \<noteq> tid) (tunnels_t db') = filter (\<lambda>t. t_id t \<noteq> tid) (tunnels_t db)
     \<and> filter (\<lambda>r. r_tunnel_id r \<noteq> tid) (routes_t db') = filter (\<lambda>r. r_tunnel_id r \<noteq> tid) (routes_t db)
     \<and> filter (\<lambda>b. fst b \<noteq> tid) (tunnel_blocks_t db') = filter (\<lambda>b. fst b \<noteq> tid) (tunnel_blocks_t db)
     \<and> filter (\<lambda>b. bw_tunnel_id b \<noteq> tid) (bandwidth_t db') = filter (\<lambda>b. bw_tunnel_id b \<noteq> tid) (bandwidth_t db)
     \<and> filter (\<lambda>l. l_tunnel_id l \<noteq> tid) (logs_t db') = filter (\<lambda>l. l_tunnel_id l \<noteq> tid) (logs_t db)
     \<and> users_t db' = users_t db \<and> devices_t db' = devices_t db \<and> nodes_t db' = nodes_t db
     \<and> region_blocks_t db' = region_blocks_t db \<and> reserved_t db' = reserved_t db
     \<and> pool_keys db' = pool_keys db
     \<and> (\<forall>row \<in> set (pool_t db). pp_tunnel_id row \<noteq> None \<and> pp_tunnel_id row \<noteq> Some tid \<longrightarrow> row \<in> set (pool_t db'))"

lemma only_touches_refl [simp]: "only_touches tid db db"
  by (simp add: only_touches_def)

lemma only_touches_trans [trans]: "only_touches tid a b \<Longrightarrow> only_touches tid b c \<Longrightarrow> only_touches tid a c"
  unfolding only_touches_def by simp

lemma filter_update_where_not: "(\<And>x. P x \<Longrightarrow> \<not> Q x) \<Longrightarrow> (\<And>x. P x \<Longrightarrow> \<not> Q (f x)) \<Longrightarrow> filter Q (update_where P f xs) = filter Q xs"
  by (induction xs) (auto simp: update_where_def)

lemma filter_delete_where_not: "(\<And>x. P x \<Longrightarrow> \<not> Q x) \<Longrightarrow> filter Q (delete_where P xs) = filter Q xs"
  by (induction xs) (auto simp: delete_where_def)

lemma only_touches_pool:
  assumes "\<And>row. P row \<Longrightarrow> pp_tunnel_id row = None \<or> pp_tunnel_id row = Some tid"
    and "\<And>row. pp_node_id (f row) = pp_node_id row \<and> pp_port (f row) = pp_port row"
  shows "only_touches tid db (db\<lparr>pool_t := update_where P f (pool_t db)\<rparr>)"
proof -
  have "pool_keys (db\<lparr>pool_t := update_where P f (pool_t db)\<rparr>) = pool_keys db"
    using assms(2) by (simp add: pool_keys_def map_update_where)
  moreover have "row \<in> set (update_where P f (pool_t db))"
    if "row \<in> set (pool_t db)" "pp_tunnel_id row \<noteq> None" "pp_tunnel_id row \<noteq> Some tid" for row
    by (rule update_where_other [OF that(1)]) (use that(2,3) assms(1) [of row] in auto)
  ultimately show ?thesis by (simp add: only_touches_def)
qed

lemma touch_tunnel [confined]:
  "(\<And>t. t_id (f t) = t_id t) \<Longrightarrow> (\<And>t. P t \<Longrightarrow> t_id t = tid) \<Longrightarrow>
     only_touches tid db (db\<lparr>tunnels_t := update_where P f (tunnels_t db)\<rparr>)"
  by (simp add: only_touches_def pool_keys_def filter_update_where_not)

lemma touch_route [confined]:
  "(\<And>r. r_tunnel_id (f r) = r_tunnel_id r) \<Longrightarrow> (\<And>r. P r \<Longrightarrow> r_tunnel_id r = tid) \<Longrightarrow>
     only_touches tid db (db\<lparr>routes_t := update_where P f (routes_t db)\<rparr>)"
  by (simp add: only_touches_def pool_keys_def filter_update_where_not)

lemma drop_route [confined]:
  "(\<And>r. P r \<Longrightarrow> r_tunnel_id r = tid) \<Longrightarrow> only_touches tid db (db\<lparr>routes_t := delete_where P (routes_t db)\<rparr>)"
  by (simp add: only_touches_def pool_keys_def filter_delete_where_not)

lemma touch_free [confined]:
  "only_touches tid db (free_tunnel_ports tid db)" "only_touches tid db (free_route_port tid rid db)"
  unfolding free_tunnel_ports_def free_route_port_def by (rule only_touches_pool; simp)+

lemma touch_claim [confined]:
  assumes d: "distinct (pool_keys db)" and c: "claim_port locked node tid rid db = (p, db')"
  shows "only_touches tid db db'"
proof (cases p)
  case None
  then show ?thesis using c by (simp add: claim_port_None)
next
  case (Some q)
  have c': "claim_port locked node tid rid db = (Some q, db')" using c Some by simp
  obtain row0 where r0: "row0 \<in> set (pool_t db)" "free_row locked node row0" "pp_port row0 = q"
    using claim_port_Some(1) [OF c'] by blast
  have "pp_tunnel_id row = None" if "row \<in> set (pool_t db)" "pp_node_id row = node \<and> pp_port row = q" for row
  proof -
    have inj: "inj_on (\<lambda>row. (pp_node_id row, pp_port row)) (set (pool_t db))" using d by (simp add: pool_keys_def distinct_map)
    have "row = row0" using that r0 by (intro inj_onD [OF inj]) (auto simp: free_row_def)
    then show ?thesis using r0(2) by (simp add: free_row_def)
  qed
  then have "row \<in> set (update_where (\<lambda>row. pp_node_id row = node \<and> pp_port row = q)
      (\<lambda>row. row\<lparr>pp_tunnel_id := Some tid, pp_route_id := Some rid\<rparr>) (pool_t db))"
    if "row \<in> set (pool_t db)" "pp_tunnel_id row \<noteq> None" for row
    using that by (intro update_where_other) auto
  then show ?thesis using pool_keys_claim [OF c]
    by (simp add: only_touches_def claim_port_Some(2) [OF c'])
qed

lemma only_touches_keys: "only_touches tid db db' \<Longrightarrow> distinct (pool_keys db) \<Longrightarrow> distinct (pool_keys db')"
  by (simp add: only_touches_def)

lemma touch_insert_route [confined]:
  "insert_route tid rid kind lp pp label db = Inr (u, db') \<Longrightarrow> only_touches tid db db'"
  by (auto simp: insert_route_def only_touches_def pool_keys_def split: if_splits)

lemma touch_new_route [confined]:
  assumes "distinct (pool_keys db)" and n: "new_route locked node tid rid req db = Inr (pp, db')"
  shows "only_touches tid db db'"
proof -
  obtain m lp label where req: "req = (m, lp, label)" by (cases req)
  then obtain db1 u where 1: "port_for locked node tid rid m db = Inr (pp, db1)"
    and 2: "insert_route tid rid (as_str m) (int (unat lp)) pp (clean_label label) db1 = Inr (u, db')"
    using n by (auto simp: new_route_def and_then_Inr_iff)
  have "only_touches tid db db1"
    using 1 touch_claim [OF assms(1)] by (auto simp: port_for_def split: if_splits prod.splits option.splits)
  then show ?thesis using touch_insert_route [OF 2] by (rule only_touches_trans)
qed

lemma touch_drop_unwanted [confined]: "only_touches tid db (drop_unwanted tid requested rs db)"
proof (induction rs arbitrary: db)
  case (Cons r rs)
  have "only_touches tid db (free_route_port tid (r_route_id r) db
      \<lparr>routes_t := delete_where (\<lambda>x. r_tunnel_id x = tid \<and> r_route_id x = r_route_id r) (routes_t (free_route_port tid (r_route_id r) db))\<rparr>)"
    by (rule only_touches_trans [OF touch_free(2) drop_route]) simp
  then show ?case using Cons.IH by (auto simp: Let_def intro: only_touches_trans)
qed simp

lemma touch_add_missing [confined]:
  "distinct (pool_keys db) \<Longrightarrow> add_missing locked node tid existing nid reqs db = Inr db' \<Longrightarrow> only_touches tid db db'"
proof (induction reqs arbitrary: nid db)
  case (Cons req reqs)
  show ?case
  proof (cases "already existing req")
    case True
    then show ?thesis using Cons by simp
  next
    case False
    then obtain pp db1 where 1: "new_route locked node tid (to_i16 (nid + 1)) req db = Inr (pp, db1)"
      and 2: "add_missing locked node tid existing (to_i16 (nid + 1)) reqs db1 = Inr db'"
      using Cons.prems(2) by (auto simp: Let_def and_then_Inr_iff)
    have t: "only_touches tid db db1" by (rule touch_new_route [OF Cons.prems(1) 1])
    show ?thesis by (rule only_touches_trans [OF t Cons.IH [OF only_touches_keys [OF t Cons.prems(1)] 2]])
  qed
qed simp

lemma touch_set_service_routes [confined]:
  assumes "distinct (pool_keys db)" and s: "set_service_routes locked tid node requested db = Inr (out, db')"
  shows "only_touches tid db db'"
proof -
  let ?existing = "routes_for_tunnel db tid"
  let ?db1 = "drop_unwanted tid requested ?existing db"
  obtain db2 where 2: "add_missing locked node tid ?existing (coalesce (max_route_id None ?existing) 0) requested ?db1 = Inr db2"
    and 3: "set_route_sig tid (route_signature (pairs requested)) db2 = Inr db'"
    using s by (auto simp: set_service_routes_def Let_def and_then_Inr_iff split: sum.splits)
  have t1: "only_touches tid db ?db1" by (rule touch_drop_unwanted)
  have "only_touches tid ?db1 db2" by (rule touch_add_missing [OF only_touches_keys [OF t1 assms(1)] 2])
  also have "only_touches tid db2 db'"
    using 3 by (auto simp: set_route_sig_def intro!: touch_tunnel split: if_splits)
  finally show ?thesis using t1 only_touches_trans by blast
qed

lemma touch_migrate_routes [confined]:
  "distinct (pool_keys db) \<Longrightarrow> migrate_routes locked target tid rs db = Inr db' \<Longrightarrow> only_touches tid db db'"
proof (induction rs arbitrary: db)
  case (Cons r rs)
  show ?case
  proof (cases "r_kind r \<noteq> ''tcp'' \<and> r_kind r \<noteq> ''udp''")
    case True
    then show ?thesis using Cons by simp
  next
    case False
    then obtain p db1 where 1: "claim_port locked target tid (r_route_id r) db = (Some p, db1)"
      and 2: "migrate_routes locked target tid rs
        (db1\<lparr>routes_t := update_where (\<lambda>x. r_tunnel_id x = tid \<and> r_route_id x = r_route_id r)
                       (\<lambda>x. x\<lparr>r_public_port := Some p\<rparr>) (routes_t db1)\<rparr>) = Inr db'"
      using Cons.prems(2) by (auto split: if_splits prod.splits option.splits)
    have t: "only_touches tid db (db1\<lparr>routes_t := update_where (\<lambda>x. r_tunnel_id x = tid \<and> r_route_id x = r_route_id r)
                       (\<lambda>x. x\<lparr>r_public_port := Some p\<rparr>) (routes_t db1)\<rparr>)"
      by (rule only_touches_trans [OF touch_claim [OF Cons.prems(1) 1] touch_route]) simp_all
    show ?thesis by (rule only_touches_trans [OF t Cons.IH [OF only_touches_keys [OF t Cons.prems(1)] 2]])
  qed
qed simp

lemma touch_migrate [confined]:
  assumes "distinct (pool_keys db)" and m: "migrate_tunnel locked tid target host db = Inr db'"
  shows "only_touches tid db db'"
proof -
  obtain db1 where 1: "migrate_routes locked target tid (routes_for_tunnel db tid) (free_tunnel_ports tid db) = Inr db1"
    and db': "db' = move_tunnel tid target host db1"
    using m by (auto simp: migrate_tunnel_def and_then_Inr_iff)
  have "only_touches tid (free_tunnel_ports tid db) db1" by (rule touch_migrate_routes [OF _ 1]) (simp add: assms(1))
  also have "only_touches tid db1 db'" unfolding db' move_tunnel_def by (rule touch_tunnel) simp_all
  finally show ?thesis by (rule only_touches_trans [OF touch_free(1)])
qed

lemma touch_cascade:
  assumes "\<And>i. D i \<Longrightarrow> i = tid"
  shows "only_touches tid db (cascade_tunnels D db)"
proof -
  let ?P = "\<lambda>row. case pp_tunnel_id row of Some t \<Rightarrow> D t | None \<Rightarrow> False"
  have "only_touches tid db (db\<lparr>pool_t := update_where ?P (\<lambda>row. row\<lparr>pp_tunnel_id := None\<rparr>) (pool_t db)\<rparr>)"
    by (rule only_touches_pool) (use assms in \<open>auto split: option.splits\<close>)
  then show ?thesis using assms
    by (auto simp: only_touches_def cascade_tunnels_def pool_keys_def intro!: filter_delete_where_not)
qed

lemma touch_delete [confined]: "delete_tunnel tid db = (n, db') \<Longrightarrow> only_touches tid db db'"
  unfolding delete_tunnel_def cascade_where_def
  by (auto intro!: only_touches_trans [OF touch_free(1) touch_cascade] simp: tunnels_where_def)

lemma touch_update [confined]: "(\<And>t. t_id (f t) = t_id t) \<Longrightarrow> only_touches tid db (update_tunnel tid f db)"
  unfolding update_tunnel_def by (rule touch_tunnel) simp_all

lemma touch_status [confined]:
  "stop_tunnel_keep now tid db = (n, db') \<Longrightarrow> only_touches tid db db'"
  "start_tunnel_keep tid db = (n, db') \<Longrightarrow> only_touches tid db db'"
  "only_touches tid db (rename_tunnel tid name db)"
  "set_custom_domain tid domain db = Inr (u, db') \<Longrightarrow> only_touches tid db db'"
  "set_tunnel_subdomain tid sub db = Inr (u, db') \<Longrightarrow> only_touches tid db db'"
  by (auto simp: stop_tunnel_keep_def start_tunnel_keep_def rename_tunnel_def set_custom_domain_def set_tunnel_subdomain_def
      intro!: touch_update touch_tunnel split: if_splits)

lemma touch_labels [confined]:
  "set_route_srv tid rid srv db = (n, db') \<Longrightarrow> only_touches tid db db'"
  "update_route_label tid rid label db = (n, db') \<Longrightarrow> only_touches tid db db'"
  by (auto simp: set_route_srv_def update_route_label_def this_route_def intro!: touch_route)

lemma touch_insert_blocks: "only_touches tid db (insert_tunnel_blocks tid codes db)"
proof (induction codes arbitrary: db)
  case (Cons c cs)
  have "only_touches tid db (if (tid, c) \<in> set (tunnel_blocks_t db) then db
        else db\<lparr>tunnel_blocks_t := tunnel_blocks_t db @ [(tid, c)]\<rparr>)"
    by (simp add: only_touches_def pool_keys_def)
  then show ?case using Cons.IH by (auto intro: only_touches_trans)
qed simp

lemma touch_blocks [confined]:
  assumes "set_tunnel_region_blocks tid codes db = Inr (u, db')"
  shows "only_touches tid db db'"
proof -
  have "only_touches tid db (db\<lparr>tunnel_blocks_t := delete_where (\<lambda>b. fst b = tid) (tunnel_blocks_t db)\<rparr>)"
    by (simp add: only_touches_def pool_keys_def delete_where_def)
  then show ?thesis using assms touch_insert_blocks only_touches_trans
    by (auto simp: set_tunnel_region_blocks_def split: if_splits)
qed

section \<open>The edits of the tunnel API\<close>

datatype TunnelEdit =
    SetBlocks "string list"
  | SetDomain string
  | ClearDomain
  | MoveTo string
  | Delete
  | Stop
  | Start
  | SetSrv int "string option"
  | EditNames EditTunnelReq
  | SetRoutes "RequestedRoute list"

fun run_edit :: "Env \<Rightarrow> locks \<Rightarrow> AuthUser \<Rightarrow> int \<Rightarrow> TunnelEdit \<Rightarrow> Json handler" where
  "run_edit env locked user tid (SetBlocks cs) = put_tunnel_region_blocks env user tid cs"
| "run_edit env locked user tid (SetDomain d) = put_custom_domain env user tid d"
| "run_edit env locked user tid ClearDomain = clear_custom_domain env user tid"
| "run_edit env locked user tid (MoveTo n) = post_migrate env locked user tid n"
| "run_edit env locked user tid Delete = delete_tunnel_handler env user tid"
| "run_edit env locked user tid Stop = stop_tunnel_handler env user tid"
| "run_edit env locked user tid Start = start_tunnel_handler user tid"
| "run_edit env locked user tid (SetSrv rid srv) = post_route_srv env user tid rid srv"
| "run_edit env locked user tid (EditNames r) = edit_tunnel env user tid r"
| "run_edit env locked user tid (SetRoutes rs) = put_service_routes env locked user tid rs"

text \<open>At most one stop signal, for the subdomain the tunnel had.\<close>

definition edit_effect :: "int \<Rightarrow> string \<Rightarrow> App \<Rightarrow> App \<Rightarrow> bool" where
  "edit_effect tid sub s s' \<longleftrightarrow>
     only_touches tid (app_db s) (app_db s') \<and> app_redis s' = app_redis s
     \<and> (app_signals s' = app_signals s
        \<or> (\<exists>base. app_signals s' = app_signals s @ [base @ ''/internal/tunnels/'' @ sub @ ''/stop'']))"

lemma signal_db [simp]: "app_db (signal_node_stop env sub node s) = app_db s"
  by (simp add: signal_node_stop_def)

lemma edit_effect_refl [simp]: "edit_effect tid sub s s"
  by (simp add: edit_effect_def)

lemma edit_effect_db: "only_touches tid (app_db s) db \<Longrightarrow> edit_effect tid sub s (s\<lparr>app_db := db\<rparr>)"
  by (simp add: edit_effect_def)

lemma edit_effect_then_signal:
  "only_touches tid (app_db s) db \<Longrightarrow> edit_effect tid sub s (signal_if_online env tid' sub node (s\<lparr>app_db := db\<rparr>))"
  "only_touches tid (app_db s) db \<Longrightarrow> edit_effect tid sub s (signal_node_stop env sub node (s\<lparr>app_db := db\<rparr>))"
  "only_touches tid (app_db s) db \<Longrightarrow> edit_effect tid sub s ((signal_node_stop env sub node s)\<lparr>app_db := db\<rparr>)"
  by (auto simp: edit_effect_def signal_if_online_def signal_node_stop_def)

lemmas edit_effect_intros = edit_effect_db edit_effect_then_signal

definition edit_outcome :: "AuthUser \<Rightarrow> int \<Rightarrow> App \<Rightarrow> http_error + 'a \<Rightarrow> App \<Rightarrow> bool" where
  "edit_outcome user tid s r s' \<longleftrightarrow>
     (case tunnel_by_id tid (app_db s) of
        None \<Rightarrow> r = Inl (404, ''no such tunnel'') \<and> s' = s
      | Some t \<Rightarrow>
          if may_manage user (t_owner_id t) then edit_effect tid (t_subdomain t) s s'
          else r = Inl (403, ''not your tunnel'') \<and> s' = s)"

lemma with_tunnel_outcome:
  assumes "with_tunnel user tid act s = (r, s')"
    and "\<And>sub node. act sub node s = (r, s') \<Longrightarrow> edit_effect tid sub s s'"
  shows "edit_outcome user tid s r s'"
  using assms
  by (auto simp: with_tunnel_def authorize_tunnel_owner_def tunnel_owner_subdomain_def edit_outcome_def
      split: option.splits if_splits)

lemma put_blocks_outcome:
  assumes "put_tunnel_region_blocks env user tid cs s = (r, s')"
  shows "edit_outcome user tid s r s'"
proof (cases "tunnel_by_id tid (app_db s)")
  case None
  then show ?thesis using assms
    by (simp add: put_tunnel_region_blocks_def authorize_tunnel_def tunnel_owner_def edit_outcome_def)
next
  case (Some t)
  then show ?thesis using assms
    by (auto simp: put_tunnel_region_blocks_def authorize_tunnel_def tunnel_owner_def edit_outcome_def Let_def
        intro!: edit_effect_db touch_blocks split: if_splits sum.splits)
qed

lemma domain_outcome:
  "put_custom_domain env user tid d s = (r, s') \<Longrightarrow> edit_outcome user tid s r s'"
  "clear_custom_domain env user tid s = (r, s') \<Longrightarrow> edit_outcome user tid s r s'"
  unfolding put_custom_domain_def clear_custom_domain_def
  by (erule with_tunnel_outcome;
      auto simp: Let_def intro!: edit_effect_intros touch_status(4) split: if_splits sum.splits)+

lemma delete_outcome: "delete_tunnel_handler env user tid s = (r, s') \<Longrightarrow> edit_outcome user tid s r s'"
  unfolding delete_tunnel_handler_def
  by (erule with_tunnel_outcome)
    (auto simp: Let_def intro!: edit_effect_intros touch_delete split: if_splits prod.splits)

lemma stop_outcome: "stop_tunnel_handler env user tid s = (r, s') \<Longrightarrow> edit_outcome user tid s r s'"
  unfolding stop_tunnel_handler_def
  by (erule with_tunnel_outcome)
    (auto simp: Let_def intro!: edit_effect_intros touch_status(1) split: if_splits prod.splits)

lemma start_outcome: "start_tunnel_handler user tid s = (r, s') \<Longrightarrow> edit_outcome user tid s r s'"
  unfolding start_tunnel_handler_def
  by (erule with_tunnel_outcome)
    (auto simp: Let_def intro!: edit_effect_intros touch_status(2) split: if_splits prod.splits)

lemma migrate_outcome: "post_migrate env locked user tid n s = (r, s') \<Longrightarrow> distinct (pool_keys (app_db s)) \<Longrightarrow> edit_outcome user tid s r s'"
  unfolding post_migrate_def
  by (erule with_tunnel_outcome)
    (auto simp: Let_def intro!: edit_effect_intros touch_migrate split: if_splits sum.splits option.splits)

lemma srv_outcome: "post_route_srv env user tid rid srv s = (r, s') \<Longrightarrow> edit_outcome user tid s r s'"
  unfolding post_route_srv_def
  by (erule with_tunnel_outcome) (auto simp: Let_def intro!: edit_effect_intros touch_labels(1) split: if_splits prod.splits)

lemma routes_outcome: "put_service_routes env locked user tid rs s = (r, s') \<Longrightarrow> distinct (pool_keys (app_db s)) \<Longrightarrow> edit_outcome user tid s r s'"
  unfolding put_service_routes_def
  by (erule with_tunnel_outcome)
    (auto simp: Let_def intro!: edit_effect_intros touch_set_service_routes split: option.splits sum.splits prod.splits)

text \<open>The first two parts of an edit of names change the database alone.\<close>

lemma edit_name_quiet:
  assumes "edit_name tid nm s = (r, s')"
  shows "\<exists>db. s' = s\<lparr>app_db := db\<rparr> \<and> only_touches tid (app_db s) db"
proof (cases "s' = s")
  case True
  then show ?thesis by (intro exI [of _ "app_db s"]) simp
next
  case False
  then obtain x where "s' = s\<lparr>app_db := rename_tunnel tid x (app_db s)\<rparr>"
    using assms by (auto simp: edit_name_def split: option.splits if_splits)
  then show ?thesis using touch_status(3) by blast
qed

lemma edit_labels_quiet:
  "edit_labels tid ls s = (r, s') \<Longrightarrow> \<exists>db. s' = s\<lparr>app_db := db\<rparr> \<and> only_touches tid (app_db s) db"
proof (induction tid ls s rule: edit_labels.induct)
  case (1 tid s)
  then show ?case by (auto intro!: exI [of _ "app_db s"])
next
  case (2 tid rid raw rest s)
  let ?s = "s\<lparr>app_db := snd (update_route_label tid rid (trimmed raw) (app_db s))\<rparr>"
  have t: "only_touches tid (app_db s) (app_db ?s)"
    using touch_labels(2) [of tid rid "trimmed raw" "app_db s"] by (simp add: prod_eq_iff)
  show ?case
  proof (cases "case trimmed raw of Some l \<Rightarrow> 40 < char_count l | None \<Rightarrow> False")
    case True
    then show ?thesis using 2(2) by (auto simp: Let_def intro!: exI [of _ "app_db s"])
  next
    case False
    then have "edit_labels tid rest ?s = (r, s')" using 2(2) by (simp add: Let_def)
    then obtain db where "s' = ?s\<lparr>app_db := db\<rparr>" "only_touches tid (app_db ?s) db"
      using 2(1) [OF refl False] by blast
    then show ?thesis using t only_touches_trans by (intro exI [of _ db]) auto
  qed
qed

lemma edit_subdomain_effect:
  "edit_subdomain env tid sub node want s = (r, s') \<Longrightarrow> edit_effect tid sub s s'"
  by (auto simp: edit_subdomain_def Let_def intro!: edit_effect_intros touch_status(5) split: option.splits if_splits sum.splits)

lemma edit_effect_after: "only_touches tid (app_db s) db \<Longrightarrow> edit_effect tid sub (s\<lparr>app_db := db\<rparr>) s' \<Longrightarrow> edit_effect tid sub s s'"
  unfolding edit_effect_def using only_touches_trans by fastforce

lemma names_outcome:
  assumes "edit_tunnel env user tid req s = (r, s')"
  shows "edit_outcome user tid s r s'"
  using assms unfolding edit_tunnel_def
proof (rule with_tunnel_outcome)
  fix sub node
  assume e: "(case edit_name tid (ed_name req) s of
         (Inl e, s) \<Rightarrow> (Inl e, s)
       | (Inr _, s) \<Rightarrow>
           (case edit_labels tid (ed_route_labels req) s of
              (Inl e, s) \<Rightarrow> (Inl e, s)
            | (Inr _, s) \<Rightarrow>
                (case edit_subdomain env tid sub node (ed_subdomain req) s of
                   (Inl e, s) \<Rightarrow> (Inl e, s)
                 | (Inr changed, s) \<Rightarrow>
                     (Inr (JObj [(''status'', JStr ''tunnel_updated''), (''tunnel_id'', JInt tid),
                                 (''subdomain_changed'', JBool changed)]), s)))) = (r, s')"
  obtain r1 s1 where 1: "edit_name tid (ed_name req) s = (r1, s1)" by fastforce
  obtain r2 s2 where 2: "edit_labels tid (ed_route_labels req) s1 = (r2, s2)" by fastforce
  obtain r3 s3 where 3: "edit_subdomain env tid sub node (ed_subdomain req) s2 = (r3, s3)" by fastforce
  obtain db1 where d1: "s1 = s\<lparr>app_db := db1\<rparr>" "only_touches tid (app_db s) db1" using edit_name_quiet [OF 1] by blast
  obtain db2 where d2: "s2 = s1\<lparr>app_db := db2\<rparr>" "only_touches tid (app_db s1) db2" using edit_labels_quiet [OF 2] by blast
  have t2: "only_touches tid (app_db s) db2" and s2: "s2 = s\<lparr>app_db := db2\<rparr>" using d1 d2 only_touches_trans by auto
  have "edit_effect tid sub s s1" "edit_effect tid sub s s2" "edit_effect tid sub s s3"
    using edit_effect_db [OF d1(2)] edit_effect_db [OF t2] edit_effect_after [OF t2] edit_subdomain_effect [OF 3] d1(1) s2 by auto
  then show "edit_effect tid sub s s'" using e by (auto simp: 1 2 3 split: sum.splits)
qed

section \<open>Properties\<close>

text \<open>
  C14: an edit of a tunnel (its block list, custom domain, region, life, SRV labels, names or routes) by
  anyone but the owner or an admin is refused and changes nothing, and so is an edit of a tunnel that
  does not exist. A permitted edit, whether it then succeeds or fails, keeps every row of every other
  tunnel, every port another tunnel holds, and all users, devices, nodes and device codes, and posts at
  most one stop signal, which is for the subdomain the tunnel had.
\<close>

theorem edits_confined:
  assumes "db_ok (app_db s)" and "run_edit env locked user tid e s = (r, s')"
  shows "(case tunnel_by_id tid (app_db s) of
      None \<Rightarrow> r = Inl (404, ''no such tunnel'') \<and> s' = s
    | Some t \<Rightarrow>
        if t_owner_id t \<noteq> au_user_id user \<and> au_role user \<noteq> ''admin''
        then r = Inl (403, ''not your tunnel'') \<and> s' = s
        else only_touches tid (app_db s) (app_db s') \<and> app_redis s' = app_redis s
          \<and> (app_signals s' = app_signals s
             \<or> (\<exists>base. app_signals s' = app_signals s @ [base @ ''/internal/tunnels/'' @ t_subdomain t @ ''/stop''])))"
proof -
  have d: "distinct (pool_keys (app_db s))" using assms(1) by (auto simp: db_ok_def intro: ids_ok_pool)
  have "edit_outcome user tid s r s'"
    using assms(2) d
    by (cases e) (auto intro: put_blocks_outcome domain_outcome migrate_outcome delete_outcome stop_outcome start_outcome
        srv_outcome names_outcome routes_outcome)
  then show ?thesis
    by (simp add: edit_outcome_def edit_effect_def may_manage_def split: option.splits if_splits)
qed

theorem edits_confined_witness:
  "(\<exists>s'. run_edit demo_env [] demo_owner 1 Stop (demo_app demo_db1) = (Inr (JObj [(''status'', JStr ''tunnel_stopped''), (''tunnel_id'', JInt 1)]), s')
      \<and> only_touches 1 demo_db1 (app_db s'))
   \<and> (\<exists>e. run_edit demo_env [] (demo_owner\<lparr>au_user_id := 8\<rparr>) 1 Delete (demo_app demo_db1) = (Inl e, demo_app demo_db1))"
proof -
  have ok: "db_ok (app_db (demo_app demo_db1))" using demo_db1_ok by (simp add: demo_app_def)
  have t: "tunnel_by_id 1 (app_db (demo_app demo_db1)) = Some demo_tunnel"
    by (simp add: tunnel_by_id_def fetch_optional_def demo_app_def demo_db1_def demo_tunnel_def)
  have o: "t_owner_id demo_tunnel = 7" "au_user_id demo_owner = 7" "au_role demo_owner = ''user''" "app_db (demo_app demo_db1) = demo_db1"
    by (simp_all add: demo_tunnel_def demo_owner_def demo_app_def)
  obtain r s' where 1: "run_edit demo_env [] demo_owner 1 Stop (demo_app demo_db1) = (r, s')" by fastforce
  have "count_where (\<lambda>t. t_id t = 1) (tunnels_t demo_db1) = 1"
    by (simp add: count_where_def demo_db1_def demo_tunnel_def)
  then have "r = Inr (JObj [(''status'', JStr ''tunnel_stopped''), (''tunnel_id'', JInt 1)])"
    using 1 t o by (auto simp: stop_tunnel_handler_def with_tunnel_def authorize_tunnel_owner_def tunnel_owner_subdomain_def
        may_manage_def stop_tunnel_keep_def Let_def)
  moreover have "only_touches 1 demo_db1 (app_db s')" using edits_confined [OF ok 1] t o by simp
  moreover obtain r2 s2 where 2: "run_edit demo_env [] (demo_owner\<lparr>au_user_id := 8\<rparr>) 1 Delete (demo_app demo_db1) = (r2, s2)"
    by fastforce
  moreover have "r2 = Inl (403, ''not your tunnel'') \<and> s2 = demo_app demo_db1" using edits_confined [OF ok 2] t o by simp
  ultimately show ?thesis using 1 by metis
qed

end
