(* ===== verification/Accounts.thy ===== *)
theory Accounts
  imports TunnelEdits
begin

text \<open>
  Accounts: registration, login with the country gate, and the device-authorization grant
  (\<^verbatim>\<open>handlers/auth.rs\<close>), and the caller's own profile and password (\<^verbatim>\<open>user.rs\<close>). Random draws and the
  salted password hash are parameters; a header map is a function from the lower-case name to the first
  value. Devices and the administrator's panel are in \<^verbatim>\<open>Management\<close>.
\<close>

type_synonym headers = "string \<Rightarrow> string option"

section \<open>Where a caller is\<close>

definition ip_header :: "Env \<Rightarrow> (string \<Rightarrow> string) \<Rightarrow> string option \<Rightarrow> IpAddr option" where
  "ip_header env pick value = Option.bind (Option.bind value header_str) (\<lambda>v. e_parse_ip env (trim (pick v)))"

definition client_ip :: "Env \<Rightarrow> headers \<Rightarrow> IpAddr option" where
  "client_ip env hs =
     (case ip_header env id (hs ''cf-connecting-ip'') of
        Some ip \<Rightarrow> Some ip
      | None \<Rightarrow> ip_header env (\<lambda>v. hd (split_on CHR '','' v)) (hs ''x-forwarded-for''))"

definition country_of_ip :: "Env \<Rightarrow> IpAddr \<Rightarrow> string option" where
  "country_of_ip env ip = map_option (e_upper env) (e_country env ip)"

definition country_from_headers :: "Env \<Rightarrow> headers \<Rightarrow> string option" where
  "country_from_headers env hs = Option.bind (client_ip env hs) (country_of_ip env)"

definition geo_gate :: "Env \<Rightarrow> headers \<Rightarrow> DB \<Rightarrow> http_error + unit" where
  "geo_gate env hs db =
     (case country_from_headers env hs of
        None \<Rightarrow> Inr ()
      | Some country \<Rightarrow>
          if \<exists>c \<in> set (region_blocks db). to_ascii_lowercase c = to_ascii_lowercase country
          then Inl (403, ''access from your region ('' @ country @ '') is blocked'')
          else Inr ())"

section \<open>Registration and login\<close>

record AuthResponse =
  ar_token :: string
  ar_role :: string
  ar_status :: string

definition session_for :: "Env \<Rightarrow> User \<Rightarrow> string" where
  "session_for env u = issue_session env (u_id u) (u_email u) (u_role u)"

definition register_user :: "Env \<Rightarrow> headers \<Rightarrow> string \<Rightarrow> string \<Rightarrow> AuthResponse handler" where
  "register_user env hs raw_email password s =
     (case geo_gate env hs (app_db s) of
        Inl e \<Rightarrow> (Inl e, s)
      | Inr _ \<Rightarrow>
          let email = e_lower env (trim raw_email) in
          if email = [] \<or> length password < 8
          then (Inl (400, ''email required and password must be at least 8 characters''), s)
          else if user_by_email email (app_db s) \<noteq> None then (Inl (409, ''email already registered''), s)
          else case create_user (e_now env) email (e_hash env password) (app_db s) of
            Inl f \<Rightarrow> (Inl (db_err (e_fault env f)), s)
          | Inr (u, db) \<Rightarrow>
              (Inr \<lparr> ar_token = session_for env u, ar_role = u_role u, ar_status = ''registered'' \<rparr>, s\<lparr>app_db := db\<rparr>))"

definition login_user :: "Env \<Rightarrow> headers \<Rightarrow> string \<Rightarrow> string \<Rightarrow> DB \<Rightarrow> http_error + AuthResponse" where
  "login_user env hs raw_email password db =
     and_then (geo_gate env hs db) (\<lambda>_.
       let email = e_lower env (trim raw_email);
           verified = Option.bind (user_by_email email db)
                        (\<lambda>u. if e_verify_hash env password (u_password_hash u) then Some u else None)
       in case verified of
            None \<Rightarrow> Inl (401, ''invalid credentials'')
          | Some u \<Rightarrow>
              if u_banned u then Inl (403, ''this account is banned'')
              else Inr \<lparr> ar_token = session_for env u, ar_role = u_role u, ar_status = ''ok'' \<rparr>)"

section \<open>Device authorization grant\<close>

definition HEX :: string where
  "HEX = ''0123456789abcdef''"

definition UC :: string where
  "UC = ''ABCDEFGHJKLMNPQRSTUVWXYZ23456789''"

text \<open>One draw per character.\<close>

definition random_code :: "string \<Rightarrow> nat list \<Rightarrow> string" where
  "random_code charset draws = map (\<lambda>d. charset ! (d mod length charset)) draws"

record DeviceStartRes =
  ds_device_code :: string
  ds_user_code :: string
  ds_verification_uri :: string
  ds_interval :: nat
  ds_expires_in :: int

definition redis_err :: "Env \<Rightarrow> redis_error \<Rightarrow> http_error" where
  "redis_err env e = db_err (e_redis_error env e)"

definition device_start :: "Env \<Rightarrow> nat list \<Rightarrow> nat list \<Rightarrow> nat list \<Rightarrow> DeviceStartRes handler" where
  "device_start env d1 d2 d3 s =
     (let device_code = random_code HEX (take 40 d1);
          user_code = random_code UC (take 4 d2) @ ''-'' @ random_code UC (take 4 d3)
      in case devcode_create (e_now env) user_code device_code (app_redis s) of
           Inl e \<Rightarrow> (Inl (redis_err env e), s)
         | Inr r \<Rightarrow>
             (Inr \<lparr> ds_device_code = device_code, ds_user_code = user_code,
                    ds_verification_uri = ''https://'' @ bc_domain (e_cfg env) @ ''/device'',
                    ds_interval = 3, ds_expires_in = DEVCODE_TTL_SECS \<rparr>, s\<lparr>app_redis := r\<rparr>))"

definition status_json :: "string \<Rightarrow> Json" where
  "status_json st = JObj [(''status'', JStr st)]"

definition approved_session :: "Env \<Rightarrow> int \<Rightarrow> DB \<Rightarrow> Json" where
  "approved_session env uid db =
     (case user_by_id uid db of
        None \<Rightarrow> status_json ''expired_token''
      | Some u \<Rightarrow>
          if u_banned u then status_json ''banned''
          else JObj [(''status'', JStr ''approved''), (''token'', JStr (session_for env u)), (''role'', JStr (u_role u))])"

definition device_token :: "Env \<Rightarrow> string \<Rightarrow> Json handler" where
  "device_token env code s =
     (case devcode_status (e_now env) code (app_redis s) of
        Inl e \<Rightarrow> (Inl (redis_err env e), s)
      | Inr None \<Rightarrow> (Inr (status_json ''expired_token''), s)
      | Inr (Some rec) \<Rightarrow>
          (case dr_approved_user rec of
             None \<Rightarrow> (Inr (status_json ''authorization_pending''), s)
           | Some uid \<Rightarrow>
               (case devcode_consume (e_now env) code (app_redis s) of
                  Inl e \<Rightarrow> (Inl (redis_err env e), s)
                | Inr (won, r) \<Rightarrow>
                    (Inr (if won then approved_session env uid (app_db s) else status_json ''expired_token''),
                     s\<lparr>app_redis := r\<rparr>))))"

definition device_approve :: "Env \<Rightarrow> AuthUser \<Rightarrow> string \<Rightarrow> Json handler" where
  "device_approve env user raw s =
     (case devcode_approve (e_now env) (e_upper env (trim raw)) (au_user_id user) (app_redis s) of
        Inl e \<Rightarrow> (Inl (redis_err env e), s)
      | Inr (ok, r) \<Rightarrow>
          if ok then (Inr (status_json ''approved''), s\<lparr>app_redis := r\<rparr>)
          else (Inl (404, ''invalid or expired code''), s\<lparr>app_redis := r\<rparr>))"

section \<open>The caller's account\<close>

record ProfileRes =
  pr_id :: int
  pr_email :: string
  pr_name :: "string option"
  pr_role :: string

definition get_profile :: "AuthUser \<Rightarrow> DB \<Rightarrow> http_error + ProfileRes" where
  "get_profile user db =
     (case user_by_id (au_user_id user) db of
        None \<Rightarrow> Inl (404, ''no such user'')
      | Some u \<Rightarrow> Inr \<lparr> pr_id = u_id u, pr_email = u_email u, pr_name = u_name u, pr_role = u_role u \<rparr>)"

definition update_profile :: "Env \<Rightarrow> AuthUser \<Rightarrow> string \<Rightarrow> string option \<Rightarrow> Json handler" where
  "update_profile env user raw_email raw_name s =
     (let email = e_lower env (trim raw_email); name = trimmed raw_name in
      if email = [] \<or> CHR ''@'' \<notin> set email then (Inl (400, ''a valid email is required''), s)
      else if (case name of Some n \<Rightarrow> 60 < char_count n | None \<Rightarrow> False)
      then (Inl (400, ''name too long (max 60 chars)''), s)
      else if (case user_by_email email (app_db s) of Some u \<Rightarrow> u_id u \<noteq> au_user_id user | None \<Rightarrow> False)
      then (Inl (409, ''that email is already in use''), s)
      else case update_user_profile (au_user_id user) name email (app_db s) of
        Inl f \<Rightarrow> (Inl (err (e_fault env f)), s)
      | Inr (_, db) \<Rightarrow>
          (Inr (JObj [(''status'', JStr ''updated''), (''email'', JStr email), (''name'', jopt name)]), s\<lparr>app_db := db\<rparr>))"

definition change_password :: "Env \<Rightarrow> AuthUser \<Rightarrow> string \<Rightarrow> string \<Rightarrow> Json handler" where
  "change_password env user current new s =
     (if length new < 8 then (Inl (400, ''new password must be at least 8 characters''), s)
      else case user_by_id (au_user_id user) (app_db s) of
        None \<Rightarrow> (Inl (404, ''no such user''), s)
      | Some u \<Rightarrow>
          if \<not> e_verify_hash env current (u_password_hash u) then (Inl (401, ''current password is incorrect''), s)
          else (Inr (status_json ''password_changed''),
                s\<lparr>app_db := update_user_password (au_user_id user) (e_hash env new) (app_db s)\<rparr>))"

end
