(* ===== verification/Management.thy ===== *)
theory Management
  imports Accounts
begin

text \<open>
  Devices (\<^verbatim>\<open>natforge-backend/src/handlers/devices.rs\<close>), the administrator's panel (\<^verbatim>\<open>admin.rs\<close>) and the
  internal API the nodes call (\<^verbatim>\<open>internal.rs\<close>).
\<close>

section \<open>Enrollment\<close>

record EnrollStartRes =
  es_device_code :: string
  es_user_code :: string
  es_interval :: nat
  es_expires_in :: int

definition enroll_start :: "Env \<Rightarrow> nat list \<Rightarrow> nat list \<Rightarrow> EnrollStartRes handler" where
  "enroll_start env d1 d2 s =
     (let device_code = random_code HEX (take 40 d1);
          user_code = random_code UC (take 8 d2)
      in case devcode_create (e_now env) user_code device_code (app_redis s) of
           Inl e \<Rightarrow> (Inl (redis_err env e), s)
         | Inr r \<Rightarrow>
             (Inr \<lparr> es_device_code = device_code, es_user_code = user_code, es_interval = 3,
                    es_expires_in = DEVCODE_TTL_SECS \<rparr>, s\<lparr>app_redis := r\<rparr>))"

text \<open>A limiter that cannot answer lets the request through.\<close>

definition rate_ok :: "Env \<Rightarrow> string \<Rightarrow> int \<Rightarrow> int \<Rightarrow> Redis \<Rightarrow> bool \<times> Redis" where
  "rate_ok env key limit window r =
     (case rate_limit_hit (e_now env) key limit window r of Inr v \<Rightarrow> v | Inl _ \<Rightarrow> (True, r))"

definition rate_gate :: "Env \<Rightarrow> headers \<Rightarrow> Redis \<Rightarrow> bool \<times> Redis" where
  "rate_gate env hs r =
     (let ip = (case client_ip env hs of Some i \<Rightarrow> e_show_ip env i | None \<Rightarrow> ''unknown'');
          (ok_ip, r) = rate_ok env (''nf:enrollrl:ip:'' @ ip) 10 60 r;
          (ok_all, r) = rate_ok env ''nf:enrollrl:all'' 120 60 r
      in (ok_ip \<and> ok_all, r))"

definition device_name :: "string option \<Rightarrow> string" where
  "device_name raw = coalesce (trimmed raw) ''device''"

text \<open>The device to bind the code to: its id, whether it is new, its name.\<close>

definition enroll_device :: "Env \<Rightarrow> AuthUser \<Rightarrow> int option \<Rightarrow> string option \<Rightarrow> DB \<Rightarrow> http_error + (int \<times> bool \<times> string) \<times> DB" where
  "enroll_device env user device raw_name db =
     (case device of
        Some did \<Rightarrow>
          (case device_by_id did db of
             None \<Rightarrow> Inl (404, ''device not found'')
           | Some d \<Rightarrow>
               if d_owner_id d = au_user_id user then Inr ((did, False, d_name d), db)
               else Inl (404, ''device not found''))
      | None \<Rightarrow>
          (case create_device (e_now env) (au_user_id user) (device_name raw_name) db of
             Inl f \<Rightarrow> Inl (db_err (e_fault env f))
           | Inr (d, db) \<Rightarrow> Inr ((d_id d, True, device_name raw_name), db)))"

definition enroll_approve ::
    "Env \<Rightarrow> AuthUser \<Rightarrow> headers \<Rightarrow> string \<Rightarrow> string option \<Rightarrow> int option \<Rightarrow> Json handler" where
  "enroll_approve env user hs raw_code raw_name device s =
     (case rate_gate env hs (app_redis s) of (ok, r) \<Rightarrow>
        let s = s\<lparr>app_redis := r\<rparr> in
        if \<not> ok then (Inl (429, ''too many attempts; wait a minute and try again''), s)
        else
          let code = filter (\<lambda>c. c \<noteq> CHR ''-'') (e_upper env (trim raw_code)) in
          case enroll_device env user device raw_name (app_db s) of
            Inl e \<Rightarrow> (Inl e, s)
          | Inr ((did, created, name), db) \<Rightarrow>
              let s = s\<lparr>app_db := db\<rparr> in
              (case devcode_approve_device (e_now env) code (au_user_id user) did (app_redis s) of
                 Inl e \<Rightarrow> (Inl (redis_err env e), s)
               | Inr (found, r) \<Rightarrow>
                   let s = s\<lparr>app_redis := r\<rparr> in
                   if \<not> found
                   then (Inl (404, ''invalid or expired code''),
                         if created then s\<lparr>app_db := snd (delete_device did (au_user_id user) (app_db s))\<rparr> else s)
                   else (Inr (JObj [(''status'', JStr ''approved''), (''device_id'', JInt did), (''name'', JStr name)]), s)))"

definition enroll_token :: "Env \<Rightarrow> nat list \<Rightarrow> string \<Rightarrow> Json handler" where
  "enroll_token env draws code s =
     (case devcode_status (e_now env) code (app_redis s) of
        Inl e \<Rightarrow> (Inl (redis_err env e), s)
      | Inr None \<Rightarrow> (Inr (status_json ''expired_token''), s)
      | Inr (Some rec) \<Rightarrow>
          (case (dr_approved_user rec, dr_device_id rec) of
             (Some owner, Some did) \<Rightarrow>
               (case devcode_consume (e_now env) code (app_redis s) of
                  Inl e \<Rightarrow> (Inl (redis_err env e), s)
                | Inr (won, r) \<Rightarrow>
                    let s = s\<lparr>app_redis := r\<rparr> in
                    if \<not> won then (Inr (status_json ''expired_token''), s)
                    else
                      let nonce = random_code HEX (take 32 draws);
                          db = set_device_token did nonce (app_db s);
                          name = (case device_by_id did db of Some d \<Rightarrow> d_name d | None \<Rightarrow> [])
                      in (Inr (JObj [(''status'', JStr ''approved''),
                                     (''device_token'', JStr (issue_device_token env owner did nonce)),
                                     (''device_id'', JInt did), (''name'', JStr name)]), s\<lparr>app_db := db\<rparr>))
           | _ \<Rightarrow> (Inr (status_json ''authorization_pending''), s)))"

section \<open>Devices\<close>

definition post_device :: "Env \<Rightarrow> AuthUser \<Rightarrow> string option \<Rightarrow> Json handler" where
  "post_device env user raw_name s =
     (case create_device (e_now env) (au_user_id user) (device_name raw_name) (app_db s) of
        Inl f \<Rightarrow> (Inl (db_err (e_fault env f)), s)
      | Inr (d, db) \<Rightarrow>
          (Inr (JObj [(''device_id'', JInt (d_id d)), (''name'', JStr (device_name raw_name))]), s\<lparr>app_db := db\<rparr>))"

definition get_devices :: "AuthUser \<Rightarrow> DB \<Rightarrow> Device list" where
  "get_devices user db = list_devices (au_user_id user) db"

text \<open>204, or 404 when no device of the caller was touched.\<close>

definition touched :: "bool \<times> DB \<Rightarrow> nat handler" where
  "touched res s =
     (case res of (ok, db) \<Rightarrow>
        (if ok then Inr 204 else Inl (404, ''device not found''), s\<lparr>app_db := db\<rparr>))"

definition patch_device :: "AuthUser \<Rightarrow> int \<Rightarrow> string \<Rightarrow> nat handler" where
  "patch_device user did raw s =
     (if trim raw = [] then (Inl (400, ''name required''), s)
      else touched (rename_device did (au_user_id user) (trim raw) (app_db s)) s)"

definition remove_device :: "AuthUser \<Rightarrow> int \<Rightarrow> nat handler" where
  "remove_device user did s = touched (delete_device did (au_user_id user) (app_db s)) s"

definition detach_device :: "AuthUser \<Rightarrow> int \<Rightarrow> nat handler" where
  "detach_device user did s = touched (disconnect_device did (au_user_id user) (app_db s)) s"

section \<open>The administrator's panel\<close>

definition require_admin :: "AuthUser \<Rightarrow> http_error + unit" where
  "require_admin user = (if au_role user = ''admin'' then Inr () else Inl (403, ''administrator role required''))"

definition as_admin :: "AuthUser \<Rightarrow> 'a handler \<Rightarrow> 'a handler" where
  "as_admin user act s = (case require_admin user of Inl e \<Rightarrow> (Inl e, s) | Inr _ \<Rightarrow> act s)"

definition read_admin :: "AuthUser \<Rightarrow> (DB \<Rightarrow> 'a) \<Rightarrow> DB \<Rightarrow> http_error + 'a" where
  "read_admin user q db = and_then (require_admin user) (\<lambda>_. Inr (q db))"

definition get_region_blocks :: "AuthUser \<Rightarrow> DB \<Rightarrow> http_error + string list" where
  "get_region_blocks user db = read_admin user Lifecycle.region_blocks db"

definition post_region_block :: "Env \<Rightarrow> AuthUser \<Rightarrow> string \<Rightarrow> Json handler" where
  "post_region_block env user raw =
     as_admin user (\<lambda>s.
       let code = e_upper env (trim raw) in
       if length code \<noteq> 2 then (Inl (400, ''country_code must be 2 letters''), s)
       else (Inr (status_json ''banned''), s\<lparr>app_db := add_region_block code (app_db s)\<rparr>))"

definition delete_region_block :: "Env \<Rightarrow> AuthUser \<Rightarrow> string \<Rightarrow> Json handler" where
  "delete_region_block env user raw =
     as_admin user (\<lambda>s. (Inr (status_json ''unbanned''), s\<lparr>app_db := remove_region_block (e_upper env raw) (app_db s)\<rparr>))"

definition network_stats :: "AuthUser \<Rightarrow> DB \<Rightarrow> http_error + Stats" where
  "network_stats user db = read_admin user stats db"

definition list_all_tunnels :: "Env \<Rightarrow> AuthUser \<Rightarrow> DB \<Rightarrow> http_error + TunnelView list" where
  "list_all_tunnels env user db =
     and_then (require_admin user) (\<lambda>_.
       case all_tunnels db of Inl f \<Rightarrow> Inl (err (e_fault env f)) | Inr vs \<Rightarrow> Inr vs)"

definition list_users :: "AuthUser \<Rightarrow> DB \<Rightarrow> http_error + UserOverview list" where
  "list_users user db = read_admin user users_overview db"

fun signal_all :: "Env \<Rightarrow> (int \<times> string \<times> string option) list \<Rightarrow> App \<Rightarrow> App" where
  "signal_all env [] s = s"
| "signal_all env ((_, sub, node) # ts) s = signal_all env ts (signal_node_stop env sub node s)"

definition remove_user :: "Env \<Rightarrow> AuthUser \<Rightarrow> int \<Rightarrow> Json handler" where
  "remove_user env user uid =
     as_admin user (\<lambda>s.
       if uid = au_user_id user then (Inl (400, ''you cannot delete your own admin account''), s)
       else
         let s = signal_all env (owner_tunnel_targets uid (app_db s)) s in
         case delete_user uid (app_db s) of (n, db) \<Rightarrow>
           if n = 0 then (Inl (404, ''no such user''), s\<lparr>app_db := db\<rparr>)
           else (Inr (JObj [(''status'', JStr ''user_deleted''), (''user_id'', JInt uid)]), s\<lparr>app_db := db\<rparr>))"

fun stop_all :: "Env \<Rightarrow> (int \<times> string \<times> string option) list \<Rightarrow> App \<Rightarrow> App" where
  "stop_all env [] s = s"
| "stop_all env ((tid, sub, node) # ts) s =
     (let s = signal_node_stop env sub node s
      in stop_all env ts (s\<lparr>app_db := snd (stop_tunnel_keep (e_now env) tid (app_db s))\<rparr>))"

definition ban_user :: "Env \<Rightarrow> AuthUser \<Rightarrow> int \<Rightarrow> bool \<Rightarrow> Json handler" where
  "ban_user env user uid banned =
     as_admin user (\<lambda>s.
       if uid = au_user_id user then (Inl (400, ''you cannot ban your own admin account''), s)
       else
         let s = s\<lparr>app_db := set_user_banned uid banned (app_db s)\<rparr>;
             s = (if banned then stop_all env (owner_tunnel_targets uid (app_db s)) s else s)
         in (Inr (JObj [(''status'', JStr (if banned then ''banned'' else ''unbanned'')), (''user_id'', JInt uid)]), s))"

definition get_nodes :: "AuthUser \<Rightarrow> DB \<Rightarrow> http_error + NodeRow list" where
  "get_nodes user db = read_admin user (list_nodes False) db"

definition patch_node :: "AuthUser \<Rightarrow> string \<Rightarrow> string \<Rightarrow> string option \<Rightarrow> bool \<Rightarrow> Json handler" where
  "patch_node user nid name reg active =
     as_admin user (\<lambda>s.
       (Inr (JObj [(''status'', JStr ''updated''), (''node_id'', JStr nid)]),
        s\<lparr>app_db := update_node nid (trim name) (trimmed reg) active (app_db s)\<rparr>))"

definition remove_node :: "AuthUser \<Rightarrow> string \<Rightarrow> Json handler" where
  "remove_node user nid =
     as_admin user (\<lambda>s. (Inr (JObj [(''status'', JStr ''deleted''), (''node_id'', JStr nid)]),
                         s\<lparr>app_db := delete_node nid (app_db s)\<rparr>))"

section \<open>The internal API\<close>

definition internal_secret_ok :: "Env \<Rightarrow> headers \<Rightarrow> http_error + unit" where
  "internal_secret_ok env hs =
     (if coalesce (Option.bind (hs ''x-internal-secret'') header_str) [] = bc_internal_secret (e_cfg env)
      then Inr () else Inl (401, ''bad internal secret''))"

definition as_node :: "Env \<Rightarrow> headers \<Rightarrow> (DB \<Rightarrow> fault + 'a \<times> DB) \<Rightarrow> Json handler" where
  "as_node env hs stmt s =
     (case internal_secret_ok env hs of
        Inl e \<Rightarrow> (Inl e, s)
      | Inr _ \<Rightarrow>
          (case stmt (app_db s) of
             Inl f \<Rightarrow> (Inl (err (e_fault env f)), s)
           | Inr (_, db) \<Rightarrow> (Inr (status_json ''ok''), s\<lparr>app_db := db\<rparr>)))"

definition tunnel_up :: "Env \<Rightarrow> headers \<Rightarrow> int \<Rightarrow> string \<Rightarrow> string option \<Rightarrow> Json handler" where
  "tunnel_up env hs tid node ip =
     as_node env hs (\<lambda>db. Inr ((), set_tunnel_online (e_now env) tid node ip db))"

definition tunnel_down :: "Env \<Rightarrow> headers \<Rightarrow> int \<Rightarrow> Json handler" where
  "tunnel_down env hs tid = as_node env hs (\<lambda>db. Inr ((), set_tunnel_offline (e_now env) tid db))"

definition bandwidth :: "Env \<Rightarrow> headers \<Rightarrow> int \<Rightarrow> int \<Rightarrow> int \<Rightarrow> int \<Rightarrow> Json handler" where
  "bandwidth env hs tid owner bytes_in bytes_out =
     as_node env hs (append_bandwidth (e_now env) tid owner bytes_in bytes_out)"

definition conn_log ::
    "Env \<Rightarrow> headers \<Rightarrow> int \<Rightarrow> int \<Rightarrow> int \<Rightarrow> string \<Rightarrow> string \<Rightarrow> string option \<Rightarrow> int \<Rightarrow> int \<Rightarrow> int \<Rightarrow> bool \<Rightarrow> Json handler" where
  "conn_log env hs tid owner rid kind ip country bytes_in bytes_out ms blocked =
     as_node env hs (insert_conn_log tid owner rid kind ip country bytes_in bytes_out ms blocked)"

text \<open>The block lists by tunnel, keyed by the id's decimal text; one field per tunnel.\<close>

definition policy_fields :: "DB \<Rightarrow> (string \<times> Json) list" where
  "policy_fields db =
     map (\<lambda>tid. (int_str tid, JArr (map JStr (coalesce (all_tunnel_region_blocks db tid) []))))
       (remdups (map fst (tunnel_blocks_t db)))"

definition policy :: "Env \<Rightarrow> headers \<Rightarrow> DB \<Rightarrow> http_error + Json" where
  "policy env hs db =
     and_then (internal_secret_ok env hs) (\<lambda>_.
       Inr (JObj [(''blocked_regions'', JArr (map JStr (Lifecycle.region_blocks db))),
                  (''tunnel_region_blocks'', JObj (policy_fields db))]))"

definition node_register :: "Env \<Rightarrow> headers \<Rightarrow> NodeRow \<Rightarrow> int \<Rightarrow> int \<Rightarrow> Json handler" where
  "node_register env hs n port_min port_max =
     as_node env hs (\<lambda>db. Inr ((), register_node (e_now env) n port_min port_max db))"

end
