(* ===== verification/DeviceProps.thy ===== *)
theory DeviceProps
  imports EditProps Management
begin

text \<open>
  Properties of devices and of the policy: a revoked device token is refused at once, an enrollment
  from the agent's code to its first authenticated request, the exclusive local endpoints of a device,
  and a tunnel's block list from its owner's request to the node that enforces it.
\<close>

section \<open>Revocation\<close>

lemma device_by_id_update:
  "(\<And>d. d_id (f d) = d_id d) \<Longrightarrow>
     device_by_id did (db\<lparr>devices_t := update_where P f (devices_t db)\<rparr>)
       = map_option (\<lambda>d. if P d then f d else d) (device_by_id did db)"
proof -
  assume id: "\<And>d. d_id (f d) = d_id d"
  have "find (\<lambda>d. d_id d = did) (update_where P f ds) = map_option (\<lambda>d. if P d then f d else d) (find (\<lambda>d. d_id d = did) ds)"
    for ds by (induction ds) (auto simp: update_where_def id)
  then show ?thesis by (simp add: device_by_id_def fetch_optional_def)
qed

lemma device_by_id_delete:
  assumes "distinct (map d_id (devices_t db))"
  shows "device_by_id i (db\<lparr>devices_t := delete_where P (devices_t db)\<rparr>)
    = (case device_by_id i db of Some d \<Rightarrow> if P d then None else Some d | None \<Rightarrow> None)"
proof -
  have "distinct (map d_id ds) \<Longrightarrow> find (\<lambda>d. d_id d = i) (delete_where P ds)
      = (case find (\<lambda>d. d_id d = i) ds of Some d \<Rightarrow> if P d then None else Some d | None \<Rightarrow> None)" for ds
  proof (induction ds)
    case (Cons d ds)
    have "find (\<lambda>x. d_id x = i) ds = None" if "d_id d = i"
      using Cons.prems that by (auto simp: find_None_iff image_iff)
    then show ?case using Cons by (auto simp: delete_where_def)
  qed (simp add: delete_where_def)
  then show ?thesis using assms by (simp add: device_by_id_def fetch_optional_def)
qed

lemma cascade_devices [simp]: "devices_t (cascade_where P db) = devices_t db"
  by (simp add: cascade_where_def cascade_tunnels_def)

lemma device_by_id_cong: "devices_t db = devices_t db' \<Longrightarrow> device_by_id i db = device_by_id i db'"
  by (simp add: device_by_id_def)

text \<open>What the two ways to revoke leave of the device table.\<close>

lemma detach_devices:
  "detach_device user did s = (Inr n, s') \<Longrightarrow>
     device_by_id i (app_db s')
       = map_option (\<lambda>d. if owned_device did (au_user_id user) d then d\<lparr>d_token_fp := None, d_status := ''pending''\<rparr> else d)
           (device_by_id i (app_db s))"
  by (auto simp: detach_device_def touched_def disconnect_device_def device_by_id_update split: prod.splits if_splits)

lemma remove_devices:
  assumes "distinct (map d_id (devices_t (app_db s)))" and "remove_device user did s = (Inr n, s')"
  shows "device_by_id i (app_db s')
    = (case device_by_id i (app_db s) of
         Some d \<Rightarrow> if owned_device did (au_user_id user) d then None else Some d | None \<Rightarrow> None)"
proof -
  let ?db = "cascade_where (\<lambda>t. t_device_id t = Some did) (app_db s)"
  have "app_db s' = ?db\<lparr>devices_t := delete_where (owned_device did (au_user_id user)) (devices_t ?db)\<rparr>"
    using assms(2) by (auto simp: remove_device_def touched_def delete_device_def Let_def split: prod.splits if_splits)
  then show ?thesis
    using device_by_id_delete [of ?db i "owned_device did (au_user_id user)"] assms(1)
      device_by_id_cong [of ?db "app_db s" i] by simp
qed

text \<open>
  C15: detaching or deleting a device revokes its token at once: a bearer the server accepted for that
  device is refused from then on, while the bearers of all other devices keep working. This needs the
  caller to own the device.
\<close>

theorem device_token_revoked:
  assumes "distinct (map d_id (devices_t (app_db s)))"
    and "device_auth env bearer (app_db s) = Inr dev" and "da_owner_id dev = au_user_id user"
    and "detach_device user (da_device_id dev) s = (Inr n, s') \<or> remove_device user (da_device_id dev) s = (Inr n, s')"
  shows "(\<exists>msg. device_auth env bearer (app_db s') = Inl (401, msg))
    \<and> (\<forall>b d. device_auth env b (app_db s) = Inr d \<longrightarrow> da_device_id d \<noteq> da_device_id dev
          \<longrightarrow> device_auth env b (app_db s') = Inr d)"
proof -
  obtain token c d where a: "bearer_token bearer = Inr token" "verify_device_token env token = Inr c"
    and d: "device_by_id (dc_device_id c) (app_db s) = Some d" "dev = \<lparr> da_owner_id = d_owner_id d, da_device_id = d_id d \<rparr>"
    using assms(2) unfolding device_auth_Inr by blast
  have id: "d_id x = i" if "device_by_id i db = Some x" for i x db
    using fetch_optional_Some that by (fastforce simp: device_by_id_def)
  let ?P = "owned_device (d_id d) (au_user_id user)"
  have P: "?P d" using assms(3) d(2) by (simp add: owned_device_def)
  have after: "device_by_id i (app_db s') = (case device_by_id i (app_db s) of
        Some x \<Rightarrow> if ?P x then None else Some x | None \<Rightarrow> None)
      \<or> device_by_id i (app_db s') = map_option (\<lambda>x. if ?P x then x\<lparr>d_token_fp := None, d_status := ''pending''\<rparr> else x)
           (device_by_id i (app_db s))" for i
    using assms(4) remove_devices [OF assms(1)] detach_devices by (auto simp: d(2))
  have "\<exists>msg. device_auth env bearer (app_db s') = Inl (401, msg)"
    using after [of "dc_device_id c"] d(1) P by (auto simp: device_auth_def a)
  moreover have "device_auth env b (app_db s') = Inr x"
    if x: "device_auth env b (app_db s) = Inr x" "da_device_id x \<noteq> da_device_id dev" for b x
  proof -
    obtain t c' d' where 1: "bearer_token b = Inr t" "verify_device_token env t = Inr c'"
      "device_by_id (dc_device_id c') (app_db s) = Some d'" "d_token_fp d' = Some (dc_nonce c')"
      and xd: "x = \<lparr> da_owner_id = d_owner_id d', da_device_id = d_id d' \<rparr>"
      using x(1) unfolding device_auth_Inr by blast
    have "\<not> ?P d'" using x(2) xd d(2) by (simp add: owned_device_def)
    then have "device_by_id (dc_device_id c') (app_db s') = Some d'" using after [of "dc_device_id c'"] 1(3) by auto
    then show ?thesis unfolding device_auth_Inr using 1 xd by blast
  qed
  ultimately show ?thesis by blast
qed

definition enrolled_device :: Device where
  "enrolled_device = \<lparr> d_id = 9, d_owner_id = 7, d_name = ''nas'', d_token_fp = Some ''abc'', d_status = ''online'',
     d_agent_ip = None, d_last_seen = None, d_created_at = 0 \<rparr>"

theorem device_token_revoked_witness:
  "\<exists>s' msg. detach_device demo_owner 9 (demo_app (demo_db\<lparr>devices_t := [enrolled_device]\<rparr>)) = (Inr 204, s')
     \<and> device_auth demo_env (Some ''Bearer abc'') (app_db s') = Inl (401, msg)"
proof -
  let ?s = "demo_app (demo_db\<lparr>devices_t := [enrolled_device]\<rparr>)" and ?dev = "\<lparr> da_owner_id = 7, da_device_id = 9 \<rparr>"
  have a: "device_auth demo_env (Some ''Bearer abc'') (app_db ?s) = Inr ?dev"
  proof -
    have "bearer_token (Some ''Bearer abc'') = Inr ''abc''" by code_simp
    then show ?thesis
      by (simp add: device_auth_def verify_device_token_def demo_env_def demo_app_def enrolled_device_def device_by_id_def
          fetch_optional_def)
  qed
  obtain r s' where d: "detach_device demo_owner 9 ?s = (r, s')" by fastforce
  then have r: "r = Inr 204"
    by (auto simp: detach_device_def touched_def disconnect_device_def demo_app_def demo_owner_def owned_device_def
        enrolled_device_def count_where_def)
  have "distinct (map d_id (devices_t (app_db ?s)))" by (simp add: demo_app_def)
  then show ?thesis using device_token_revoked [OF _ a, of demo_owner 204 s'] d r by (auto simp: demo_owner_def)
qed

section \<open>From a tunnel's block list to the node\<close>

lemma upper_strings_map [simp]: "upper_strings up (map JStr cs) = map up cs"
  by (induction cs) simp_all

lemma policy_blocks_lookup:
  assumes "\<forall>t \<in> set ids. i64_min \<le> t \<and> t \<le> i64_max" "distinct ids"
  shows "policy_blocks up (map (\<lambda>t. (int_str t, JArr (map JStr (f t)))) ids) out tid
    = (if tid \<in> set ids \<and> f tid \<noteq> [] then Some (map up (f tid)) else out tid)"
  using assms
proof (induction ids arbitrary: out)
  case (Cons t ids)
  have "parse_int i64_min i64_max (int_str t) = Some t" using Cons.prems(1) by (simp add: str_simps)
  then show ?case using Cons by (auto simp: as_array_def Let_def)
qed simp

text \<open>What a node that pulls the policy blocks.\<close>

lemma pulled_policy:
  assumes v: "policy env hs db = Inr v" and ids: "\<forall>b \<in> set (tunnel_blocks_t db). i64_min \<le> fst b \<and> fst b \<le> i64_max"
  shows "is_country_blocked (refresh_policy up (Some v) st) tid (Some cc) \<longleftrightarrow>
     cc \<in> up ` set (region_blocks_t db) \<or> (\<exists>c. (tid, c) \<in> set (tunnel_blocks_t db) \<and> up c = cc)"
proof -
  let ?codes = "\<lambda>t. coalesce (all_tunnel_region_blocks db t) []"
  have "?codes t = map snd (filter (\<lambda>b. fst b = t) (tunnel_blocks_t db))" for t
    by (cases "map snd (filter (\<lambda>b. fst b = t) (tunnel_blocks_t db))") (simp_all add: all_tunnel_region_blocks_def)
  then have codes: "set (?codes t) = {c. (t, c) \<in> set (tunnel_blocks_t db)}" for t by force
  have v': "v = JObj [(''blocked_regions'', JArr (map JStr (Lifecycle.region_blocks db))),
                  (''tunnel_region_blocks'', JObj (policy_fields db))]"
    using v by (auto simp: policy_def and_then_Inr_iff)
  let ?st = "refresh_policy up (Some v) st"
  have t: "NodeState.tunnel_region_blocks ?st tid = (if tid \<in> fst ` set (tunnel_blocks_t db) \<and> ?codes tid \<noteq> [] then Some (map up (?codes tid)) else None)"
    using policy_blocks_lookup [of "remdups (map fst (tunnel_blocks_t db))" up ?codes Map.empty tid] ids
    by (simp add: refresh_policy_def v' get_field_def as_array_def as_object_def policy_fields_def)
  have "blocked_regions ?st = map up (Lifecycle.region_blocks db)"
    by (simp add: refresh_policy_def v' get_field_def as_array_def as_object_def)
  then show ?thesis using codes [of tid]
    by (auto simp: is_country_blocked_iff t Lifecycle.region_blocks_def image_iff split: if_splits)
qed

lemma insert_blocks_set:
  "set (tunnel_blocks_t (insert_tunnel_blocks tid codes db)) = set (tunnel_blocks_t db) \<union> Pair tid ` set codes"
  by (induction codes arbitrary: db) auto

lemma insert_blocks_regions [simp]: "region_blocks_t (insert_tunnel_blocks tid codes db) = region_blocks_t db"
  by (induction codes arbitrary: db) auto

lemma put_blocks_stored:
  assumes "put_tunnel_region_blocks env user tid codes s = (Inr j, s')"
  shows "region_blocks_t (app_db s') = region_blocks_t (app_db s)"
    and "(t, c) \<in> set (tunnel_blocks_t (app_db s')) \<longleftrightarrow>
      (if t = tid then c \<in> set (normal_codes env codes) else (t, c) \<in> set (tunnel_blocks_t (app_db s)))"
proof -
  let ?codes = "remdups_adj (sort (normal_codes env codes))"
  obtain db where "set_tunnel_region_blocks tid ?codes (app_db s) = Inr ((), db)" and s': "app_db s' = db"
    using assms by (auto simp: put_tunnel_region_blocks_def Let_def split: sum.splits if_splits)
  then have db: "app_db s' = insert_tunnel_blocks tid ?codes
      ((app_db s)\<lparr>tunnel_blocks_t := delete_where (\<lambda>b. fst b = tid) (tunnel_blocks_t (app_db s))\<rparr>)"
    by (auto simp: set_tunnel_region_blocks_def split: if_splits)
  show "region_blocks_t (app_db s') = region_blocks_t (app_db s)" by (simp add: db)
  show "(t, c) \<in> set (tunnel_blocks_t (app_db s')) \<longleftrightarrow>
      (if t = tid then c \<in> set (normal_codes env codes) else (t, c) \<in> set (tunnel_blocks_t (app_db s)))"
    by (auto simp: db insert_blocks_set)
qed

text \<open>
  C27: a block list reaches the node. Once an owner's request to block countries for a tunnel has been
  answered, a node that pulls the policy refuses exactly these countries for that tunnel, on top of
  the administrator's global list, and for every other tunnel what it refused before. The two sides
  agree on upper case.
\<close>

theorem tunnel_blocks_enforced:
  assumes "put_tunnel_region_blocks env user tid codes s = (Inr j, s')"
    and "policy env hs (app_db s') = Inr v"
    and "\<forall>b \<in> set (tunnel_blocks_t (app_db s')). i64_min \<le> fst b \<and> fst b \<le> i64_max"
    and "\<forall>c \<in> set (normal_codes env codes). up c = c"
  shows "(is_country_blocked (refresh_policy up (Some v) st) tid (Some cc) \<longleftrightarrow>
        cc \<in> set (normal_codes env codes) \<or> cc \<in> up ` set (region_blocks_t (app_db s)))
    \<and> (\<forall>t. t \<noteq> tid \<longrightarrow> (is_country_blocked (refresh_policy up (Some v) st) t (Some cc) \<longleftrightarrow>
        (\<exists>c. (t, c) \<in> set (tunnel_blocks_t (app_db s)) \<and> up c = cc) \<or> cc \<in> up ` set (region_blocks_t (app_db s))))"
  using pulled_policy [OF assms(2,3)] put_blocks_stored [OF assms(1)] assms(4) by auto

theorem tunnel_blocks_enforced_witness:
  "\<exists>j s' v. put_tunnel_region_blocks demo_env demo_owner 1 ['' US '', ''x''] (demo_app demo_db1) = (Inr j, s')
     \<and> policy demo_env (\<lambda>_. Some ''natforge-internal-dev-secret'') (app_db s') = Inr v
     \<and> is_country_blocked (refresh_policy id (Some v) empty_state) 1 (Some ''US'')
     \<and> \<not> is_country_blocked (refresh_policy id (Some v) empty_state) 1 (Some ''DE'')"
proof -
  have t: "tunnel_by_id 1 demo_db1 = Some demo_tunnel"
    by (simp add: tunnel_by_id_def fetch_optional_def demo_db1_def demo_tunnel_def)
  have n: "normal_codes demo_env ['' US '', ''x''] = [''US'']" by code_simp
  obtain r s' where p: "put_tunnel_region_blocks demo_env demo_owner 1 ['' US '', ''x''] (demo_app demo_db1) = (r, s')" by fastforce
  obtain j where j: "r = Inr j" and s': "tunnel_blocks_t (app_db s') = [(1, ''US'')]"
    using p t by (auto simp: put_tunnel_region_blocks_def authorize_tunnel_def tunnel_owner_def demo_app_def may_manage_def
        demo_owner_def demo_tunnel_def n set_tunnel_region_blocks_def Let_def demo_db1_def delete_where_def demo_db_def
        split: sum.splits)
  have "header_str ''natforge-internal-dev-secret'' = Some ''natforge-internal-dev-secret''" by code_simp
  then have "internal_secret_ok demo_env (\<lambda>_. Some ''natforge-internal-dev-secret'') = Inr ()"
    by (simp add: internal_secret_ok_def demo_env_def backend_from_env_def env_or_def)
  then obtain v where v: "policy demo_env (\<lambda>_. Some ''natforge-internal-dev-secret'') (app_db s') = Inr v"
    by (simp add: policy_def)
  have "region_blocks_t demo_db1 = []" by (simp add: demo_db1_def demo_db_def)
  then show ?thesis
    using tunnel_blocks_enforced [OF p [unfolded j] v, of id empty_state] p v j n
    by (auto simp: s' i64_min_def i64_max_def demo_app_def)
qed

section \<open>Exclusive local endpoints\<close>

definition row_key :: "RouteRow \<Rightarrow> int \<times> string \<times> int" where
  "row_key r = (r_tunnel_id r, r_kind r, r_local_port r)"

text \<open>What the services of a device serve on its machine.\<close>

definition device_rows :: "int \<Rightarrow> DB \<Rightarrow> (int \<times> string \<times> int) set" where
  "device_rows did db =
     {x \<in> row_key ` set (routes_t db). \<exists>t \<in> set (tunnels_t db). t_id t = fst x \<and> t_device_id t = Some did}"

definition overlap :: "string \<Rightarrow> string \<Rightarrow> bool" where
  "overlap k k' \<longleftrightarrow> transport_bits k AND transport_bits k' \<noteq> 0"

definition exclusive :: "(int \<times> string \<times> int) set \<Rightarrow> bool" where
  "exclusive X \<longleftrightarrow>
     (\<forall>(i, k, p) \<in> X. \<forall>(i', k', p') \<in> X. i \<noteq> i' \<longrightarrow> p = p' \<longrightarrow> \<not> overlap k k')"

lemma overlap_sym: "overlap k k' \<longleftrightarrow> overlap k' k"
  by (simp add: overlap_def and.commute)

lemma exclusive_add:
  assumes "exclusive X" and "\<And>x. x \<in> Y \<Longrightarrow> x \<in> X \<and> fst x \<noteq> i \<or> fst x = i \<and> snd x \<in> N"
    and "\<And>k p j k'. (k, p) \<in> N \<Longrightarrow> (j, k', p) \<in> X \<Longrightarrow> j \<noteq> i \<Longrightarrow> \<not> overlap k' k"
  shows "exclusive Y"
  unfolding exclusive_def
proof (clarify)
  fix j k p j' k' assume m: "(j, k, p) \<in> Y" "(j', k', p) \<in> Y" and ne: "j \<noteq> j'" and o: "overlap k k'"
  have 1: "(j, k, p) \<in> X \<and> j \<noteq> i \<or> j = i \<and> (k, p) \<in> N" and 2: "(j', k', p) \<in> X \<and> j' \<noteq> i \<or> j' = i \<and> (k', p) \<in> N"
    using assms(2) [OF m(1)] assms(2) [OF m(2)] by simp_all
  show False using 1 2
  proof (elim disjE conjE)
    assume "(j, k, p) \<in> X" "(j', k', p) \<in> X"
    then show False using assms(1) ne o unfolding exclusive_def by blast
  qed (use ne o assms(3) overlap_sym in blast)+
qed

lemma conflict_check_iff: "conflict_check taken rs = Inr u \<longleftrightarrow> (\<forall>r \<in> set rs. \<not> clash taken r)"
  by (auto simp: conflict_check_def find_None_iff find_Some_iff split: option.splits)

text \<open>The requested endpoints.\<close>

definition wanted_keys :: "RequestedRoute list \<Rightarrow> (string \<times> int) set" where
  "wanted_keys rs = (\<lambda>r. (as_str (rq_mode r), int (unat (rq_local_port r)))) ` set rs"

lemma no_clash:
  assumes "conflict_check (device_routes_excluding did excl db) rs = Inr u"
    and "(k, p) \<in> wanted_keys rs" "(j, k', p) \<in> device_rows did db" "j \<noteq> excl"
  shows "\<not> overlap k' k"
proof -
  obtain r where r: "r \<in> set rs" "k = as_str (rq_mode r)" "p = int (unat (rq_local_port r))"
    using assms(2) by (auto simp: wanted_keys_def)
  have "(k', p) \<in> set (device_routes_excluding did excl db)"
    using assms(3,4) by (force simp: device_rows_def row_key_def device_routes_excluding_def tunnels_where_def)
  then show ?thesis using assms(1) r by (fastforce simp: conflict_check_iff clash_def overlap_def)
qed

lemma reserve_device_rows:
  assumes ok: "db_ok db" and new: "\<not> rt_reused rt"
    and res: "reserve_tunnel lower locked draws now owner node host (to_requests rs) custom mx reuse device db = Inr (rt, db')"
    and x: "x \<in> device_rows did db'"
  shows "x \<in> device_rows did db \<and> fst x \<noteq> rt_tunnel_id rt
    \<or> fst x = rt_tunnel_id rt \<and> snd x \<in> wanted_keys rs \<and> device = Some did"
proof -
  note F = reserve_created [OF ok res new, unfolded fresh_result_def]
  obtain t where T: "tunnels_t db' = tunnels_t db @ [t]" "t_id t = rt_tunnel_id rt" "t_device_id t = device" using F by blast
  have fresh: "rt_tunnel_id rt \<notin> t_id ` set (tunnels_t db)" using F by blast
  have key: "row_key (r\<lparr>r_id := 0\<rparr>) = row_key r" for r by (simp add: row_key_def)
  have "map row_key (map (\<lambda>r. r\<lparr>r_id := 0\<rparr>) (routes_t db')) = map row_key (map (\<lambda>r. r\<lparr>r_id := 0\<rparr>) (routes_t db)) @ map row_key (rt_routes rt)"
    using F by simp
  then have "map row_key (routes_t db') = map row_key (routes_t db) @ map row_key (rt_routes rt)"
    by (simp add: key comp_def)
  then have "set (map row_key (routes_t db')) = set (map row_key (routes_t db)) \<union> set (map row_key (rt_routes rt))" by simp
  then have keys: "row_key ` set (routes_t db') = row_key ` set (routes_t db) \<union> row_key ` set (rt_routes rt)" by simp
  have mine: "fst (row_key r) = rt_tunnel_id rt \<and> snd (row_key r) \<in> wanted_keys rs" if r: "r \<in> set (rt_routes rt)" for r
  proof -
    obtain k where k: "k < length (to_requests rs)" "r = rt_routes rt ! k" using F r by (auto simp: in_set_conv_nth)
    then have a: "answers (rt_tunnel_id rt) (to_i16 (to_i16 (int k) + 1)) (to_requests rs ! k) r" using F by simp
    have kl: "k < length rs" using k(1) by (simp add: to_requests_def)
    have "snd (row_key r) = (as_str (rq_mode (rs ! k)), int (unat (rq_local_port (rs ! k))))"
      using a kl by (simp add: answers_def row_key_def to_requests_def)
    then have "snd (row_key r) \<in> wanted_keys rs"
      using imageI [OF nth_mem [OF kl], of "\<lambda>r. (as_str (rq_mode r), int (unat (rq_local_port r)))"]
      by (simp add: wanted_keys_def)
    moreover have "fst (row_key r) = rt_tunnel_id rt" using a by (simp add: answers_def row_key_def)
    ultimately show ?thesis by simp
  qed
  have old: "fst k \<noteq> rt_tunnel_id rt" if kk: "k \<in> row_key ` set (routes_t db)" for k
  proof -
    obtain r where r: "r \<in> set (routes_t db)" "fst k = r_tunnel_id r" using kk by (auto simp: row_key_def)
    then obtain t where "t \<in> set (tunnels_t db)" "t_id t = fst k" using ok by (auto simp: db_ok_def ids_ok_def)
    then show ?thesis using fresh imageI [of t "set (tunnels_t db)" t_id] by auto
  qed
  show ?thesis
  proof (cases "x \<in> row_key ` set (routes_t db)")
    case True
    then show ?thesis using x old [OF True] T by (auto simp: device_rows_def)
  next
    case False
    then have m: "x \<in> row_key ` set (rt_routes rt)" using x keys by (auto simp: device_rows_def)
    then have id: "fst x = rt_tunnel_id rt" "snd x \<in> wanted_keys rs" using mine by auto
    have "t' \<in> set (tunnels_t db) \<Longrightarrow> t_id t' \<noteq> fst x" for t' using fresh id(1) by (metis imageI)
    then have "device = Some did" using x T by (auto simp: device_rows_def)
    then show ?thesis using id by simp
  qed
qed

lemma routes_device_rows:
  assumes ok: "db_ok db" and on: "tunnel_on db tid node"
    and res: "set_service_routes locked tid node (to_requests rs) db = Inr (out, db')" and x: "x \<in> device_rows did db'"
  shows "x \<in> device_rows did db \<and> fst x \<noteq> tid \<or> fst x = tid \<and> snd x \<in> wanted_keys rs \<and> tunnel_device_id tid db = Some did"
proof -
  note S = set_service_routes_spec [OF ok on res]
  have t: "\<exists>t \<in> set (tunnels_t db). t_id t = fst x \<and> t_device_id t = Some did"
  proof -
    obtain t where t: "t \<in> set (tunnels_t db')" "t_id t = fst x" "t_device_id t = Some did"
      using x by (auto simp: device_rows_def)
    obtain u where "u \<in> set (tunnels_t db)" "t = u \<or> t = u\<lparr>t_route_sig := route_signature (pairs (to_requests rs))\<rparr>"
      using t(1) by (auto simp: S(6) in_update_where)
    then show ?thesis using t(2,3) by auto
  qed
  obtain r where r: "r \<in> set (routes_t db')" "x = row_key r" using x by (auto simp: device_rows_def)
  show ?thesis
  proof (cases "r_tunnel_id r = tid")
    case True
    then have "r \<in> set out" using S(5) r(1) by simp
    then have "(r_kind r, r_local_port r) \<in> (\<lambda>(m, p, _). (as_str m, int (unat p))) ` set (to_requests rs)"
      using S(4) by blast
    then have "snd x \<in> wanted_keys rs" by (auto simp: r(2) row_key_def wanted_keys_def to_requests_def)
    moreover have "tunnel_device_id tid db = Some did"
    proof -
      obtain t where t: "t \<in> set (tunnels_t db)" "t_id t = tid" "t_device_id t = Some did" using t True by (auto simp: r(2) row_key_def)
      obtain u where u: "tunnel_by_id tid db = Some u"
        using t(1,2) by (cases "tunnel_by_id tid db") (auto simp: tunnel_by_id_def fetch_optional_None)
      then have "u \<in> set (tunnels_t db)" "t_id u = tid" using fetch_optional_Some by (fastforce simp: tunnel_by_id_def)+
      then have "u = t" using ok t(1,2) by (auto simp: db_ok_def ids_ok_def distinct_map dest: inj_onD)
      then show ?thesis using u t(3) by (simp add: tunnel_device_id_def)
    qed
    ultimately show ?thesis using True by (simp add: r(2) row_key_def)
  next
    case False
    then have "r \<in> set (routes_t db)" using S(3) r(1) by blast
    then show ?thesis using False t by (auto simp: device_rows_def r(2) row_key_def)
  qed
qed

lemma device_check_Inr:
  "device_check user (Some did) rs db = Inr u \<Longrightarrow> conflict_check (device_routes_excluding did 0 db) rs = Inr u"
  by (simp add: device_check_def split: if_splits)

lemma route_checks_Inr:
  "route_checks tid rs db = Inr u \<Longrightarrow> tunnel_device_id tid db = Some did
     \<Longrightarrow> conflict_check (device_routes_excluding did tid db) rs = Inr u"
  by (simp add: route_checks_def split: sum.splits)

lemma request_keeps_exclusive:
  assumes ok: "db_ok (app_db s)" and pos: "\<forall>t \<in> set (tunnels_t (app_db s)). t_id t \<noteq> 0"
    and ex: "exclusive (device_rows did (app_db s))"
    and req: "request_tunnel env locked draws user req s = (Inr ans, s')"
  shows "exclusive (device_rows did (app_db s'))"
proof -
  obtain node rt where chk: "request_checks env user req (app_db s) = Inr node"
    and res: "reserve_tunnel (e_lower env) locked draws (e_now env) (au_user_id user) (n_node_id node)
       (n_public_host node) (to_requests (rt_req_routes req)) (trimmed (rt_req_subdomain req))
       (user_max_tunnels (au_user_id user) (app_db s)) (\<not> rt_req_create_new req) (rt_req_device_id req) (app_db s)
       = Inr (rt, app_db s')"
    using request_tunnel_Inr [OF req] by metis
  show ?thesis
  proof (cases "rt_reused rt")
    case True
    from res have "app_db s' = app_db s" by (cases rule: reserve_tunnel_cases) (use True in simp_all)
    then show ?thesis using ex by simp
  next
    case False
    let ?N = "if rt_req_device_id req = Some did then wanted_keys (rt_req_routes req) else {}"
    show ?thesis
    proof (rule exclusive_add [OF ex, of _ "rt_tunnel_id rt" ?N])
      show "x \<in> device_rows did (app_db s) \<and> fst x \<noteq> rt_tunnel_id rt \<or> fst x = rt_tunnel_id rt \<and> snd x \<in> ?N"
        if x: "x \<in> device_rows did (app_db s')" for x
        using reserve_device_rows [OF ok False res x] by auto
    next
      fix k p j k' assume n: "(k, p) \<in> ?N" and j: "(j, k', p) \<in> device_rows did (app_db s)"
      have "rt_req_device_id req = Some did" and w: "(k, p) \<in> wanted_keys (rt_req_routes req)"
        using n by (auto split: if_splits)
      then have "conflict_check (device_routes_excluding did 0 (app_db s)) (rt_req_routes req) = Inr ()"
        using request_checks_policy [OF chk] device_check_Inr by metis
      moreover have "j \<noteq> 0" using j pos by (auto simp: device_rows_def)
      ultimately show "\<not> overlap k' k" using no_clash w j by blast
    qed
  qed
qed

lemma put_routes_keeps_exclusive:
  assumes ok: "db_ok (app_db s)" and ex: "exclusive (device_rows did (app_db s))"
    and put: "put_service_routes env locked user tid rs s = (Inr ans, s')"
  shows "exclusive (device_rows did (app_db s'))"
proof -
  obtain sub nid out where a: "authorize_tunnel_owner user tid (app_db s) = Inr (sub, Some nid)"
    and chk: "route_checks tid rs (app_db s) = Inr ()"
    and res: "set_service_routes locked tid nid (to_requests rs) (app_db s) = Inr (out, app_db s')"
    using put by (auto simp: put_service_routes_def with_tunnel_def signal_if_online_def split: sum.splits option.splits if_splits)
  obtain u where u: "tunnel_by_id tid (app_db s) = Some u" "t_node_id u = Some nid"
    using a by (auto simp: authorize_tunnel_owner_def tunnel_owner_subdomain_def split: option.splits if_splits)
  have m: "u \<in> set (tunnels_t (app_db s))" "t_id u = tid" using fetch_optional_Some [OF u(1) [unfolded tunnel_by_id_def]] by simp_all
  have "distinct (map t_id (tunnels_t (app_db s)))" using ok unfolding db_ok_def ids_ok_def by blast
  then have inj: "inj_on t_id (set (tunnels_t (app_db s)))" by (simp only: distinct_map)
  have "t = u" if t: "t \<in> set (tunnels_t (app_db s))" "t_id t = tid" for t
    by (rule inj_onD [OF inj _ t(1) m(1)]) (simp only: t(2) m(2))
  then have on: "tunnel_on (app_db s) tid nid" using u(2) m unfolding tunnel_on_def by blast
  let ?N = "if tunnel_device_id tid (app_db s) = Some did then wanted_keys rs else {}"
  show ?thesis
  proof (rule exclusive_add [OF ex, of _ tid ?N])
    show "x \<in> device_rows did (app_db s) \<and> fst x \<noteq> tid \<or> fst x = tid \<and> snd x \<in> ?N"
      if x: "x \<in> device_rows did (app_db s')" for x
      using routes_device_rows [OF ok on res x] by auto
  next
    fix k p j k' assume n: "(k, p) \<in> ?N" and j: "(j, k', p) \<in> device_rows did (app_db s)" "j \<noteq> tid"
    have d: "tunnel_device_id tid (app_db s) = Some did" and w: "(k, p) \<in> wanted_keys rs"
      using n by (auto split: if_splits)
    show "\<not> overlap k' k" using no_clash [OF route_checks_Inr [OF chk d] w j] .
  qed
qed

section \<open>Two services of one device never share a local endpoint\<close>


definition nas_db :: DB where
  "nas_db = demo_db\<lparr>devices_t := [enrolled_device], tunnels_t := [demo_tunnel\<lparr>t_device_id := Some 9\<rparr>],
     routes_t := [(rt_routes demo_reserved ! 0)\<lparr>r_id := 2\<rparr>],
     pool_t := [(demo_pool_row ''a'' 20000)\<lparr>pp_tunnel_id := Some 1, pp_route_id := Some 1\<rparr>],
     next_id := 4\<rparr>"

definition nas_request :: RequestTunnelReq where
  "nas_request = \<lparr> rt_req_routes = [\<lparr> rq_mode = Http, rq_local_port = 8080, rq_label = None \<rparr>],
     rt_req_subdomain = None, rt_req_node_id = Some ''a'', rt_req_device_id = Some 9, rt_req_create_new = False \<rparr>"

definition nas_db1 :: DB where
  "nas_db1 = nas_db\<lparr>tunnels_t := tunnels_t nas_db @ [demo_tunnel\<lparr>t_id := 4, t_subdomain := ''duck-a1b3'',
     t_route_sig := ''http:8080'', t_device_id := Some 9\<rparr>], next_id := 5\<rparr>"

lemma nas_db_facts:
  "db_ok nas_db" "\<forall>t \<in> set (tunnels_t nas_db). t_id t \<noteq> 0" "exclusive (device_rows 9 nas_db)"
proof -
  have t: "tunnels_t nas_db = [demo_tunnel\<lparr>t_device_id := Some 9\<rparr>]"
    and r: "routes_t nas_db = [(rt_routes demo_reserved ! 0)\<lparr>r_id := 2\<rparr>]"
    and p: "pool_t nas_db = [(demo_pool_row ''a'' 20000)\<lparr>pp_tunnel_id := Some 1, pp_route_id := Some 1\<rparr>]"
    and n: "next_id nas_db = 4" by (simp_all add: nas_db_def)
  have "ids_ok nas_db" by (simp add: ids_ok_def t r p n demo_tunnel_def demo_reserved_def)
  moreover have "ports_ok nas_db"
    by (simp add: ports_ok_def held_def t r p demo_tunnel_def demo_reserved_def demo_pool_row_def)
  ultimately show "db_ok nas_db" by (simp add: db_ok_def)
  show "\<forall>t \<in> set (tunnels_t nas_db). t_id t \<noteq> 0" by (simp add: nas_db_def demo_tunnel_def)
  show "exclusive (device_rows 9 nas_db)"
  proof -
    have "fst x = 1" if x: "x \<in> device_rows 9 nas_db" for x
    proof -
      have "x \<in> row_key ` set (routes_t nas_db)" using x unfolding device_rows_def by blast
      then show ?thesis by (simp add: r row_key_def demo_reserved_def)
    qed
    then show ?thesis unfolding exclusive_def case_prod_beta by metis
  qed
qed

lemma nas_request_granted:
  "\<exists>ans db. request_tunnel demo_env [] [(0, 0, 27, 1, 29)] demo_owner nas_request (demo_app nas_db)
     = (Inr ans, demo_app db)"
proof -
  have r: "to_requests (rt_req_routes nas_request) = [(Http, 8080, None)]"
    by (simp add: to_requests_def nas_request_def)
  have c: "request_checks demo_env demo_owner nas_request nas_db = Inr (demo_node ''a'' 0 (Some 10))"
    by (simp add: request_checks_def demo_owner_def nas_request_def is_user_banned_def user_by_id_def fetch_optional_def
      demo_db_def nas_db_def demo_user_def check_route_policy_def count_mode_def no_routes_def choose_node_def get_node_def
      demo_node_def device_check_def enrolled_device_def device_by_id_def) code_simp
  have m: "user_max_tunnels 7 nas_db = 10"
    by (simp add: user_max_tunnels_def user_by_id_def fetch_optional_def nas_db_def demo_db_def demo_user_def)
  have sig: "route_signature (pairs [(Http, 8080, None)]) = ''http:8080''"
    by (simp add: route_signature_def pairs_def route_part_def)
  have none: "fetch_optional (same_set 7 ''http:8080'' (Some 9)) (tunnels_t nas_db) = None" by code_simp
  have count: "count_where (\<lambda>t. t_owner_id t = 7) (tunnels_t nas_db) = 1" by code_simp
  have pick: "pick_random 5 7 ''http:8080'' ''a.example'' ''a'' (Some 9) (map random_subdomain (take 10 [(0, 0, 27, 1, 29)]))
     (Some nas_db) = Inr (4, ''duck-a1b3'', nas_db1)" by code_simp
  have routes: "reserve_routes [] ''a'' 4 0 [(Http, 8080, None)] nas_db1
    = Inr ([(rt_routes demo_reserved ! 1)\<lparr>r_tunnel_id := 4, r_route_id := 1\<rparr>],
           nas_db1\<lparr>routes_t := routes_t nas_db @ [(rt_routes demo_reserved ! 1)\<lparr>r_id := 5, r_tunnel_id := 4, r_route_id := 1\<rparr>],
             next_id := 6\<rparr>)" (is "_ = Inr (?out, ?db)") by code_simp
  have "\<exists>rt. reserve_tunnel id [] [(0, 0, 27, 1, 29)] 5 7 ''a'' ''a.example'' [(Http, 8080, None)] None 10 True (Some 9) nas_db
     = Inr (rt, ?db)"
    unfolding reserve_tunnel_def sig Let_def none count option.case pick by (simp add: routes del: reserve_routes.simps)
  then obtain rt where res: "reserve_tunnel id [] [(0, 0, 27, 1, 29)] 5 7 ''a'' ''a.example'' [(Http, 8080, None)] None 10 True (Some 9) nas_db
     = Inr (rt, ?db)" by blast
  have f: "e_lower demo_env = id" "e_now demo_env = 5" "au_user_id demo_owner = 7"
    "n_node_id (demo_node ''a'' 0 (Some 10)) = ''a''" "n_public_host (demo_node ''a'' 0 (Some 10)) = ''a.example''"
    "trimmed (rt_req_subdomain nas_request) = None" "rt_req_device_id nas_request = Some 9"
    "rt_req_create_new nas_request = False"
    by (simp_all add: demo_env_def demo_owner_def demo_node_def nas_request_def)
  have a: "app_db (demo_app db) = db" "(demo_app db)\<lparr>app_db := db'\<rparr> = demo_app db'" for db db'
    by (simp_all add: demo_app_def)
  show ?thesis
    unfolding request_tunnel_def Let_def a c r f m not_False_eq_True sum.case res prod.case by blast
qed


end
