(* ===== verification/Agent.thy ===== *)
theory Agent
  imports Proto
begin

text \<open>
  The agent (\<^verbatim>\<open>natforge-agent/src\<close>): the command line, the ways to a session token (\<^verbatim>\<open>auth.rs\<close>), the
  enrollment of a device (\<^verbatim>\<open>device.rs\<close>), the pinned control connection (\<^verbatim>\<open>tls.rs\<close>) and the service host
  (\<^verbatim>\<open>service_host.rs\<close>): reservation, the reconnect loop, the supervisor of an enrolled device, the control
  handshake and the relaying of one stream. What the HTTP client, the sockets, the file system and the
  hash function answer is a parameter; a loop without an end is a function of the answers it has seen.
\<close>

section \<open>Command line\<close>

record RouteSpec =
  sp_mode :: RouteMode
  sp_local_port :: u16

definition mode_of_str :: "string \<Rightarrow> RouteMode option" where
  "mode_of_str s =
     (if s = ''http'' then Some Http
      else if s = ''https'' then Some Https
      else if s = ''tcp'' then Some Tcp
      else if s = ''udp'' then Some Udp
      else if s = ''both'' then Some Both
      else None)"

fun parse_specs :: "string list \<Rightarrow> string + RouteSpec list" where
  "parse_specs [] = Inr []"
| "parse_specs (spec # specs) =
     (case split_once CHR '':'' spec of
        None \<Rightarrow> Inl (''invalid --route '' @ quoted spec @ '', expected <local_port>:<http|https|tcp|udp|both>'')
      | Some (port_s, mode_s) \<Rightarrow>
          (case parse_uint 65535 port_s of
             None \<Rightarrow> Inl (''invalid port in --route '' @ quoted spec)
           | Some p \<Rightarrow>
               (case mode_of_str mode_s of
                  None \<Rightarrow> Inl (''invalid mode '' @ quoted mode_s @ '' in --route '' @ quoted spec)
                | Some m \<Rightarrow>
                    and_then (parse_specs specs)
                      (\<lambda>out. Inr (\<lparr> sp_mode = m, sp_local_port = word_of_nat p \<rparr> # out)))))"

definition parse_routes :: "string list \<Rightarrow> u16 option \<Rightarrow> string + RouteSpec list" where
  "parse_routes routes local_port =
     and_then (parse_specs routes) (\<lambda>out.
       let out = out @ (case local_port of Some p \<Rightarrow> [\<lparr> sp_mode = Tcp, sp_local_port = p \<rparr>] | None \<Rightarrow> [])
       in if out = [] then Inl ''specify at least one --route <local_port>:<mode> (or --local-port)'' else Inr out)"

section \<open>Calls to the control plane\<close>

text \<open>
  An answer of the HTTP client: the request failed; or a status, the text of the body if it could be
  read, and the body as the caller's type.
\<close>

datatype 'a response = SendFailed string | Responded nat "string option" "string + 'a"

record HttpReq =
  hq_url :: string
  hq_bearer :: "string option"
  hq_body :: "Json option"

definition is_success :: "nat \<Rightarrow> bool" where
  "is_success code \<longleftrightarrow> 200 \<le> code \<and> code < 300"

text \<open>\<^verbatim>\<open>response.json().await?\<close> without a look at the status.\<close>

definition decoded :: "'a response \<Rightarrow> string + 'a" where
  "decoded resp = (case resp of SendFailed e \<Rightarrow> Inl e | Responded _ _ body \<Rightarrow> body)"

section \<open>Session tokens\<close>

record DeviceStart =
  dst_device_code :: string
  dst_user_code :: string
  dst_verification_uri :: string
  dst_interval :: u32

record DeviceToken =
  dt_status :: string
  dt_token :: "string option"

definition login_request :: "string \<Rightarrow> string \<Rightarrow> string \<Rightarrow> HttpReq" where
  "login_request control_plane email password =
     \<lparr> hq_url = control_plane @ ''/api/auth/login'', hq_bearer = None,
       hq_body = Some (JObj [(''email'', JStr email), (''password'', JStr password)]) \<rparr>"

definition login :: "(nat \<Rightarrow> string) \<Rightarrow> string response \<Rightarrow> string + string" where
  "login show_status resp =
     (case resp of
        SendFailed e \<Rightarrow> Inl e
      | Responded code _ body \<Rightarrow> if is_success code then body else Inl (''login failed: '' @ show_status code))"

definition poll_request :: "string \<Rightarrow> string \<Rightarrow> string \<Rightarrow> HttpReq" where
  "poll_request control_plane path device_code =
     \<lparr> hq_url = control_plane @ path, hq_bearer = None,
       hq_body = Some (JObj [(''device_code'', JStr device_code)]) \<rparr>"

text \<open>What an answer to a poll makes of the loop: \<^verbatim>\<open>continue\<close>, or a result.\<close>

definition token_poll :: "DeviceToken response \<Rightarrow> (string + string) option" where
  "token_poll resp =
     (case decoded resp of
        Inl e \<Rightarrow> Some (Inl e)
      | Inr poll \<Rightarrow>
          if dt_status poll = ''approved''
          then Some (case dt_token poll of Some t \<Rightarrow> Inr t | None \<Rightarrow> Inl ''approved without token'')
          else if dt_status poll = ''authorization_pending'' then None
          else Some (Inl (''device authorization failed: '' @ dt_status poll)))"

text \<open>A polling loop over the answers seen so far: \<^const>\<open>None\<close> while it still polls.\<close>

fun poll_loop :: "('a \<Rightarrow> (string + 'b) option) \<Rightarrow> 'a list \<Rightarrow> (string + 'b) option" where
  "poll_loop step [] = None"
| "poll_loop step (a # as) = (case step a of None \<Rightarrow> poll_loop step as | Some r \<Rightarrow> Some r)"

definition device_flow ::
    "DeviceStart response \<Rightarrow> DeviceToken response list \<Rightarrow> (string + string) option" where
  "device_flow start polls =
     (case decoded start of Inl e \<Rightarrow> Some (Inl e) | Inr _ \<Rightarrow> poll_loop token_poll polls)"

text \<open>The pause between two polls, in seconds.\<close>

definition poll_interval :: "u32 \<Rightarrow> nat" where
  "poll_interval interval = max (unat interval) 1"

definition obtain_token ::
    "(nat \<Rightarrow> string) \<Rightarrow> string option \<Rightarrow> string option \<Rightarrow> string option \<Rightarrow> string response
     \<Rightarrow> DeviceStart response \<Rightarrow> DeviceToken response list \<Rightarrow> (string + string) option" where
  "obtain_token show_status token email password login_answer start polls =
     (case token of
        Some t \<Rightarrow> Some (Inr t)
      | None \<Rightarrow>
          (case (email, password) of
             (Some e, Some p) \<Rightarrow> Some (login show_status login_answer)
           | _ \<Rightarrow> device_flow start polls))"

section \<open>The enrolled device\<close>

record StoredDevice =
  sd_control_plane :: string
  sd_device_id :: int
  sd_name :: string
  sd_device_token :: string

record EnrollStart =
  en_device_code :: string
  en_user_code :: string
  en_interval :: u32

record EnrollPoll =
  ep_status :: string
  ep_device_token :: "string option"
  ep_device_id :: "int option"
  ep_name :: "string option"

definition enroll_poll :: "string \<Rightarrow> EnrollPoll response \<Rightarrow> (string + StoredDevice) option" where
  "enroll_poll control_plane resp =
     (case decoded resp of
        Inl e \<Rightarrow> Some (Inl e)
      | Inr poll \<Rightarrow>
          if ep_status poll = ''approved'' then
            Some (case ep_device_token poll of
                    None \<Rightarrow> Inl ''approved without a token''
                  | Some t \<Rightarrow>
                      (case ep_device_id poll of
                         None \<Rightarrow> Inl ''approved without a device id''
                       | Some did \<Rightarrow>
                           Inr \<lparr> sd_control_plane = control_plane, sd_device_id = did,
                                 sd_name = (case ep_name poll of Some n \<Rightarrow> n | None \<Rightarrow> ''device''), sd_device_token = t \<rparr>))
          else if ep_status poll = ''authorization_pending'' then None
          else Some (Inl (''enrollment failed: '' @ ep_status poll)))"

definition enroll ::
    "string \<Rightarrow> EnrollStart response \<Rightarrow> EnrollPoll response list \<Rightarrow> (string + StoredDevice) option" where
  "enroll control_plane start polls =
     (case decoded start of Inl e \<Rightarrow> Some (Inl e) | Inr _ \<Rightarrow> poll_loop (enroll_poll control_plane) polls)"

text \<open>
  The file that keeps it. The file system is a map from paths to contents; \<^verbatim>\<open>to_json\<close> and \<^verbatim>\<open>from_json\<close> are
  the serialisation library, and a write that the system refuses is its error.
\<close>

type_synonym Files = "string \<Rightarrow> string option"

definition config_dir :: "string option \<Rightarrow> string + string" where
  "config_dir home = (case home of None \<Rightarrow> Inl ''HOME is not set'' | Some h \<Rightarrow> Inr (h @ ''/.config/natforge''))"

definition config_path :: "string option \<Rightarrow> string + string" where
  "config_path home = and_then (config_dir home) (\<lambda>d. Inr (d @ ''/device.json''))"

definition load_device :: "(string \<Rightarrow> string + StoredDevice) \<Rightarrow> string option \<Rightarrow> Files \<Rightarrow> string + StoredDevice" where
  "load_device from_json home fs =
     and_then (config_path home) (\<lambda>path.
       case fs path of
         None \<Rightarrow> Inl (''no enrolled device at '' @ path @ '' - run `natforge enroll` first'')
       | Some text \<Rightarrow> from_json text)"

definition save_device ::
    "(StoredDevice \<Rightarrow> string) \<Rightarrow> (string \<Rightarrow> string option) \<Rightarrow> string option \<Rightarrow> StoredDevice \<Rightarrow> Files \<Rightarrow> string + Files" where
  "save_device to_json refused home dev fs =
     and_then (config_path home) (\<lambda>path.
       case refused path of Some e \<Rightarrow> Inl e | None \<Rightarrow> Inr (fs(path \<mapsto> to_json dev)))"

section \<open>The pinned certificate\<close>

definition hex_digit :: "nat \<Rightarrow> char" where
  "hex_digit n = ''0123456789abcdef'' ! n"

definition hex_byte :: "byte \<Rightarrow> string" where
  "hex_byte b = [hex_digit (byte_val b div 16), hex_digit (byte_val b mod 16)]"

text \<open>\<^verbatim>\<open>sha256\<close> is the digest of the certificate's DER bytes.\<close>

definition fingerprint_of :: "(bytes \<Rightarrow> bytes) \<Rightarrow> bytes \<Rightarrow> string" where
  "fingerprint_of sha256 cert = concat (map hex_byte (sha256 cert))"

definition verify_server_cert :: "(bytes \<Rightarrow> bytes) \<Rightarrow> string \<Rightarrow> bytes \<Rightarrow> string + unit" where
  "verify_server_cert sha256 pinned cert =
     (let got = fingerprint_of sha256 cert in
      ensure (eq_ignore_ascii_case got pinned)
        (''control certificate fingerprint mismatch (pinned '' @ pinned @ '', presented '' @ got @ '')''))"

section \<open>Reservation\<close>

record AgentRoute =
  ar_route_id :: u16
  ar_mode :: RouteMode
  ar_local_port :: u16
  ar_public_endpoint :: string

record Reservation =
  rsv_tunnel_id :: int
  rsv_subdomain :: string
  rsv_full_host :: string
  rsv_tunnel_token :: string
  rsv_routes :: "AgentRoute list"
  rsv_control_endpoint :: string
  rsv_region :: "string option"
  rsv_node_id :: string
  rsv_control_cert_fingerprint :: "string option"

definition spec_json :: "RouteSpec \<Rightarrow> Json" where
  "spec_json s = JObj [(''mode'', JStr (as_str (sp_mode s))), (''local_port'', JInt (int (unat (sp_local_port s))))]"

definition reserve_request :: "string \<Rightarrow> string \<Rightarrow> RouteSpec list \<Rightarrow> string option \<Rightarrow> HttpReq" where
  "reserve_request control_plane session_token specs node =
     \<lparr> hq_url = control_plane @ ''/api/tunnels/request'', hq_bearer = Some session_token,
       hq_body = Some (JObj ((''routes'', JArr (map spec_json specs))
                             # (case node of Some n \<Rightarrow> [(''node_id'', JStr n)] | None \<Rightarrow> []))) \<rparr>"

text \<open>A refusal is reported with its status and text.\<close>

definition accepted :: "(nat \<Rightarrow> string) \<Rightarrow> string \<Rightarrow> 'a response \<Rightarrow> string + 'a" where
  "accepted show_status what resp =
     (case resp of
        SendFailed e \<Rightarrow> Inl e
      | Responded code text body \<Rightarrow>
          if is_success code then body
          else Inl (what @ '' failed: '' @ show_status code @ '' '' @ (case text of Some t \<Rightarrow> t | None \<Rightarrow> [])))"

definition reserve :: "(nat \<Rightarrow> string) \<Rightarrow> Reservation response \<Rightarrow> string + Reservation" where
  "reserve show_status resp = accepted show_status ''tunnel request'' resp"

definition config_request :: "string \<Rightarrow> string \<Rightarrow> HttpReq" where
  "config_request control_plane device_token =
     \<lparr> hq_url = control_plane @ ''/api/devices/me/config'', hq_bearer = Some device_token, hq_body = None \<rparr>"

definition fetch_config :: "(nat \<Rightarrow> string) \<Rightarrow> Reservation list response \<Rightarrow> string + Reservation list" where
  "fetch_config show_status resp = accepted show_status ''config fetch'' resp"

definition target :: "string option \<Rightarrow> Reservation \<Rightarrow> string" where
  "target tunnel_server r = (case tunnel_server of Some v \<Rightarrow> v | None \<Rightarrow> rsv_control_endpoint r)"

text \<open>
  The reconnect loop: the connections made, with where and for which reservation, given the outcome of
  the re-reservation after each session. How a session ended does not matter to it.
\<close>

fun run_loop :: "string option \<Rightarrow> Reservation \<Rightarrow> (string + Reservation) list \<Rightarrow> (string \<times> Reservation) list" where
  "run_loop ts r [] = [(target ts r, r)]"
| "run_loop ts r (Inl _ # outs) = (target ts r, r) # run_loop ts r outs"
| "run_loop ts r (Inr r' # outs) = (target ts r, r) # run_loop ts r' outs"

definition run ::
    "string option \<Rightarrow> string + Reservation \<Rightarrow> (string + Reservation) list \<Rightarrow> string + (string \<times> Reservation) list" where
  "run ts first outs = and_then first (\<lambda>r. Inr (run_loop ts r outs))"

section \<open>The supervisor of an enrolled device\<close>

text \<open>
  A serve task: where it connects, for which reservation, and whether it has ended. A task that is
  aborted is dropped from the table.
\<close>

record ServeTask =
  tk_target :: string
  tk_reservation :: Reservation
  tk_finished :: bool

type_synonym ServeTasks = "int \<Rightarrow> ServeTask option"

definition retain_tasks :: "int set \<Rightarrow> ServeTasks \<Rightarrow> ServeTasks" where
  "retain_tasks wanted tasks =
     (\<lambda>tid. case tasks tid of
              Some t \<Rightarrow> if tid \<notin> wanted then None else if \<not> tk_finished t then Some t else None
            | None \<Rightarrow> None)"

definition aborted_tasks :: "int set \<Rightarrow> ServeTasks \<Rightarrow> int set" where
  "aborted_tasks wanted tasks = {tid. tasks tid \<noteq> None \<and> tid \<notin> wanted}"

fun spawn_tasks :: "string option \<Rightarrow> Reservation list \<Rightarrow> ServeTasks \<Rightarrow> ServeTasks" where
  "spawn_tasks ts [] tasks = tasks"
| "spawn_tasks ts (r # rs) tasks =
     (if tasks (rsv_tunnel_id r) \<noteq> None then spawn_tasks ts rs tasks
      else spawn_tasks ts rs
             (tasks(rsv_tunnel_id r \<mapsto> \<lparr> tk_target = target ts r, tk_reservation = r, tk_finished = False \<rparr>)))"

record Supervisor =
  sv_tasks :: ServeTasks
  sv_was_empty :: bool

text \<open>One turn of the loop, and the seconds it sleeps afterwards.\<close>

definition device_cycle ::
    "string option \<Rightarrow> string + Reservation list \<Rightarrow> Supervisor \<Rightarrow> Supervisor \<times> nat" where
  "device_cycle ts fetched sv =
     (case fetched of
        Inl _ \<Rightarrow> (sv, 5)
      | Inr services \<Rightarrow>
          let wanted = rsv_tunnel_id ` set services;
              tasks = spawn_tasks ts services (retain_tasks wanted (sv_tasks sv))
          in (\<lparr> sv_tasks = tasks, sv_was_empty = (wanted = {}) \<rparr>, 3))"

definition new_supervisor :: Supervisor where
  "new_supervisor = \<lparr> sv_tasks = (\<lambda>_. None), sv_was_empty = False \<rparr>"

text \<open>The supervisor and its tasks: a turn of the loop, or the end of a task's session.\<close>

inductive sv_step :: "string option \<Rightarrow> Supervisor \<Rightarrow> Supervisor \<Rightarrow> bool" for ts where
  sv_cycle: "device_cycle ts fetched sv = (sv', pause) \<Longrightarrow> sv_step ts sv sv'"
| sv_ended: "sv_tasks sv tid = Some t \<Longrightarrow>
    sv_step ts sv (sv\<lparr>sv_tasks := (sv_tasks sv)(tid \<mapsto> t\<lparr>tk_finished := True\<rparr>)\<rparr>)"

inductive sv_reachable :: "string option \<Rightarrow> Supervisor \<Rightarrow> bool" for ts where
  sv_init: "sv_reachable ts new_supervisor"
| sv_next: "sv_reachable ts sv \<Longrightarrow> sv_step ts sv sv' \<Longrightarrow> sv_reachable ts sv'"

section \<open>The control handshake\<close>

type_synonym RouteMap = "u16 \<Rightarrow> (RouteMode \<times> u16) option"

definition route_map :: "AgentRoute list \<Rightarrow> RouteMap" where
  "route_map rs = fold (\<lambda>r m. m(ar_route_id r \<mapsto> (ar_mode r, ar_local_port r))) rs (\<lambda>_. None)"

definition hello_of :: "Reservation \<Rightarrow> AgentHello" where
  "hello_of r =
     \<lparr> hello_token = rsv_tunnel_token r, hello_role = ROLE_SERVICE_HOST,
       hello_routes = map (\<lambda>x. \<lparr> b_route_id = ar_route_id x, b_local_port = ar_local_port x \<rparr>) (rsv_routes r) \<rparr>"

text \<open>
  The connection to the node, as the agent sees it: whether the socket opens; the certificate presented
  and what the rest of the TLS handshake says; the JSON library; whether the hello can be written; the
  bytes the node answers with.
\<close>

record NodeLink =
  lk_connect :: "string \<Rightarrow> string + unit"
  lk_certificate :: bytes
  lk_handshake :: "string + unit"
  lk_sha256 :: "bytes \<Rightarrow> bytes"
  lk_encode :: "AgentHello \<Rightarrow> string + bytes"
  lk_write :: "bytes \<Rightarrow> string + unit"
  lk_input :: bytes
  lk_decode :: "bytes \<Rightarrow> string + CoreReply"
  lk_show :: "proto_error \<Rightarrow> string"

definition tls_connect :: "NodeLink \<Rightarrow> string \<Rightarrow> string + unit" where
  "tls_connect lk fingerprint =
     and_then (verify_server_cert (lk_sha256 lk) fingerprint (lk_certificate lk)) (\<lambda>_. lk_handshake lk)"

definition map_error :: "('a \<Rightarrow> 'b) \<Rightarrow> 'a + 'c \<Rightarrow> 'b + 'c" where
  "map_error f r = (case r of Inl e \<Rightarrow> Inl (f e) | Inr x \<Rightarrow> Inr x)"

text \<open>
  \<^verbatim>\<open>connect_and_serve\<close> up to the yamux session; a session that has started ends with \<^verbatim>\<open>Ok\<close>. The value is
  the route table its streams are handled with.
\<close>

definition connect_and_serve :: "NodeLink \<Rightarrow> string \<Rightarrow> Reservation \<Rightarrow> string + RouteMap" where
  "connect_and_serve lk server r =
     and_then (lk_connect lk server) (\<lambda>_.
     and_then (case rsv_control_cert_fingerprint r of
                 Some v \<Rightarrow> Inr v
               | None \<Rightarrow> Inl ''reservation did not include a control certificate fingerprint'') (\<lambda>fp.
     and_then (tls_connect lk fp) (\<lambda>_.
     and_then (lk_encode lk (hello_of r)) (\<lambda>body.
     and_then (lk_write lk (write_frame body)) (\<lambda>_.
     and_then (map_error (lk_show lk) (read_frame (lk_input lk))) (\<lambda>(frame, _).
     and_then (lk_decode lk frame) (\<lambda>reply.
       case reply of
         ReplyOk _ _ _ \<Rightarrow> Inr (route_map (rsv_routes r))
       | ReplyError message \<Rightarrow> Inl (''core proxy rejected tunnel: '' @ message))))))))"

section \<open>One stream\<close>

datatype dial = Refused string | ReplayLost string | Dialled

text \<open>What became of a stream; a bridged one carries the bytes that reach the local service.\<close>

datatype stream_end =
    BadPreamble proto_error
  | UnknownRoute u16
  | UdpFlow u16 bytes
  | LocalRefused u16 string
  | ReplayFailed u16 string
  | Bridged u16 bytes

definition handle_stream :: "(u16 \<Rightarrow> dial) \<Rightarrow> RouteMap \<Rightarrow> bytes \<Rightarrow> stream_end" where
  "handle_stream dial routes s =
     (case read_preamble s of
        Inl e \<Rightarrow> BadPreamble e
      | Inr ((rid, _, replay), rest) \<Rightarrow>
          (case routes rid of
             None \<Rightarrow> UnknownRoute rid
           | Some (mode, port) \<Rightarrow>
               if mode = Udp then UdpFlow port rest
               else case dial port of
                      Refused e \<Rightarrow> LocalRefused port e
                    | ReplayLost e \<Rightarrow> if replay = [] then Bridged port rest else ReplayFailed port e
                    | Dialled \<Rightarrow> Bridged port (replay @ rest)))"

text \<open>
  The two directions of a datagram flow. A direction stops at the first failure; \<^verbatim>\<open>ok\<close> says which sends
  succeed.
\<close>

fun send_while :: "('a \<Rightarrow> bool) \<Rightarrow> 'a list \<Rightarrow> 'a list" where
  "send_while ok [] = []"
| "send_while ok (d # ds) = (if ok d then d # send_while ok ds else [])"

definition relay_downstream :: "(bytes \<Rightarrow> bool) \<Rightarrow> bytes \<Rightarrow> bytes list" where
  "relay_downstream ok s = send_while ok (read_datagrams s)"

definition relay_upstream :: "(bytes \<Rightarrow> bool) \<Rightarrow> bytes list \<Rightarrow> bytes" where
  "relay_upstream ok received = concat (send_while ok (map write_datagram received))"

section \<open>The background service\<close>

definition service_unit_path :: "string option \<Rightarrow> string + string" where
  "service_unit_path home =
     (case home of None \<Rightarrow> Inl ''HOME is not set'' | Some h \<Rightarrow> Inr (h @ ''/.config/systemd/user/natforge.service''))"

text \<open>\<^verbatim>\<open>status\<close> is the outcome of a command: it could not be started, or its exit status as text and whether it succeeded.\<close>

type_synonym commands = "string \<Rightarrow> string list \<Rightarrow> string + string \<times> bool"

definition sh :: "commands \<Rightarrow> string \<Rightarrow> string list \<Rightarrow> string + unit" where
  "sh status cmd args =
     (case status cmd args of
        Inl e \<Rightarrow> Inl (''could not run `'' @ cmd @ ''` ('' @ e @ ''); is systemd installed?'')
      | Inr (text, ok) \<Rightarrow>
          if ok then Inr () else Inl (CHR ''`'' # cmd @ '' '' @ join '' '' args @ ''` failed ('' @ text @ '')''))"

definition nl :: string where
  "nl = [CHR 0x0A]"

definition unit_file :: "string \<Rightarrow> string" where
  "unit_file exe =
     ''[Unit]'' @ nl @ ''Description=NatForge agent'' @ nl @ nl @ ''[Service]'' @ nl @ ''ExecStart='' @ exe @ '' run'' @ nl
     @ ''Restart=always'' @ nl @ ''RestartSec=5'' @ nl @ nl @ ''[Install]'' @ nl @ ''WantedBy=default.target'' @ nl"

text \<open>The error, or nothing, and the files left behind.\<close>

definition install_service :: "commands \<Rightarrow> string + string \<Rightarrow> string option \<Rightarrow> Files \<Rightarrow> (string + unit) \<times> Files" where
  "install_service status exe home fs =
     (case and_then exe (\<lambda>e. and_then (service_unit_path home) (\<lambda>path. Inr (e, path))) of
        Inl e \<Rightarrow> (Inl e, fs)
      | Inr (e, path) \<Rightarrow>
          (and_then (sh status ''systemctl'' [''--user'', ''daemon-reload'']) (\<lambda>_.
             sh status ''systemctl'' [''--user'', ''enable'', ''--now'', ''natforge.service'']),
           fs(path \<mapsto> unit_file e)))"

definition uninstall_service :: "string option \<Rightarrow> Files \<Rightarrow> Files" where
  "uninstall_service home fs =
     (case service_unit_path home of Inl _ \<Rightarrow> fs | Inr path \<Rightarrow> fs(path := None))"

end
