(* ===== verification/AgentProps.thy ===== *)
theory AgentProps
  imports Agent Router
begin

text \<open>
  The agent and the node together: command-line routes, the pinned certificate, the supervisor's task
  table, and the path of a public connection's bytes from the node's router to the local service.
\<close>

section \<open>Command line\<close>

definition spec_text :: "RouteSpec \<Rightarrow> string" where
  "spec_text s = nat_str (unat (sp_local_port s)) @ '':'' @ as_str (sp_mode s)"

lemma mode_of_as_str [simp]: "mode_of_str (as_str m) = Some m"
  by (cases m) (simp_all add: mode_of_str_def)

lemma parse_one_spec:
  "parse_specs (spec_text s # specs) = and_then (parse_specs specs) (\<lambda>out. Inr (s # out))"
proof (cases s)
  case (fields m p)
  have "unat p \<le> 65535" using unsigned_less [of p, where 'a = nat] by simp
  moreover have "CHR '':'' \<notin> set (nat_str (unat p))"
    using nat_str_free by simp
  ultimately show ?thesis by (simp add: fields spec_text_def split_once_append parse_uint_nat_str)
qed

lemma parse_specs_text: "parse_specs (map spec_text specs) = Inr specs"
  by (induction specs) (simp_all add: parse_one_spec del: parse_specs.simps(2))

section \<open>The pinned certificate\<close>

lemma hex_digit_inj: "m < 16 \<Longrightarrow> n < 16 \<Longrightarrow> hex_digit m = hex_digit n \<Longrightarrow> m = n"
proof -
  have "distinct ''0123456789abcdef''" by simp
  then show "m < 16 \<Longrightarrow> n < 16 \<Longrightarrow> hex_digit m = hex_digit n \<Longrightarrow> m = n"
    by (simp add: hex_digit_def nth_eq_iff_index_eq del: distinct.simps)
qed

lemma nibbles: "byte_val x div 16 < 16" "byte_val x mod 16 < 16"
  by (rule less_mult_imp_div_less) (use of_char_less_256 [of x] in simp_all)

lemma hex_byte_inj: "hex_byte b = hex_byte c \<longleftrightarrow> b = c"
proof
  assume "hex_byte b = hex_byte c"
  then have "hex_digit (byte_val b div 16) = hex_digit (byte_val c div 16)" "hex_digit (byte_val b mod 16) = hex_digit (byte_val c mod 16)"
    by (simp_all add: hex_byte_def)
  then have "byte_val b div 16 = byte_val c div 16" "byte_val b mod 16 = byte_val c mod 16"
    using hex_digit_inj nibbles by blast+
  then have "byte_val b = byte_val c" by (metis div_mult_mod_eq)
  then show "b = c" by simp
qed simp

lemma concat_hex_inj: "concat (map hex_byte bs) = concat (map hex_byte cs) \<longleftrightarrow> bs = cs"
proof (induction bs arbitrary: cs)
  case Nil
  then show ?case by (cases cs) (simp_all add: hex_byte_def)
next
  case (Cons b bs)
  have two: "length (hex_byte x) = 2" for x by (simp add: hex_byte_def)
  then have "hex_byte x \<noteq> []" for x by (metis list.size(3) zero_neq_numeral)
  then show ?case using Cons by (cases cs) (simp_all add: append_eq_append_conv two hex_byte_inj)
qed

lemma hex_lower: "to_ascii_lowercase (concat (map hex_byte bs)) = concat (map hex_byte bs)"
proof -
  have "\<forall>n < 16. \<not> is_ascii_upper (hex_digit n)"
    by (simp add: hex_digit_def is_ascii_upper_def All_less_Suc numeral_eq_Suc)
  then have "ascii_lower c = c" if "c \<in> set (hex_byte x)" for c x
    using that nibbles [of x] by (auto simp: hex_byte_def)
  then show ?thesis by (induction bs) (simp_all add: to_ascii_lowercase_def map_idI)
qed

text \<open>
  The agent accepts a node's certificate exactly if its digest is the digest the pinned fingerprint
  was made of, whatever the case of the pinned text; so a node whose certificate has another SHA-256
  digest is refused.
\<close>

theorem pinning_exact:
  assumes "to_ascii_lowercase pinned = fingerprint_of sha256 cert"
  shows "verify_server_cert sha256 pinned presented = Inr () \<longleftrightarrow> sha256 presented = sha256 cert"
  using assms by (simp add: verify_server_cert_def Let_def eq_ignore_ascii_case_def hex_lower concat_hex_inj fingerprint_of_def)

theorem pinning_exact_witness:
  "verify_server_cert (take 1) ''4A'' ''Jx'' = Inr () \<and> verify_server_cert (take 1) ''4A'' ''Kx'' \<noteq> Inr ()"
proof -
  have "to_ascii_lowercase ''4A'' = fingerprint_of (take 1) ''J''" by code_simp
  then show ?thesis using pinning_exact [of "''4A''" "take 1" "''J''" "''Jx''"] pinning_exact [of "''4A''" "take 1" "''J''" "''Kx''"]
    by simp
qed

section \<open>The supervisor\<close>

lemma retain_tasks_Some:
  "retain_tasks wanted tasks tid = Some t \<longleftrightarrow> tasks tid = Some t \<and> tid \<in> wanted \<and> \<not> tk_finished t"
  by (auto simp: retain_tasks_def split: option.splits if_splits)

definition fresh_task :: "string option \<Rightarrow> Reservation \<Rightarrow> ServeTask" where
  "fresh_task ts r = \<lparr> tk_target = target ts r, tk_reservation = r, tk_finished = False \<rparr>"

lemma spawn_tasks_lookup:
  "spawn_tasks ts rs tasks tid =
     (case tasks tid of
        Some t \<Rightarrow> Some t
      | None \<Rightarrow> map_option (fresh_task ts) (find (\<lambda>r. rsv_tunnel_id r = tid) rs))"
  by (induction ts rs tasks rule: spawn_tasks.induct)
    (auto simp: fresh_task_def [symmetric] fun_upd_def split: option.splits)

definition own_tasks :: "ServeTasks \<Rightarrow> bool" where
  "own_tasks tasks \<longleftrightarrow> (\<forall>tid t. tasks tid = Some t \<longrightarrow> rsv_tunnel_id (tk_reservation t) = tid)"

lemma cycle_own: "own_tasks (sv_tasks sv) \<Longrightarrow> device_cycle ts fetched sv = (sv', pause) \<Longrightarrow> own_tasks (sv_tasks sv')"
proof (cases fetched)
  case (Inr services)
  assume own: "own_tasks (sv_tasks sv)" and "device_cycle ts fetched sv = (sv', pause)"
  then have sv': "sv_tasks sv' = spawn_tasks ts services (retain_tasks (rsv_tunnel_id ` set services) (sv_tasks sv))"
    unfolding Inr device_cycle_def Let_def sum.case by (metis Supervisor.select_convs(1) fst_conv)
  have new: "find (\<lambda>r. rsv_tunnel_id r = tid) services = Some r \<Longrightarrow> rsv_tunnel_id r = tid" for tid r
    by (auto simp: find_Some_iff)
  show ?thesis
    unfolding own_tasks_def
  proof (intro allI impI)
    fix tid t assume t: "sv_tasks sv' tid = Some t"
    show "rsv_tunnel_id (tk_reservation t) = tid"
    proof (cases "retain_tasks (rsv_tunnel_id ` set services) (sv_tasks sv) tid")
      case None
      then obtain r where r: "find (\<lambda>r. rsv_tunnel_id r = tid) services = Some r" "t = fresh_task ts r"
        using t by (auto simp: sv' spawn_tasks_lookup)
      show ?thesis using new [OF r(1)] by (simp add: fresh_task_def r(2))
    next
      case (Some u)
      then have "sv_tasks sv tid = Some t" using t unfolding sv' spawn_tasks_lookup Some retain_tasks_Some option.case by (metis Some retain_tasks_Some)
      then show ?thesis using own unfolding own_tasks_def by blast
    qed
  qed
qed (simp add: device_cycle_def)

lemma reachable_own: "sv_reachable ts sv \<Longrightarrow> own_tasks (sv_tasks sv)"
proof (induction rule: sv_reachable.induct)
  case sv_init
  then show ?case by (simp add: own_tasks_def new_supervisor_def)
next
  case (sv_next sv sv')
  from sv_next(2) show ?case
  proof (cases rule: sv_step.cases)
    case (sv_cycle fetched pause)
    then show ?thesis using cycle_own [OF sv_next(3)] by blast
  next
    case (sv_ended tid t)
    then show ?thesis using sv_next(3) by (simp add: own_tasks_def)
  qed
qed


definition demo_reservation :: "int \<Rightarrow> string \<Rightarrow> Reservation" where
  "demo_reservation tid sub =
     \<lparr> rsv_tunnel_id = tid, rsv_subdomain = sub, rsv_full_host = sub @ ''.a.example'', rsv_tunnel_token = sub,
       rsv_routes = [\<lparr> ar_route_id = 1, ar_mode = Http, ar_local_port = 8080, ar_public_endpoint = [] \<rparr>,
                    \<lparr> ar_route_id = 2, ar_mode = Udp, ar_local_port = 53, ar_public_endpoint = [] \<rparr>],
       rsv_control_endpoint = ''a.example:4000'', rsv_region = None, rsv_node_id = ''a'',
       rsv_control_cert_fingerprint = Some ''4a'' \<rparr>"


section \<open>The reconnect loop\<close>

text \<open>The reservation in force after some outcomes of the re-reservation.\<close>

definition latest :: "Reservation \<Rightarrow> (string + Reservation) list \<Rightarrow> Reservation" where
  "latest r outs = fold (\<lambda>out r. case out of Inl _ \<Rightarrow> r | Inr r' \<Rightarrow> r') outs r"

lemma run_loop_map:
  "run_loop ts r outs = map (\<lambda>k. (target ts (latest r (take k outs)), latest r (take k outs))) [0..<Suc (length outs)]"
proof (induction ts r outs rule: run_loop.induct)
  case (1 ts r)
  then show ?case by (simp add: latest_def)
next
  case (2 ts r e outs)
  then show ?case by (simp add: latest_def upt_conv_Cons map_Suc_upt [symmetric] del: upt_Suc map_Suc_upt)
next
  case (3 ts r r' outs)
  then show ?case by (simp add: latest_def upt_conv_Cons map_Suc_upt [symmetric] del: upt_Suc map_Suc_upt)
qed

text \<open>
  The agent never gives up. Once the first reservation succeeded, every outcome of a re-reservation,
  failure included, is followed by one more connection, and the connection after k of them goes to the
  node of the last reservation that succeeded, or to the address given on the command line.
\<close>

theorem reconnects_with_latest:
  assumes "run ts (Inr r) outs = Inr conns"
  shows "length conns = Suc (length outs)
    \<and> (\<forall>k < length conns. snd (conns ! k) = latest r (take k outs)
         \<and> fst (conns ! k) = (case ts of Some v \<Rightarrow> v | None \<Rightarrow> rsv_control_endpoint (latest r (take k outs))))"
proof -
  have c: "conns = map (\<lambda>k. (target ts (latest r (take k outs)), latest r (take k outs))) [0..<Suc (length outs)]"
    using assms by (simp add: run_def run_loop_map)
  then have "length conns = Suc (length outs)" by simp
  then show ?thesis unfolding c by (simp add: nth_append less_Suc_eq target_def split: option.splits)
qed

theorem reconnects_with_latest_witness:
  "\<exists>conns. run None (Inr (demo_reservation 1 ''x'')) [Inl ''down'', Inr (demo_reservation 1 ''z'')] = Inr conns
     \<and> length conns = 3 \<and> rsv_subdomain (snd (conns ! 2)) = ''z''"
proof -
  obtain conns where c: "run None (Inr (demo_reservation 1 ''x'')) [Inl ''down'', Inr (demo_reservation 1 ''z'')] = Inr conns"
    by (simp add: run_def)
  show ?thesis using reconnects_with_latest [OF c] c by (simp add: latest_def demo_reservation_def)
qed

section \<open>From the public socket to the local service\<close>

lemma route_map_lookup:
  assumes "distinct (map ar_route_id rs)"
  shows "route_map rs rid = Some v \<longleftrightarrow> (\<exists>x \<in> set rs. ar_route_id x = rid \<and> v = (ar_mode x, ar_local_port x))"
proof -
  have "fold (\<lambda>r m. m(ar_route_id r \<mapsto> (ar_mode r, ar_local_port r))) rs m rid
    = (case find (\<lambda>x. ar_route_id x = rid) rs of Some x \<Rightarrow> Some (ar_mode x, ar_local_port x) | None \<Rightarrow> m rid)" for m
    using assms
  proof (induction rs arbitrary: m)
    case (Cons y ys)
    have "find (\<lambda>x. ar_route_id x = ar_route_id y) ys = None" using Cons.prems by (auto simp: find_None_iff rev_image_eqI)
    then show ?case using Cons by simp
  qed simp
  then have m: "route_map rs rid = (case find (\<lambda>x. ar_route_id x = rid) rs of Some x \<Rightarrow> Some (ar_mode x, ar_local_port x) | None \<Rightarrow> None)"
    by (simp add: route_map_def)
  have one: "x = y" if "x \<in> set rs" "y \<in> set rs" "ar_route_id x = ar_route_id y" for x y
    using assms that by (simp add: distinct_map inj_on_def)
  show ?thesis
  proof (cases "find (\<lambda>x. ar_route_id x = rid) rs")
    case None
    then have "\<forall>x \<in> set rs. ar_route_id x \<noteq> rid" by (simp add: find_None_iff)
    then show ?thesis using m None by auto
  next
    case (Some y)
    then have y: "y \<in> set rs" "ar_route_id y = rid" by (auto simp: find_Some_iff)
    have r: "route_map rs rid = Some (ar_mode y, ar_local_port y)" using m Some by simp
    show ?thesis unfolding r option.inject using y one by metis
  qed
qed

lemma handle_stream_of_preamble:
  assumes "length replay \<le> MAX_REPLAY"
  shows "handle_stream dial routes (encode_preamble rid peer replay @ rest) =
    (case routes rid of
       None \<Rightarrow> UnknownRoute rid
     | Some (mode, port) \<Rightarrow>
         if mode = Udp then UdpFlow port rest
         else case dial port of
                Refused e \<Rightarrow> LocalRefused port e
              | ReplayLost e \<Rightarrow> if replay = [] then Bridged port rest else ReplayFailed port e
              | Dialled \<Rightarrow> Bridged port (replay @ rest))"
  using read_preamble_encode [OF assms] by (simp add: handle_stream_def)



end
