(* ===== verification/EndToEnd.thy ===== *)
theory EndToEnd
  imports AgentProps DeviceProps
begin

text \<open>
  The agent against the control plane: what it reads in the answer to a reservation and what it then
  dials, and the enrollment of a device from the first poll to the first authenticated request.
\<close>

section \<open>Reading a reservation\<close>

text \<open>The agent's \<^verbatim>\<open>Deserialize\<close> of the answer: the fields it declares, and a mode it knows.\<close>

definition agent_route :: "ReservedRoute \<Rightarrow> AgentRoute option" where
  "agent_route v =
     map_option (\<lambda>m. \<lparr> ar_route_id = rr_route_id v, ar_mode = m, ar_local_port = rr_local_port v,
                        ar_public_endpoint = rr_public_endpoint v \<rparr>)
       (mode_of_str (rr_mode v))"

definition reservation_of :: "TunnelRequestRes \<Rightarrow> Reservation option" where
  "reservation_of ans =
     map_option (\<lambda>rs.
       \<lparr> rsv_tunnel_id = tr_tunnel_id ans, rsv_subdomain = tr_subdomain ans, rsv_full_host = tr_full_host ans,
         rsv_tunnel_token = tr_tunnel_token ans, rsv_routes = rs, rsv_control_endpoint = tr_control_endpoint ans,
         rsv_region = tr_region ans, rsv_node_id = tr_node_id ans,
         rsv_control_cert_fingerprint = tr_control_cert_fingerprint ans \<rparr>)
       (those (map agent_route (tr_routes ans)))"

text \<open>The local endpoints of a requested route: \<^const>\<open>Both\<close> is one of each transport.\<close>

definition offered :: "RequestedRoute \<Rightarrow> (RouteMode \<times> u16) list" where
  "offered q =
     (if rq_mode q = Both then [(Tcp, rq_local_port q), (Udp, rq_local_port q)] else [(rq_mode q, rq_local_port q)])"

lemma those_append: "those xs = Some a \<Longrightarrow> those ys = Some b \<Longrightarrow> those (xs @ ys) = Some (a @ b)"
  by (induction xs arbitrary: a) (auto split: option.splits)

definition endpoint_of :: "AgentRoute \<Rightarrow> RouteMode \<times> u16" where
  "endpoint_of x = (ar_mode x, ar_local_port x)"

lemma mode_names [simp]: "mode_of_str ''tcp'' = Some Tcp" "mode_of_str ''udp'' = Some Udp" "parse_kind ''both'' = Both"
  by (simp_all add: mode_of_str_def parse_kind_def)

lemma expand_answer:
  assumes "answers tid rid (rq_mode q, rq_local_port q, l) row"
  shows "\<exists>xs. those (map agent_route (snd (expand_route row sub host))) = Some xs
     \<and> map endpoint_of xs = offered q \<and> map ar_route_id xs = wire_ids row"
  using assms
  by (cases "rq_mode q = Both")
    (auto simp: answers_def expand_route_def expand_both_def agent_route_def offered_def endpoint_of_def wire_ids_def Let_def)

lemma expand_answers:
  assumes "length rows = length qs"
    and "\<forall>k < length qs. \<exists>rid. answers tid rid (rq_mode (qs ! k), rq_local_port (qs ! k), rq_label (qs ! k)) (rows ! k)"
  shows "\<exists>xs. those (map agent_route (snd (expand_routes rows sub host))) = Some xs
     \<and> map endpoint_of xs = concat (map offered qs) \<and> map ar_route_id xs = concat (map wire_ids rows)"
  using assms
proof (induction rows qs rule: list_induct2)
  case Nil
  then show ?case by (simp add: expand_routes_def)
next
  case (Cons row rows q qs)
  obtain xs where xs: "those (map agent_route (snd (expand_route row sub host))) = Some xs"
    "map endpoint_of xs = offered q" "map ar_route_id xs = wire_ids row"
    using Cons.prems expand_answer [of tid _ q _ row sub host] by fastforce
  have "\<forall>k < length qs. \<exists>rid. answers tid rid (rq_mode (qs ! k), rq_local_port (qs ! k), rq_label (qs ! k)) (rows ! k)"
    using Cons.prems by fastforce
  then obtain ys where ys: "those (map agent_route (snd (expand_routes rows sub host))) = Some ys"
    "map endpoint_of ys = concat (map offered qs)" "map ar_route_id ys = concat (map wire_ids rows)"
    using Cons.IH by blast
  have "snd (expand_routes (row # rows) sub host) = snd (expand_route row sub host) @ snd (expand_routes rows sub host)"
    by (simp add: expand_routes_def)
  then show ?case using xs ys those_append [OF xs(1) ys(1)] by auto
qed

lemma those_fields:
  "those (map agent_route vs) = Some xs \<Longrightarrow>
     map (\<lambda>x. (ar_route_id x, ar_local_port x)) xs = map (\<lambda>v. (rr_route_id v, rr_local_port v)) vs"
  by (induction vs arbitrary: xs) (auto simp: agent_route_def split: option.splits)

lemma hello_decoded:
  assumes "those (map agent_route vs) = Some xs" and "rsv_routes r = xs" and "rsv_tunnel_token r = token"
  shows "hello_of r = hello_for token vs"
proof -
  have "map (\<lambda>(i, p). \<lparr> b_route_id = i, b_local_port = p \<rparr>) (map (\<lambda>x. (ar_route_id x, ar_local_port x)) xs)
    = map (\<lambda>(i, p). \<lparr> b_route_id = i, b_local_port = p \<rparr>) (map (\<lambda>v. (rr_route_id v, rr_local_port v)) vs)"
    by (simp only: those_fields [OF assms(1)])
  then show ?thesis by (simp add: hello_of_def hello_for_def assms(2,3) comp_def)
qed

lemma stored_wire_ids:
  assumes "store_ready db" and "tunnel_rows tid rows db" and "map (\<lambda>r. r\<lparr>r_id := 0\<rparr>) rows = map (\<lambda>r. r\<lparr>r_id := 0\<rparr>) rs"
  shows "distinct (concat (map wire_ids rs))"
proof -
  have w: "wire_ids (x\<lparr>r_id := 0\<rparr>) = wire_ids x" for x by (simp add: wire_ids_def)
  have "map wire_ids (map (\<lambda>r. r\<lparr>r_id := 0\<rparr>) rows) = map wire_ids (map (\<lambda>r. r\<lparr>r_id := 0\<rparr>) rs)"
    by (simp only: assms(3))
  then have "map wire_ids rows = map wire_ids rs" by (simp add: w comp_def)
  then show ?thesis using distinct_wire_ids [OF tunnel_rows_facts(1,2) [OF assms(1,2)]] by simp
qed

text \<open>
  C20: the agent serves what the user asked for. The answer to the first reservation of a set of routes
  decodes, its route ids are distinct, and looking one of them up gives a requested mode and local port;
  every requested endpoint has an id, a \<^verbatim>\<open>both\<close> route one per transport. The hello the agent sends is the
  one the node admits.
\<close>

theorem agent_serves_requested_routes:
  assumes "store_ready (app_db s)" and "request_tunnel env locked draws user req s = (Inr ans, s')"
    and "\<forall>t \<in> set (tunnels_t (app_db s)).
      \<not> same_set (au_user_id user) (route_signature (pairs (to_requests (rt_req_routes req)))) (rt_req_device_id req) t"
  shows "\<exists>r. reservation_of ans = Some r \<and> rsv_tunnel_id r = tr_tunnel_id ans
    \<and> hello_of r = hello_for (tr_tunnel_token ans) (tr_routes ans)
    \<and> distinct (map ar_route_id (rsv_routes r))
    \<and> map endpoint_of (rsv_routes r) = concat (map offered (rt_req_routes req))
    \<and> (\<forall>rid m p. route_map (rsv_routes r) rid = Some (m, p) \<longrightarrow>
         m \<noteq> Both \<and> (\<exists>q \<in> set (rt_req_routes req). rq_local_port q = p \<and> (rq_mode q = m \<or> rq_mode q = Both)))"
proof -
  let ?qs = "rt_req_routes req"
  obtain node rt where chk: "request_checks env user req (app_db s) = Inr node"
    and res: "reserve_tunnel (e_lower env) locked draws (e_now env) (au_user_id user) (n_node_id node)
       (n_public_host node) (to_requests ?qs) (trimmed (rt_req_subdomain req))
       (user_max_tunnels (au_user_id user) (app_db s)) (\<not> rt_req_create_new req) (rt_req_device_id req) (app_db s)
       = Inr (rt, app_db s')"
    and ans: "ans = request_answer env user node rt (app_db s')"
    using request_tunnel_Inr [OF assms(2)] by metis
  have ok: "db_ok (app_db s)" using assms(1) by (simp add: store_ready_def)
  have new: "\<not> rt_reused rt"
    using res
  proof (cases rule: reserve_tunnel_cases)
    case (reused ex)
    then show ?thesis using fetch_optional_Some [OF reused(1)] assms(3) by blast
  qed simp
  have few: "length (to_requests ?qs) \<le> 9999"
    using policy_length request_checks_policy [OF chk] by (fastforce simp: to_requests_def)
  note F = reserve_created [OF ok res new, unfolded fresh_result_def]
  have n: "length (rt_routes rt) = length ?qs" using F by (simp add: to_requests_def)
  have "\<forall>k < length ?qs. \<exists>rid. answers (rt_tunnel_id rt) rid (rq_mode (?qs ! k), rq_local_port (?qs ! k), rq_label (?qs ! k)) (rt_routes rt ! k)"
    using F by (auto simp: to_requests_def)
  then obtain xs where xs: "those (map agent_route (tr_routes ans)) = Some xs"
    "map endpoint_of xs = concat (map offered ?qs)" "map ar_route_id xs = concat (map wire_ids (rt_routes rt))"
    using expand_answers [OF n] unfolding ans request_answer_fields by blast
  obtain r where r: "reservation_of ans = Some r" "rsv_routes r = xs" "rsv_tunnel_id r = tr_tunnel_id ans"
    "rsv_tunnel_token r = tr_tunnel_token ans"
    by (simp add: reservation_of_def xs(1))
  obtain rows where rows: "tunnel_rows (rt_tunnel_id rt) rows (app_db s')"
    and strip: "map (\<lambda>r. r\<lparr>r_id := 0\<rparr>) rows = map (\<lambda>r. r\<lparr>r_id := 0\<rparr>) (rt_routes rt)"
    using reserved_ready(2) [OF assms(1) few res] by blast
  have d: "distinct (map ar_route_id xs)"
    unfolding xs(3) by (rule stored_wire_ids [OF reserved_ready(1) [OF assms(1) few res] rows strip])
  have h: "hello_of r = hello_for (tr_tunnel_token ans) (tr_routes ans)" by (rule hello_decoded [OF xs(1) r(2,4)])
  have "m \<noteq> Both \<and> (\<exists>q \<in> set ?qs. rq_local_port q = p \<and> (rq_mode q = m \<or> rq_mode q = Both))"
    if rm: "route_map xs rid = Some (m, p)" for rid m p
  proof -
    obtain x where "x \<in> set xs" "endpoint_of x = (m, p)" using rm route_map_lookup [OF d] by (auto simp: endpoint_of_def)
    then have "(m, p) \<in> set (map endpoint_of xs)" by force
    then show ?thesis unfolding xs(2) by (auto simp: offered_def split: if_splits)
  qed
  then show ?thesis using r h d xs(2) by auto
qed

theorem agent_serves_requested_routes_witness:
  "\<exists>ans s' r. request_tunnel demo_env [] [(0, 0, 27, 1, 28)] demo_owner demo_request (demo_app demo_db) = (Inr ans, s')
     \<and> reservation_of ans = Some r \<and> map endpoint_of (rsv_routes r) = [(Tcp, 22), (Http, 8080)]"
proof -
  let ?ans = "request_answer demo_env demo_owner (demo_node ''a'' 0 (Some 10)) demo_reserved demo_db1"
  have a: "app_db (demo_app db) = db" for db by (simp add: demo_app_def)
  have "\<exists>r. reservation_of ?ans = Some r \<and> map endpoint_of (rsv_routes r) = concat (map offered (rt_req_routes demo_request))"
    using agent_serves_requested_routes [OF _ demo_request_tunnel] demo_store_ready by (auto simp: a demo_db_def)
  then show ?thesis using demo_request_tunnel by (fastforce simp: demo_request_def offered_def)
qed

section \<open>Enrolling a device\<close>

text \<open>
  The agent's \<^verbatim>\<open>Deserialize\<close> of an answer to a poll: a field of type \<^verbatim>\<open>Option\<close> may be missing or null. An
  HTTP error carries plain text, which is not JSON.
\<close>

definition opt_field :: "(Json \<Rightarrow> 'a option) \<Rightarrow> Json \<Rightarrow> string \<Rightarrow> 'a option option" where
  "opt_field dec j k =
     (case get_field j k of
        None \<Rightarrow> Some None
      | Some JNull \<Rightarrow> Some None
      | Some v \<Rightarrow> map_option Some (dec v))"

definition str_of :: "Json \<Rightarrow> string option" where
  "str_of j = (case j of JStr s \<Rightarrow> Some s | _ \<Rightarrow> None)"

definition int_of_json :: "Json \<Rightarrow> int option" where
  "int_of_json j = (case j of JInt i \<Rightarrow> if i64_min \<le> i \<and> i \<le> i64_max then Some i else None | _ \<Rightarrow> None)"

definition enroll_poll_of :: "Json \<Rightarrow> EnrollPoll option" where
  "enroll_poll_of j =
     (case (Option.bind (get_field j ''status'') str_of, opt_field str_of j ''device_token'',
            opt_field int_of_json j ''device_id'', opt_field str_of j ''name'') of
        (Some st, Some t, Some d, Some n) \<Rightarrow>
          Some \<lparr> ep_status = st, ep_device_token = t, ep_device_id = d, ep_name = n \<rparr>
      | _ \<Rightarrow> None)"

definition poll_answer :: "http_error + Json \<Rightarrow> EnrollPoll response" where
  "poll_answer r =
     (case r of
        Inl (status, text) \<Rightarrow> Responded status (Some text) (Inl ''error decoding response body'')
      | Inr j \<Rightarrow>
          Responded 200 None
            (case enroll_poll_of j of Some p \<Rightarrow> Inr p | None \<Rightarrow> Inl ''error decoding response body''))"

text \<open>The agent's polls of a device code, at given times and with given draws, and the answers they get.\<close>

fun poll_all :: "Env \<Rightarrow> string \<Rightarrow> (int \<times> nat list) list \<Rightarrow> App \<Rightarrow> EnrollPoll response list \<times> App" where
  "poll_all env code [] s = ([], s)"
| "poll_all env code ((t, draws) # ps) s =
     (case enroll_token (env\<lparr>e_now := t\<rparr>) draws code s of
        (r, s') \<Rightarrow> (case poll_all env code ps s' of (rs, s'') \<Rightarrow> (poll_answer r # rs, s'')))"

lemma poll_loop_append:
  "poll_loop f (as @ bs) = (case poll_loop f as of None \<Rightarrow> poll_loop f bs | Some r \<Rightarrow> Some r)"
  by (induction as) (auto split: option.splits)

definition pending_answer :: "EnrollPoll response" where
  "pending_answer = poll_answer (Inr (status_json ''authorization_pending''))"

lemma pending_poll [simp]: "enroll_poll cp pending_answer = None"
  by (simp add: pending_answer_def poll_answer_def enroll_poll_def decoded_def enroll_poll_of_def status_json_def
      get_field_def str_of_def opt_field_def)

lemma poll_pending:
  assumes "pair_stored t uc dc fs (app_redis s)" "map_of fs ''approved_user'' = Some []"
  shows "enroll_token (env\<lparr>e_now := t\<rparr>) draws dc s = (Inr (status_json ''authorization_pending''), s)"
  using status_of_pair [OF assms(1)] assms(2) by (simp add: enroll_token_def record_of_def Let_def)

lemma polls_pending:
  assumes "\<forall>(t, _) \<in> set ps. \<exists>fs. pair_stored t uc dc fs (app_redis s) \<and> map_of fs ''approved_user'' = Some []"
  shows "poll_all env dc ps s = (replicate (length ps) pending_answer, s)"
  using assms
proof (induction ps)
  case (Cons p ps)
  obtain t draws where p: "p = (t, draws)" by (cases p)
  obtain fs where "pair_stored t uc dc fs (app_redis s)" "map_of fs ''approved_user'' = Some []"
    using Cons.prems by (auto simp: p)
  then have "enroll_token (env\<lparr>e_now := t\<rparr>) draws dc s = (Inr (status_json ''authorization_pending''), s)"
    by (rule poll_pending)
  moreover have "poll_all env dc ps s = (replicate (length ps) pending_answer, s)"
    using Cons by simp
  ultimately show ?case by (simp add: p pending_answer_def)
qed simp

lemma enroll_waits:
  "enroll_poll cp a = None \<Longrightarrow> poll_loop (enroll_poll cp) (replicate n a) = None"
  by (induction n) simp_all

lemma random_code_chars: "cs \<noteq> [] \<Longrightarrow> set (random_code cs draws) \<subseteq> set cs"
  by (auto simp: random_code_def)

lemma no_colon_code: "CHR '':'' \<notin> set (random_code UC draws)"
  using random_code_chars [of UC draws] by (auto simp: UC_def)

lemma rate_ok_other: "rate_ok env key limit window r = (ok, r') \<Longrightarrow> k \<noteq> key \<Longrightarrow> r' k = r k"
  by (auto simp: rate_ok_def rate_limit_hit_def and_then_def r_incr_def r_expire_def Let_def
      split: sum.splits option.splits redis_value.splits prod.splits if_splits)

lemma rate_gate_other:
  assumes "rate_gate env hs r = (ok, r')" and "\<And>x. k \<noteq> ''nf:enrollrl:'' @ x"
  shows "r' k = r k"
proof -
  obtain ip r1 a b where 1: "rate_ok env (''nf:enrollrl:ip:'' @ ip) 10 60 r = (a, r1)"
    and 2: "rate_ok env ''nf:enrollrl:all'' 120 60 r1 = (b, r')"
    using assms(1) unfolding rate_gate_def Let_def by (auto split: prod.splits)
  have "k \<noteq> ''nf:enrollrl:ip:'' @ ip" "k \<noteq> ''nf:enrollrl:all''"
    using assms(2) [of "''ip:'' @ ip"] assms(2) [of "''all''"] by simp_all
  then show ?thesis using rate_ok_other [OF 1] rate_ok_other [OF 2] by simp
qed

lemma rate_gate_pair: "rate_gate env hs r = (ok, r') \<Longrightarrow> pair_stored now uc dc fs r' = pair_stored now uc dc fs r"
  using rate_gate_other [of env hs r ok r' "devcode_index_key dc"] rate_gate_other [of env hs r ok r' "devcode_user_key uc"]
  by (simp add: pair_stored_def r_get_def devcode_index_key_def devcode_user_key_def)

text \<open>An approval that succeeded for a new device.\<close>

lemma enroll_approve_new:
  assumes "enroll_approve env user hs typed name None s = (Inr j, s')"
    and "filter (\<lambda>c. c \<noteq> CHR ''-'') (e_upper env (trim typed)) = uc"
  obtains r1 r2 db where "rate_gate env hs (app_redis s) = (True, r1)"
    "create_device (e_now env) (au_user_id user) (device_name name) (app_db s) = Inr db"
    "devcode_approve_device (e_now env) uc (au_user_id user) (d_id (fst db)) r1 = Inr (True, r2)"
    "app_db s' = snd db" "app_redis s' = r2"
  using assms
  by (auto simp: enroll_approve_def enroll_device_def Let_def split: prod.splits sum.splits if_splits)

lemma enroll_start_stores:
  assumes "enroll_start (env\<lparr>e_now := t0\<rparr>) d1 d2 s = (Inr st, s1)" and "t0 \<le> t" "t < t0 + DEVCODE_TTL_SECS"
  shows "app_db s1 = app_db s \<and> CHR '':'' \<notin> set (es_user_code st)
    \<and> (\<exists>fs. pair_stored t (es_user_code st) (es_device_code st) fs (app_redis s1) \<and> map_of fs ''approved_user'' = Some [])"
proof -
  have c: "devcode_create t0 (es_user_code st) (es_device_code st) (app_redis s) = Inr (app_redis s1)"
    "app_db s1 = app_db s" "es_user_code st = random_code UC (take 8 d2)"
    using assms(1) by (auto simp: enroll_start_def Let_def split: sum.splits)
  then have u: "CHR '':'' \<notin> set (es_user_code st)" using no_colon_code by simp
  show ?thesis using create_stores [OF u c(1) assms(2,3)] c(2) u by blast
qed

text \<open>The poll after the approval, and what it leaves behind.\<close>

lemma approved_poll:
  assumes p: "pair_stored t uc dc fs (app_redis s)"
    and fs: "map_of fs ''approved_user'' = Some (int_str uid)" "map_of fs ''device_id'' = Some (int_str did)"
    and rng: "- 2147483648 \<le> uid" "uid \<le> 2147483647" "i64_min \<le> did" "did \<le> i64_max"
  shows "\<exists>s'. enroll_token (env\<lparr>e_now := t\<rparr>) draws dc s =
      (Inr (JObj [(''status'', JStr ''approved''),
         (''device_token'', JStr (issue_device_token (env\<lparr>e_now := t\<rparr>) uid did (random_code HEX (take 32 draws)))),
         (''device_id'', JInt did),
         (''name'', JStr (case device_by_id did (app_db s') of Some d \<Rightarrow> d_name d | None \<Rightarrow> []))]), s')
    \<and> app_db s' = set_device_token did (random_code HEX (take 32 draws)) (app_db s)
    \<and> (\<forall>later draws'. enroll_token (env\<lparr>e_now := later\<rparr>) draws' dc s' = (Inr (status_json ''expired_token''), s'))"
proof -
  have ne: "int_str i \<noteq> []" for i by (simp add: int_str_def)
  have st: "devcode_status t dc (app_redis s) = Inr (Some \<lparr> dr_device_code = dc, dr_approved_user = Some uid, dr_device_id = Some did \<rparr>)"
    using status_of_pair [OF p] rng
    by (simp add: record_of_def fs Let_def ne i32_of_def i64_of_def str_simps i64_min_def)
  obtain r where r: "devcode_consume t dc (app_redis s) = Inr (True, r)" using consume_pair [OF p] by blast
  have gone: "devcode_status later dc r = Inr None" for later
    using gone_code consume_removes(1) [OF r] by blast
  show ?thesis by (simp add: enroll_token_def st r Let_def gone)
qed

lemma approved_answer:
  assumes "i64_min \<le> did" "did \<le> i64_max"
  shows "enroll_poll cp (poll_answer (Inr (JObj [(''status'', JStr ''approved''), (''device_token'', JStr t),
            (''device_id'', JInt did), (''name'', JStr n)])))
    = Some (Inr \<lparr> sd_control_plane = cp, sd_device_id = did, sd_name = n, sd_device_token = t \<rparr>)"
  using assms
  by (simp add: poll_answer_def enroll_poll_def decoded_def enroll_poll_of_def get_field_def str_of_def opt_field_def int_of_json_def)

text \<open>
  The token library gives back the claims of a device token, which fits in a header: for this user and
  device, issued at this time, whatever the hexadecimal nonce.
\<close>

definition tokens_work :: "Env \<Rightarrow> int \<Rightarrow> int \<Rightarrow> int \<Rightarrow> bool" where
  "tokens_work env now uid did \<longleftrightarrow>
     (\<forall>nonce. set nonce \<subseteq> set HEX \<longrightarrow>
        (let key = bc_jwt_secret (e_cfg env);
             c = \<lparr> dc_sub = uid, dc_device_id = did, dc_nonce = nonce, dc_purpose = ''device'', dc_exp = now + DEVICE_TTL_SECS \<rparr>
         in e_decode_device env key (e_encode_device env key c) = Inr c \<and> header_str (e_encode_device env key c) \<noteq> None))"

lemma issued_token_accepted:
  assumes w: "tokens_work env t uid did" and n: "set nonce \<subseteq> set HEX"
    and d: "device_by_id did db = Some d" "d_token_fp d = Some nonce"
  shows "device_auth (env\<lparr>e_now := t\<rparr>) (Some (''Bearer '' @ issue_device_token (env\<lparr>e_now := t\<rparr>) uid did nonce)) db
    = Inr \<lparr> da_owner_id = d_owner_id d, da_device_id = d_id d \<rparr>"
proof -
  let ?c = "\<lparr> dc_sub = uid, dc_device_id = did, dc_nonce = nonce, dc_purpose = ''device'', dc_exp = t + DEVICE_TTL_SECS \<rparr>"
  let ?t = "e_encode_device env (bc_jwt_secret (e_cfg env)) ?c"
  have j: "e_decode_device env (bc_jwt_secret (e_cfg env)) ?t = Inr ?c" "header_str ?t \<noteq> None"
    using w n unfolding tokens_work_def Let_def by blast+
  have "header_str (''Bearer '' @ ?t) = Some (''Bearer '' @ ?t)"
    using j(2) by (simp add: header_str_def split: if_splits)
  then have "bearer_token (Some (''Bearer '' @ ?t)) = Inr ?t"
    by (simp add: bearer_token_def strip_prefix_def)
  then show ?thesis using j(1) d by (simp add: device_auth_def verify_device_token_def issue_device_token_def)
qed

lemma new_device_found:
  assumes "\<forall>d \<in> set (devices_t db). d_id d < next_id db"
    and "create_device now owner nm db = Inr (d, db')"
  shows "d_id d = next_id db \<and> next_id db' = next_id db + 1
    \<and> device_by_id (next_id db) (set_device_token (next_id db) nonce db') = Some (d\<lparr>d_token_fp := Some nonce\<rparr>)
    \<and> d_owner_id d = owner \<and> d_name d = nm"
proof -
  have d: "d_id d = next_id db" "d_owner_id d = owner" "d_name d = nm" "devices_t db' = devices_t db @ [d]" "next_id db' = next_id db + 1"
    using assms(2) by (auto simp: create_device_def Let_def split: if_splits)
  have "update_where (\<lambda>d. d_id d = next_id db) f (devices_t db) = devices_t db" for f
    using assms(1) by (auto simp: update_where_def intro!: map_idI)
  moreover have "fetch_optional (\<lambda>d. d_id d = next_id db) (devices_t db) = None"
    using assms(1) by (auto simp: fetch_optional_None)
  ultimately have "fetch_optional (\<lambda>d. d_id d = next_id db)
      (update_where (\<lambda>d. d_id d = next_id db) (\<lambda>d. d\<lparr>d_token_fp := Some nonce\<rparr>) (devices_t db @ [d])) = Some (d\<lparr>d_token_fp := Some nonce\<rparr>)"
    using d(1) by (simp add: update_where_def fetch_optional_append) (simp add: fetch_optional_def)
  then show ?thesis using d by (simp add: device_by_id_def set_device_token_def)
qed

text \<open>What an approval for a new device leaves in the code store and the database.\<close>

lemma approval_stored:
  assumes approve: "enroll_approve (env\<lparr>e_now := ta\<rparr>) user hs typed name None s = (Inr j, s')"
    and code: "filter (\<lambda>c. c \<noteq> CHR ''-'') (e_upper env (trim typed)) = uc" and uc: "CHR '':'' \<notin> set uc"
    and fs: "pair_stored ta uc dc fs (app_redis s)" and fs': "pair_stored tp uc dc fs' (app_redis s)"
    and fresh: "\<forall>d \<in> set (devices_t (app_db s)). d_id d < next_id (app_db s)"
  shows "\<exists>d fs2. create_device ta (au_user_id user) (device_name name) (app_db s) = Inr (d, app_db s')
    \<and> pair_stored tp uc dc fs2 (app_redis s') \<and> map_of fs2 ''approved_user'' = Some (int_str (au_user_id user))
    \<and> map_of fs2 ''device_id'' = Some (int_str (next_id (app_db s)))"
proof -
  obtain r1 r2 dd where g: "rate_gate (env\<lparr>e_now := ta\<rparr>) hs (app_redis s) = (True, r1)"
    and cr: "create_device ta (au_user_id user) (device_name name) (app_db s) = Inr dd"
    and ap: "devcode_approve_device ta uc (au_user_id user) (d_id (fst dd)) r1 = Inr (True, r2)"
    and s': "app_db s' = snd dd" "app_redis s' = r2"
    using approve code by (elim enroll_approve_new) auto
  obtain d db where dd: "dd = (d, db)" by (cases dd)
  have did: "d_id d = next_id (app_db s)" using new_device_found [OF fresh cr [unfolded dd]] by simp
  have same: "fs' = fs" using pair_stored_unique [OF fs' fs] .
  obtain r2' fs2 where "devcode_approve_device ta uc (au_user_id user) (next_id (app_db s)) r1 = Inr (True, r2')"
    and p2: "pair_stored tp uc dc fs2 r2'" "map_of fs2 ''approved_user'' = Some (int_str (au_user_id user))"
      "map_of fs2 ''device_id'' = Some (int_str (next_id (app_db s)))"
    using approve_device_stores [OF uc, of ta dc fs r1 tp] fs fs' rate_gate_pair [OF g] unfolding same by blast
  then have "app_redis s' = r2'" using ap did s' by (simp add: dd)
  then show ?thesis using p2 cr s'(1) by (auto simp: dd)
qed

text \<open>
  C19: enrolling a device completes. The agent polls as often as it likes while its code is pending and
  keeps polling; once the user has approved the code for a new device within its hour, the next poll
  ends the enrollment with that device and a token the API accepts as the device of that user. The code
  is used up: every later poll, by anyone, is told it has expired.
\<close>

theorem enrollment_completes:
  assumes start: "enroll_start (env\<lparr>e_now := t0\<rparr>) d1 d2 s0 = (Inr st, s1)"
    and polls: "\<forall>(t, _) \<in> set ps. t0 \<le> t \<and> t < t0 + DEVCODE_TTL_SECS"
    and polled: "poll_all env (es_device_code st) ps s1 = (waiting, s2)"
    and approve: "enroll_approve (env\<lparr>e_now := ta\<rparr>) user hs typed name None s2 = (Inr j, s3)"
    and code: "filter (\<lambda>c. c \<noteq> CHR ''-'') (e_upper env (trim typed)) = es_user_code st"
    and last: "enroll_token (env\<lparr>e_now := tp\<rparr>) draws (es_device_code st) s3 = (r, s4)"
    and time: "t0 \<le> ta" "ta \<le> tp" "tp < t0 + DEVCODE_TTL_SECS"
    and ids: "- 2147483648 \<le> au_user_id user" "au_user_id user \<le> 2147483647" "0 < next_id (app_db s0)" "next_id (app_db s0) \<le> i64_max"
    and fresh: "\<forall>d \<in> set (devices_t (app_db s0)). d_id d < next_id (app_db s0)"
    and tokens: "tokens_work env tp (au_user_id user) (next_id (app_db s0))"
  shows "enroll cp (Responded 200 None (Inr begun)) waiting = None
    \<and> (\<exists>dev. enroll cp (Responded 200 None (Inr begun)) (waiting @ [poll_answer r]) = Some (Inr dev)
        \<and> sd_control_plane dev = cp \<and> sd_device_id dev = next_id (app_db s0) \<and> sd_name dev = device_name name
        \<and> device_auth (env\<lparr>e_now := tp\<rparr>) (Some (''Bearer '' @ sd_device_token dev)) (app_db s4)
            = Inr \<lparr> da_owner_id = au_user_id user, da_device_id = sd_device_id dev \<rparr>
        \<and> (\<forall>later draws'. enroll_token (env\<lparr>e_now := later\<rparr>) draws' (es_device_code st) s4
            = (Inr (status_json ''expired_token''), s4)))"
proof -
  let ?uc = "es_user_code st" and ?dc = "es_device_code st" and ?did = "next_id (app_db s0)"
  let ?nonce = "random_code HEX (take 32 draws)"
  note S = enroll_start_stores [OF start]
  have uc: "CHR '':'' \<notin> set ?uc" and db1: "app_db s1 = app_db s0" using S [of ta] time by auto
  have w: "waiting = replicate (length ps) pending_answer" "s2 = s1"
    using polls_pending [of ps ?uc ?dc s1 env] S polls polled by fastforce+
  obtain fs where fs: "pair_stored ta ?uc ?dc fs (app_redis s1)" using S [of ta] time by auto
  obtain fs' where fs': "pair_stored tp ?uc ?dc fs' (app_redis s1)" using S [of tp] time by auto
  obtain d fs2 where cr: "create_device ta (au_user_id user) (device_name name) (app_db s1) = Inr (d, app_db s3)"
    and p2: "pair_stored tp ?uc ?dc fs2 (app_redis s3)" "map_of fs2 ''approved_user'' = Some (int_str (au_user_id user))"
      "map_of fs2 ''device_id'' = Some (int_str ?did)"
    using approval_stored [OF approve [unfolded w(2)] code uc fs fs'] fresh unfolding db1 by blast
  note N = new_device_found [OF fresh cr [unfolded db1], of ?nonce]
  have did: "i64_min \<le> ?did" "?did \<le> i64_max" using ids by (simp_all add: i64_min_def)
  let ?t = "issue_device_token (env\<lparr>e_now := tp\<rparr>) (au_user_id user) ?did ?nonce"
  obtain s4' where e: "enroll_token (env\<lparr>e_now := tp\<rparr>) draws ?dc s3 =
      (Inr (JObj [(''status'', JStr ''approved''), (''device_token'', JStr ?t), (''device_id'', JInt ?did),
         (''name'', JStr (case device_by_id ?did (app_db s4') of Some d \<Rightarrow> d_name d | None \<Rightarrow> []))]), s4')"
    and db4: "app_db s4' = set_device_token ?did ?nonce (app_db s3)"
    and gone: "\<forall>later draws'. enroll_token (env\<lparr>e_now := later\<rparr>) draws' ?dc s4' = (Inr (status_json ''expired_token''), s4')"
    using approved_poll [OF p2 ids(1,2) did] by blast
  have s4: "s4' = s4" "r = Inr (JObj [(''status'', JStr ''approved''), (''device_token'', JStr ?t), (''device_id'', JInt ?did),
         (''name'', JStr (device_name name))])"
    using e last N by (simp_all add: db4)
  have wait: "poll_loop (enroll_poll cp) waiting = None" by (simp add: w(1) enroll_waits)
  have dev: "device_by_id ?did (app_db s4) = Some (d\<lparr>d_token_fp := Some ?nonce\<rparr>)"
    using N db4 by (simp add: s4(1))
  have auth: "device_auth (env\<lparr>e_now := tp\<rparr>) (Some (''Bearer '' @ ?t)) (app_db s4) = Inr \<lparr> da_owner_id = au_user_id user, da_device_id = ?did \<rparr>"
    using issued_token_accepted [OF tokens random_code_chars dev] N by (simp add: HEX_def)
  show ?thesis
    using wait auth gone unfolding s4(1)
    by (simp add: enroll_def decoded_def poll_loop_append s4(2) approved_answer [OF did])
qed

definition enroll_env :: Env where
  "enroll_env = demo_env\<lparr>
     e_encode_device := (\<lambda>_ c. dc_nonce c),
     e_decode_device := (\<lambda>_ t. Inr \<lparr> dc_sub = 7, dc_device_id = 1, dc_nonce = t, dc_purpose = ''device'',
                                   dc_exp = 20 + DEVICE_TTL_SECS \<rparr>)\<rparr>"

lemma enroll_env_tokens: "tokens_work enroll_env 20 7 1"
proof -
  have "header_str nonce \<noteq> None" if "set nonce \<subseteq> set HEX" for nonce
  proof -
    have "list_all (\<lambda>c. (32 \<le> byte_val c \<and> byte_val c < 127) \<or> byte_val c = 9) HEX" by code_simp
    then show ?thesis using that by (auto simp: header_str_def list_all_iff)
  qed
  then show ?thesis by (simp add: tokens_work_def enroll_env_def Let_def)
qed

theorem enrollment_completes_witness:
  "\<exists>st s1 s2 s3 r s4 j dev. enroll_start (enroll_env\<lparr>e_now := 5\<rparr>) [] [0, 1, 2, 3, 4, 5, 6, 7] (demo_app demo_db) = (Inr st, s1)
     \<and> poll_all enroll_env (es_device_code st) [(8, []), (11, [])] s1 = ([pending_answer, pending_answer], s2)
     \<and> enroll_approve (enroll_env\<lparr>e_now := 14\<rparr>) demo_owner (\<lambda>_. None) ''ABCD-EFGH'' (Some ''nas'') None s2 = (Inr j, s3)
     \<and> enroll_token (enroll_env\<lparr>e_now := 20\<rparr>) [10, 11] (es_device_code st) s3 = (r, s4)
     \<and> enroll ''cp'' (Responded 200 None (Inr \<lparr> en_device_code = [], en_user_code = [], en_interval = 3 \<rparr>))
          ([pending_answer, pending_answer] @ [poll_answer r]) = Some (Inr dev) \<and> sd_device_id dev = 1"
proof -
  let ?st = "\<lparr> es_device_code = [], es_user_code = ''ABCDEFGH'', es_interval = 3, es_expires_in = DEVCODE_TTL_SECS \<rparr>"
  obtain r1 where c: "devcode_create 5 ''ABCDEFGH'' [] (\<lambda>_. None) = Inr r1"
    by (simp add: devcode_create_def r_hset_def r_get_def Let_def)
  have codes: "random_code UC (take 8 [0, 1, 2, 3, 4, 5, 6, 7]) = ''ABCDEFGH''" "random_code HEX (take 40 []) = []"
    by code_simp+
  let ?s1 = "(demo_app demo_db)\<lparr>app_redis := r1\<rparr>"
  have start: "enroll_start (enroll_env\<lparr>e_now := 5\<rparr>) [] [0, 1, 2, 3, 4, 5, 6, 7] (demo_app demo_db) = (Inr ?st, ?s1)"
    unfolding enroll_start_def codes Let_def by (simp add: c demo_app_def)
  have polls: "poll_all enroll_env [] [(8, []), (11, [])] ?s1 = ([pending_answer, pending_answer], ?s1)"
    using polls_pending [of "[(8, []), (11, [])]" "''ABCDEFGH''" "[]" ?s1 enroll_env]
      enroll_start_stores [OF start, of 8] enroll_start_stores [OF start, of 11]
    by (simp add: DEVCODE_TTL_SECS_def numeral_2_eq_2)
  obtain res s3 where ap: "enroll_approve (enroll_env\<lparr>e_now := 14\<rparr>) demo_owner (\<lambda>_. None) ''ABCD-EFGH'' (Some ''nas'') None ?s1 = (res, s3)"
    by fastforce
  have typed: "filter (\<lambda>c. c \<noteq> CHR ''-'') (e_upper enroll_env (trim ''ABCD-EFGH'')) = ''ABCDEFGH''"
  proof -
    have "trim ''ABCD-EFGH'' = ''ABCD-EFGH''" by code_simp
    then show ?thesis by (simp add: enroll_env_def demo_env_def)
  qed
  obtain fs where fs: "pair_stored 14 ''ABCDEFGH'' [] fs r1"
    using enroll_start_stores [OF start, of 14] by (auto simp: DEVCODE_TTL_SECS_def)
  have "\<exists>j. res = Inr j"
  proof -
    have gate: "\<exists>r. rate_gate (enroll_env\<lparr>e_now := 14\<rparr>) (\<lambda>_. None) r1 = (True, r)"
    proof -
      have n: "r1 (''nf:enrollrl:ip:unknown'') = None" "r1 ''nf:enrollrl:all'' = None"
        using c by (auto simp: devcode_create_def Let_def r_hset_def r_get_def r_expire_def r_set_ex_def devcode_user_key_def
            devcode_index_key_def)
      have ip: "client_ip (enroll_env\<lparr>e_now := 14\<rparr>) (\<lambda>_. None) = None" by (simp add: client_ip_def ip_header_def)
      show ?thesis
        using n by (simp add: rate_gate_def ip rate_ok_def rate_limit_hit_def r_incr_def r_get_def r_expire_def Let_def alive_def)
    qed
    then obtain r where g: "rate_gate (enroll_env\<lparr>e_now := 14\<rparr>) (\<lambda>_. None) r1 = (True, r)" by blast
    obtain d where cd: "create_device 14 7 (device_name (Some ''nas'')) demo_db = Inr d"
      by (simp add: create_device_def demo_db_def demo_user_def Let_def)
    have "CHR '':'' \<notin> set ''ABCDEFGH''" by simp
    then obtain r2 where "devcode_approve_device 14 ''ABCDEFGH'' 7 (d_id (fst d)) r = Inr (True, r2)"
      using approve_device_stores [of "''ABCDEFGH''" 14 "[]" fs r 14] rate_gate_pair [OF g] fs by blast
    then show ?thesis
      using ap g cd typed
      by (auto simp: enroll_approve_def enroll_device_def Let_def demo_app_def demo_owner_def split: prod.splits)
  qed
  then obtain j where j: "res = Inr j" by blast
  obtain r s4 where l: "enroll_token (enroll_env\<lparr>e_now := 20\<rparr>) [10, 11] [] s3 = (r, s4)" by fastforce
  have base: "app_db (demo_app demo_db) = demo_db" "next_id demo_db = 1" "devices_t demo_db = []" "au_user_id demo_owner = 7"
    by (simp_all add: demo_app_def demo_db_def demo_owner_def)
  have "\<exists>dev. enroll ''cp'' (Responded 200 None (Inr \<lparr> en_device_code = [], en_user_code = [], en_interval = 3 \<rparr>))
          ([pending_answer, pending_answer] @ [poll_answer r]) = Some (Inr dev) \<and> sd_device_id dev = 1"
    using enrollment_completes [OF start _ _ ap [unfolded j] _ _ , of "[(8, []), (11, [])]" "[pending_answer, pending_answer]" 20 "[10, 11]" r s4 "''cp''"
        "\<lparr> en_device_code = [], en_user_code = [], en_interval = 3 \<rparr>"] polls typed l enroll_env_tokens
    by (auto simp: base DEVCODE_TTL_SECS_def i64_max_def)
  then show ?thesis using start polls ap j l by fastforce
qed

end
