(* ===== verification/Udp.thy ===== *)
theory Udp
  imports AgentProps
begin

text \<open>
  The datagram routes of the node (\<^verbatim>\<open>udp_listener_loop\<close> and \<^verbatim>\<open>udp_flow\<close> of
  \<^verbatim>\<open>natforge-node/src/tunnel/mod.rs\<close>): a table of flows keyed by the client's address, one bounded channel and
  one task per flow, and the notices by which a task that has ended asks to be removed from the table.
\<close>

section \<open>One flow\<close>

text \<open>
  Client to agent: a datagram is counted before it is written, and the first write that fails ends the
  direction. The value is the count and the bytes on the stream.
\<close>

fun udp_down :: "(bytes \<Rightarrow> bool) \<Rightarrow> bytes list \<Rightarrow> nat \<times> bytes" where
  "udp_down ok [] = (0, [])"
| "udp_down ok (d # ds) =
     (if ok d then (case udp_down ok ds of (n, out) \<Rightarrow> (length d + n, write_datagram d @ out))
      else (length d, []))"

record FlowEnd =
  fe_stream :: bytes
  fe_to_client :: "bytes list"
  fe_stats :: "nat \<times> nat"
  fe_log :: "ConnLog option"

text \<open>
  A flow from its preamble to its end, for the datagrams it took from its channel and the bytes the
  agent had sent when one of the directions ended.
\<close>

definition udp_flow ::
    "RouteHandle \<Rightarrow> (IpAddr \<Rightarrow> string) \<Rightarrow> SocketAddr \<Rightarrow> string option \<Rightarrow> bool \<Rightarrow> (bytes \<Rightarrow> bool) \<Rightarrow> bytes list \<Rightarrow> bytes
     \<Rightarrow> nat \<Rightarrow> FlowEnd" where
  "udp_flow handle show_ip peer country preamble_ok ok taken from_agent ms =
     (if \<not> preamble_ok then \<lparr> fe_stream = [], fe_to_client = [], fe_stats = (0, 0), fe_log = None \<rparr>
      else
        let (n_in, out) = udp_down ok taken;
            back = read_datagrams from_agent;
            n_out = sum_list (map length back)
        in \<lparr> fe_stream = encode_preamble (h_route_id handle) (Some peer) [] @ out, fe_to_client = back,
             fe_stats = (n_in, n_out),
             fe_log = Some (report_conn_log handle (show_ip (sa_ip peer)) country n_in n_out ms False) \<rparr>)"

section \<open>The table of flows\<close>

definition UDP_MAX_FLOWS :: nat where
  "UDP_MAX_FLOWS = 4096"

definition FLOW_CHANNEL :: nat where
  "FLOW_CHANNEL = 256"

text \<open>
  The task of a flow: its client, what its channel holds, whether it still receives, and whether it has
  sent its notice.
\<close>

record Channel =
  ch_peer :: SocketAddr
  ch_queue :: "bytes list"
  ch_open :: bool
  ch_noticed :: bool

record UdpLoop =
  ul_flows :: "(SocketAddr \<times> nat) list"
  ul_channels :: "Channel list"
  ul_closed :: "SocketAddr list"
  ul_logs :: "ConnLog list"
  ul_running :: bool

definition drop_flow :: "SocketAddr \<Rightarrow> UdpLoop \<Rightarrow> UdpLoop" where
  "drop_flow peer ul = ul\<lparr>ul_flows := filter (\<lambda>f. fst f \<noteq> peer) (ul_flows ul)\<rparr>"

text \<open>What the request for a stream to the agent comes to.\<close>

datatype open_result = TunnelGone | OpenFailed | Opened

definition open_flow ::
    "CoreState \<Rightarrow> (IpAddr \<Rightarrow> string option) \<Rightarrow> (IpAddr \<Rightarrow> string) \<Rightarrow> RouteHandle \<Rightarrow> open_result \<Rightarrow> SocketAddr \<Rightarrow> bytes
     \<Rightarrow> UdpLoop \<Rightarrow> UdpLoop" where
  "open_flow st geo show_ip handle opened peer data ul =
     (if UDP_MAX_FLOWS \<le> length (ul_flows ul) then ul
      else
        let country = geo (sa_ip peer) in
        if is_country_blocked st (h_tunnel_id handle) country
        then ul\<lparr>ul_logs := ul_logs ul @ [report_conn_log handle (show_ip (sa_ip peer)) country 0 0 0 True]\<rparr>
        else case opened of
               TunnelGone \<Rightarrow> ul\<lparr>ul_running := False\<rparr>
             | OpenFailed \<Rightarrow> ul
             | Opened \<Rightarrow>
                 ul\<lparr>ul_flows := (peer, length (ul_channels ul)) # ul_flows ul,
                    ul_channels := ul_channels ul @ [\<lparr> ch_peer = peer, ch_queue = [data], ch_open = True, ch_noticed = False \<rparr>]\<rparr>)"

definition on_datagram ::
    "CoreState \<Rightarrow> (IpAddr \<Rightarrow> string option) \<Rightarrow> (IpAddr \<Rightarrow> string) \<Rightarrow> RouteHandle \<Rightarrow> open_result \<Rightarrow> SocketAddr \<Rightarrow> bytes
     \<Rightarrow> UdpLoop \<Rightarrow> UdpLoop" where
  "on_datagram st geo show_ip handle opened peer data ul =
     (case map_of (ul_flows ul) peer of
        None \<Rightarrow> open_flow st geo show_ip handle opened peer data ul
      | Some i \<Rightarrow>
          let ch = ul_channels ul ! i in
          if \<not> ch_open ch then open_flow st geo show_ip handle opened peer data (drop_flow peer ul)
          else if FLOW_CHANNEL \<le> length (ch_queue ch) then ul
          else ul\<lparr>ul_channels := (ul_channels ul)[i := ch\<lparr>ch_queue := ch_queue ch @ [data]\<rparr>]\<rparr>)"

definition on_closed :: "UdpLoop \<Rightarrow> UdpLoop" where
  "on_closed ul =
     (case ul_closed ul of [] \<Rightarrow> ul | peer # rest \<Rightarrow> (drop_flow peer ul)\<lparr>ul_closed := rest\<rparr>)"

definition new_loop :: UdpLoop where
  "new_loop = \<lparr> ul_flows = [], ul_channels = [], ul_closed = [], ul_logs = [], ul_running = True \<rparr>"

text \<open>
  The loop and its flow tasks: the loop takes a datagram or a notice; a task takes a datagram from its
  channel, ends, or, once it has reported its connection, sends a notice with its client's address.
\<close>

inductive udp_step ::
    "CoreState \<Rightarrow> (IpAddr \<Rightarrow> string option) \<Rightarrow> (IpAddr \<Rightarrow> string) \<Rightarrow> RouteHandle \<Rightarrow> UdpLoop \<Rightarrow> UdpLoop \<Rightarrow> bool"
  for st geo show_ip handle where
  udp_datagram: "ul_running ul \<Longrightarrow> udp_step st geo show_ip handle ul (on_datagram st geo show_ip handle opened peer data ul)"
| udp_closed: "ul_running ul \<Longrightarrow> udp_step st geo show_ip handle ul (on_closed ul)"
| udp_take: "i < length (ul_channels ul) \<Longrightarrow> ul_channels ul ! i = ch \<Longrightarrow> ch_open ch \<Longrightarrow> ch_queue ch = d # q \<Longrightarrow>
    udp_step st geo show_ip handle ul (ul\<lparr>ul_channels := (ul_channels ul)[i := ch\<lparr>ch_queue := q\<rparr>]\<rparr>)"
| udp_end: "i < length (ul_channels ul) \<Longrightarrow> ul_channels ul ! i = ch \<Longrightarrow> ch_open ch \<Longrightarrow>
    udp_step st geo show_ip handle ul (ul\<lparr>ul_channels := (ul_channels ul)[i := ch\<lparr>ch_open := False\<rparr>]\<rparr>)"
| udp_notice: "i < length (ul_channels ul) \<Longrightarrow> ul_channels ul ! i = ch \<Longrightarrow> \<not> ch_open ch \<Longrightarrow> \<not> ch_noticed ch \<Longrightarrow>
    udp_step st geo show_ip handle ul
      (ul\<lparr>ul_channels := (ul_channels ul)[i := ch\<lparr>ch_noticed := True\<rparr>], ul_closed := ul_closed ul @ [ch_peer ch]\<rparr>)"

inductive udp_reachable ::
    "CoreState \<Rightarrow> (IpAddr \<Rightarrow> string option) \<Rightarrow> (IpAddr \<Rightarrow> string) \<Rightarrow> RouteHandle \<Rightarrow> UdpLoop \<Rightarrow> bool"
  for st geo show_ip handle where
  udp_start: "udp_reachable st geo show_ip handle new_loop"
| udp_next: "udp_reachable st geo show_ip handle ul \<Longrightarrow> udp_step st geo show_ip handle ul ul' \<Longrightarrow>
    udp_reachable st geo show_ip handle ul'"

section \<open>Datagrams end to end\<close>

lemma udp_down_all: "udp_down (\<lambda>_. True) ds = (sum_list (map length ds), concat (map write_datagram ds))"
  by (induction ds) simp_all

lemma send_while_all [simp]: "send_while (\<lambda>_. True) ds = ds"
  by (induction ds) simp_all



section \<open>The table stays bounded\<close>

definition udp_inv :: "CoreState \<Rightarrow> (IpAddr \<Rightarrow> string option) \<Rightarrow> RouteHandle \<Rightarrow> UdpLoop \<Rightarrow> bool" where
  "udp_inv st geo handle ul \<longleftrightarrow>
     length (ul_flows ul) \<le> UDP_MAX_FLOWS \<and> distinct (map fst (ul_flows ul))
     \<and> (\<forall>(peer, i) \<in> set (ul_flows ul). i < length (ul_channels ul) \<and> ch_peer (ul_channels ul ! i) = peer)
     \<and> (\<forall>ch \<in> set (ul_channels ul). length (ch_queue ch) \<le> FLOW_CHANNEL
          \<and> \<not> is_country_blocked st (h_tunnel_id handle) (geo (sa_ip (ch_peer ch))))"

lemma inv_drop: "udp_inv st geo handle ul \<Longrightarrow> udp_inv st geo handle (drop_flow peer ul)"
  using le_trans [OF length_filter_le [of "\<lambda>f. fst f \<noteq> peer" "ul_flows ul"], of UDP_MAX_FLOWS]
  by (auto simp: udp_inv_def drop_flow_def distinct_map_filter)

lemma inv_other: "ul_flows ul' = ul_flows ul \<Longrightarrow> ul_channels ul' = ul_channels ul \<Longrightarrow> udp_inv st geo handle ul \<Longrightarrow> udp_inv st geo handle ul'"
  by (simp add: udp_inv_def)

lemma inv_open:
  assumes inv: "udp_inv st geo handle ul" and new: "peer \<notin> fst ` set (ul_flows ul)"
  shows "udp_inv st geo handle (open_flow st geo show_ip handle opened peer data ul)"
proof (cases "UDP_MAX_FLOWS \<le> length (ul_flows ul) \<or> is_country_blocked st (h_tunnel_id handle) (geo (sa_ip peer)) \<or> opened \<noteq> Opened")
  case True
  have "ul_flows (open_flow st geo show_ip handle opened peer data ul) = ul_flows ul"
    "ul_channels (open_flow st geo show_ip handle opened peer data ul) = ul_channels ul"
    using True by (auto simp: open_flow_def Let_def split: open_result.splits)
  then show ?thesis using inv by (rule inv_other)
next
  case False
  have i: "i < length (ul_channels ul)" if "(p, i) \<in> set (ul_flows ul)" for p i
    using inv that by (auto simp: udp_inv_def)
  have "FLOW_CHANNEL = 256" by (simp add: FLOW_CHANNEL_def)
  then show ?thesis using False inv new i
    by (auto simp: open_flow_def Let_def udp_inv_def nth_append)
qed

lemma inv_update:
  assumes inv: "udp_inv st geo handle ul" and i: "i < length (ul_channels ul)"
    and "ch_peer ch = ch_peer (ul_channels ul ! i)" and "length (ch_queue ch) \<le> FLOW_CHANNEL"
    and u: "ul_flows ul' = ul_flows ul" "ul_channels ul' = (ul_channels ul)[i := ch]"
  shows "udp_inv st geo handle ul'"
proof -
  have "ul_channels ul ! i \<in> set (ul_channels ul)" using i by simp
  then have "\<not> is_country_blocked st (h_tunnel_id handle) (geo (sa_ip (ch_peer ch)))"
    using inv assms(3) by (auto simp: udp_inv_def)
  then have "\<forall>c \<in> set ((ul_channels ul)[i := ch]). length (ch_queue c) \<le> FLOW_CHANNEL
      \<and> \<not> is_country_blocked st (h_tunnel_id handle) (geo (sa_ip (ch_peer c)))"
    using inv assms(4) set_update_subset_insert [of "ul_channels ul" i ch] unfolding udp_inv_def by blast
  moreover have "ch_peer ((ul_channels ul)[i := ch] ! j) = ch_peer (ul_channels ul ! j)" if "j < length (ul_channels ul)" for j
    using that i assms(3) by (simp add: nth_list_update)
  ultimately show ?thesis using inv u by (auto simp: udp_inv_def)
qed

lemma inv_datagram:
  assumes inv: "udp_inv st geo handle ul"
  shows "udp_inv st geo handle (on_datagram st geo show_ip handle opened peer data ul)"
proof (cases "map_of (ul_flows ul) peer")
  case None
  then have "peer \<notin> fst ` set (ul_flows ul)" by (simp add: map_of_eq_None_iff)
  then show ?thesis unfolding on_datagram_def None option.case by (rule inv_open [OF inv])
next
  case (Some i)
  let ?ch = "ul_channels ul ! i"
  have i: "i < length (ul_channels ul)" using inv map_of_SomeD [OF Some] by (auto simp: udp_inv_def)
  show ?thesis
  proof (cases "ch_open ?ch \<and> length (ch_queue ?ch) < FLOW_CHANNEL")
    case True
    then show ?thesis
      by (intro inv_update [OF inv i, where ch = "?ch\<lparr>ch_queue := ch_queue ?ch @ [data]\<rparr>"])
        (simp_all add: on_datagram_def Some Let_def)
  next
    case False
    have "peer \<notin> fst ` set (ul_flows (drop_flow peer ul))" by (auto simp: drop_flow_def)
    then have o: "udp_inv st geo handle (open_flow st geo show_ip handle opened peer data (drop_flow peer ul))"
      by (rule inv_open [OF inv_drop [OF inv]])
    show ?thesis
    proof (cases "ch_open ?ch")
      case True
      then have "FLOW_CHANNEL \<le> length (ch_queue ?ch)" using False by simp
      then show ?thesis using inv True by (simp add: on_datagram_def Some Let_def)
    next
      case False
      then show ?thesis using o by (simp add: on_datagram_def Some Let_def)
    qed
  qed
qed

lemma reachable_udp_inv: "udp_reachable st geo show_ip handle ul \<Longrightarrow> udp_inv st geo handle ul"
proof (induction rule: udp_reachable.induct)
  case udp_start
  then show ?case by (simp add: udp_inv_def new_loop_def UDP_MAX_FLOWS_def)
next
  case (udp_next ul ul')
  note inv = udp_next(3)
  have q: "length (ch_queue (ul_channels ul ! i)) \<le> FLOW_CHANNEL" if "i < length (ul_channels ul)" for i
    using inv that by (auto simp: udp_inv_def)
  from udp_next(2) show ?case
  proof (cases rule: udp_step.cases)
    case (udp_datagram opened peer data)
    then show ?thesis using inv_datagram [OF inv] by simp
  next
    case udp_closed
    then show ?thesis using inv inv_drop [OF inv]
      by (auto simp: on_closed_def split: list.splits intro: inv_other [where ul = "drop_flow p ul" for p])
  next
    case (udp_take i ch d q')
    then show ?thesis using q [of i] by (intro inv_update [OF inv udp_take(2), where ch = "ch\<lparr>ch_queue := q'\<rparr>"]) auto
  next
    case (udp_end i ch)
    then show ?thesis using q [of i] by (intro inv_update [OF inv udp_end(2), where ch = "ch\<lparr>ch_open := False\<rparr>"]) auto
  next
    case (udp_notice i ch)
    then show ?thesis using q [of i] by (intro inv_update [OF inv udp_notice(2), where ch = "ch\<lparr>ch_noticed := True\<rparr>"]) auto
  qed
qed


lemma demo_udp_reachable:
  "udp_reachable empty_state (\<lambda>_. None) (\<lambda>_. []) demo_route_handle
     (on_datagram empty_state (\<lambda>_. None) (\<lambda>_. []) demo_route_handle Opened (SocketAddr (V4 1) 2) ''a'' new_loop)"
  by (rule udp_next [OF udp_start udp_datagram]) (simp add: new_loop_def)


text \<open>
  A notice names only the client. When a datagram arrives between the end of a flow and its notice, it
  opens a new flow for the same client, and the late notice then removes the new flow's entry: the flow
  is still open, with a datagram in its channel, and no further datagram will reach it.
\<close>

theorem late_notice_drops_new_flow:
  "\<exists>ul peer ch. udp_reachable empty_state (\<lambda>_. None) (\<lambda>_. []) demo_route_handle ul
     \<and> ch \<in> set (ul_channels ul) \<and> ch_peer ch = peer \<and> ch_open ch \<and> ch_queue ch \<noteq> []
     \<and> map_of (ul_flows ul) peer = None"
proof -
  let ?p = "SocketAddr (V4 1) 2" and ?step = "udp_step empty_state (\<lambda>_. None) (\<lambda>_. []) demo_route_handle"
  let ?reach = "udp_reachable empty_state (\<lambda>_. None) (\<lambda>_. []) demo_route_handle"
  let ?ch = "\<lambda>d open noticed. \<lparr> ch_peer = ?p, ch_queue = [d], ch_open = open, ch_noticed = noticed \<rparr>"
  let ?ul = "\<lambda>flows chans closed. \<lparr> ul_flows = flows, ul_channels = chans, ul_closed = closed, ul_logs = [], ul_running = True \<rparr>"
  have free: "\<not> is_country_blocked empty_state t None" for t by (simp add: is_country_blocked_iff)
  have 1: "?reach (?ul [(?p, 0)] [?ch ''a'' True False] [])"
    using demo_udp_reachable by (simp add: on_datagram_def open_flow_def new_loop_def UDP_MAX_FLOWS_def free)
  have 2: "?reach (?ul [(?p, 0)] [?ch ''a'' False False] [])"
    using udp_next [OF 1 udp_end [of 0]] by simp
  have 3: "?reach (?ul [(?p, 1)] [?ch ''a'' False False, ?ch ''b'' True False] [])"
    using udp_next [OF 2 udp_datagram [where opened = Opened and peer = ?p and data = "''b''"]]
    by (simp add: on_datagram_def open_flow_def drop_flow_def UDP_MAX_FLOWS_def free)
  have 4: "?reach (?ul [(?p, 1)] [?ch ''a'' False True, ?ch ''b'' True False] [?p])"
    using udp_next [OF 3 udp_notice [of 0]] by simp
  have 5: "?reach (?ul [] [?ch ''a'' False True, ?ch ''b'' True False] [])"
    using udp_next [OF 4 udp_closed] by (simp add: on_closed_def drop_flow_def)
  show ?thesis by (rule exI [of _ "?ul [] [?ch ''a'' False True, ?ch ''b'' True False] []"], rule exI [of _ ?p],
        rule exI [of _ "?ch ''b'' True False"]) (use 5 in simp)
qed

end
