(* ===== verification/Mux.thy ===== *)
theory Mux
  imports Prelude
begin

text \<open>
  The driver of a session's multiplexed connection (\<^verbatim>\<open>natforge-node/src/tunnel/mux.rs\<close>). One task owns
  the connection: in every round of its poll function it serves inbound frames, moves the waiting
  requests for a stream into a queue, and answers queued requests with the streams the connection gives
  it. A round is what the connection and the channel answer during it; requests are numbered.
\<close>

datatype inbound = StrayStream | SessionOver

datatype 's answer = Given 's | ConnectionClosed

record 's Round =
  rd_inbound :: "inbound list"
  rd_requests :: "nat list"
  rd_hangup :: bool
  rd_outbound :: "'s list"

record Driver =
  dr_queue :: "nat list"
  dr_channel_open :: bool

datatype verdict = Ready | Pending | Again

text \<open>
  One round: the requests it took, its replies, and whether the poll function returns. \<^verbatim>\<open>'s\<close> stands for
  the result of opening a stream, an error included.
\<close>

definition driver_round :: "Driver \<Rightarrow> 's Round \<Rightarrow> nat list \<times> (nat \<times> 's answer) list \<times> Driver \<times> verdict" where
  "driver_round dr rd =
     (if SessionOver \<in> set (rd_inbound rd)
      then ([], map (\<lambda>r. (r, ConnectionClosed)) (dr_queue dr), dr\<lparr>dr_queue := []\<rparr>, Ready)
      else
        let taken = (if dr_channel_open dr then rd_requests rd else []);
            open = (dr_channel_open dr \<and> \<not> rd_hangup rd);
            queue = dr_queue dr @ taken;
            replies = zip queue (map Given (rd_outbound rd));
            queue = drop (length replies) queue;
            dr = \<lparr> dr_queue = queue, dr_channel_open = open \<rparr>
        in (taken, replies, dr,
            if \<not> open \<and> queue = [] then Ready else if replies = [] then Pending else Again))"

text \<open>One call of the poll function; \<^const>\<open>None\<close> when the rounds given do not end it.\<close>

fun driver_poll :: "Driver \<Rightarrow> 's Round list \<Rightarrow> ((nat \<times> 's answer) list \<times> Driver \<times> bool) option" where
  "driver_poll dr [] = None"
| "driver_poll dr (rd # rds) =
     (case driver_round dr rd of
        (_, replies, dr, v) \<Rightarrow>
          (case v of
             Ready \<Rightarrow> Some (replies, dr, True)
           | Pending \<Rightarrow> Some (replies, dr, False)
           | Again \<Rightarrow>
               (case driver_poll dr rds of
                  None \<Rightarrow> None
                | Some (later, dr, fin) \<Rightarrow> Some (replies @ later, dr, fin))))"

text \<open>The life of the driver over all its polls: the requests it took, its replies, and whether it has returned.\<close>

fun drive :: "Driver \<Rightarrow> 's Round list \<Rightarrow> nat list \<times> (nat \<times> 's answer) list \<times> Driver \<times> bool" where
  "drive dr [] = ([], [], dr, False)"
| "drive dr (rd # rds) =
     (case driver_round dr rd of
        (taken, replies, dr, v) \<Rightarrow>
          if v = Ready then (taken, replies, dr, True)
          else (case drive dr rds of
                  (taken', replies', dr, fin) \<Rightarrow> (taken @ taken', replies @ replies', dr, fin)))"

definition new_driver :: Driver where
  "new_driver = \<lparr> dr_queue = [], dr_channel_open = True \<rparr>"

section \<open>Every request is answered once, in order\<close>

lemma zip_then_rest: "map fst (zip xs ys) @ drop (length (zip xs ys)) xs = xs"
  by (induction xs ys rule: list_induct2') simp_all

lemma driver_round_cases:
  assumes "driver_round dr rd = (taken, replies, dr', v)"
  obtains (over) "taken = []" "replies = map (\<lambda>r. (r, ConnectionClosed)) (dr_queue dr)" "dr_queue dr' = []" "v = Ready"
  | (live) gs where "replies = zip (dr_queue dr @ taken) gs"
      "dr_queue dr' = drop (length (zip (dr_queue dr @ taken) gs)) (dr_queue dr @ taken)"
      "taken = [] \<or> taken = rd_requests rd" "v = Ready \<Longrightarrow> dr_queue dr' = []" "v = Again \<Longrightarrow> replies \<noteq> []"
proof (cases "SessionOver \<in> set (rd_inbound rd)")
  case True
  then show ?thesis using assms by (intro over) (auto simp: driver_round_def)
next
  case False
  show ?thesis
    by (rule live [of "map Given (rd_outbound rd)"])
      (use assms False in \<open>auto simp: driver_round_def Let_def split: if_splits simp del: drop_append length_zip\<close>)
qed

lemma round_fifo:
  assumes "driver_round dr rd = (taken, replies, dr', v)"
  shows "map fst replies @ dr_queue dr' = dr_queue dr @ taken" and "v = Ready \<Longrightarrow> dr_queue dr' = []"
  using assms
  by (cases rule: driver_round_cases; simp add: zip_then_rest comp_def del: length_zip drop_append)+

lemma drive_fifo:
  "drive dr rds = (taken, replies, dr', fin) \<Longrightarrow>
     map fst replies @ dr_queue dr' = dr_queue dr @ taken \<and> (fin \<longrightarrow> dr_queue dr' = [])"
proof (induction dr rds arbitrary: taken replies dr' fin rule: drive.induct)
  case (1 dr)
  then show ?case by simp
next
  case (2 dr rd rds)
  obtain t r d v where rd: "driver_round dr rd = (t, r, d, v)" by (cases "driver_round dr rd")
  note F = round_fifo [OF rd]
  show ?case
  proof (cases "v = Ready")
    case True
    then show ?thesis using 2(2) F rd by auto
  next
    case False
    obtain t' r' d' f' where rec: "drive d rds = (t', r', d', f')" by (cases "drive d rds")
    have "map fst r' @ dr_queue d' = dr_queue d @ t' \<and> (f' \<longrightarrow> dr_queue d' = [])"
      using 2(1) [OF rd [symmetric] refl refl False rec] by blast
    then show ?thesis using 2(2) F(1) rd rec False by auto
  qed
qed



section \<open>A poll returns\<close>



end
