(* ===== verification/Acme.thy ===== *)
theory Acme
  imports Prelude
begin

text \<open>
  Certificates of custom domains (\<^verbatim>\<open>natforge-node/src/acme.rs\<close>): the store the TLS resolver reads, the
  HTTP-01 challenge responses the public router serves, the order of one certificate, the guard against
  concurrent orders, the certificates on disk and their renewal. The certificate authority, the PEM
  parser and the failures of the file system are parameters.
\<close>

section \<open>Certificates and challenges\<close>

type_synonym 'c CertStore = "string \<Rightarrow> 'c option"

type_synonym Challenges = "string \<Rightarrow> string option"

definition has_cert :: "'c CertStore \<Rightarrow> string \<Rightarrow> bool" where
  "has_cert store domain \<longleftrightarrow> store domain \<noteq> None"

definition insert_cert :: "string \<Rightarrow> 'c \<Rightarrow> 'c CertStore \<Rightarrow> 'c CertStore" where
  "insert_cert domain ck store = store(domain \<mapsto> ck)"

text \<open>The certificate for the name of a ClientHello, if it has one.\<close>

definition resolve_cert :: "'c CertStore \<Rightarrow> string option \<Rightarrow> 'c option" where
  "resolve_cert store server_name = Option.bind server_name store"

definition challenge_response :: "Challenges \<Rightarrow> string \<Rightarrow> string option" where
  "challenge_response ch token = ch token"

text \<open>
  A certificate and key from PEM: every certificate of the chain must parse, there must be one, and the
  key must parse and load.
\<close>

definition certified_key ::
    "(string \<Rightarrow> (string + bytes) list) \<Rightarrow> (string \<Rightarrow> string + bytes) \<Rightarrow> (bytes \<Rightarrow> string + 'k) \<Rightarrow> string \<Rightarrow> string
     \<Rightarrow> string + bytes list \<times> 'k" where
  "certified_key chain private_key load cert_pem key_pem =
     (let certs = chain cert_pem in
      if \<exists>c \<in> set certs. isl c then Inl ''parse ACME cert chain''
      else if certs = [] then Inl ''empty ACME cert chain''
      else case private_key key_pem of
             Inl _ \<Rightarrow> Inl ''parse ACME key''
           | Inr k \<Rightarrow> (case load k of Inl _ \<Rightarrow> Inl ''load ACME signing key'' | Inr sk \<Rightarrow> Inr (map projr certs, sk)))"

section \<open>One order\<close>

text \<open>
  What the authority answers: the account, the order, its authorizations (an error, one without an HTTP-01
  challenge, or one with its token and response and whether it could be set ready), the validation, the
  key of the finalized order, and the chain at each attempt to fetch it.
\<close>

datatype authorization = AuthzError string | NoHttp01 | Http01 string string "string + unit"

record AcmeOrder =
  ao_account :: "string + unit"
  ao_order :: "string + unit"
  ao_authorizations :: "authorization list"
  ao_ready :: "string + unit"
  ao_finalize :: "string + string"
  ao_certificate :: "nat \<Rightarrow> string + string option"

text \<open>Publishing the responses: the tokens published, or the error that returns at once.\<close>

fun publish :: "authorization list \<Rightarrow> Challenges \<Rightarrow> (string + string list) \<times> Challenges" where
  "publish [] ch = (Inr [], ch)"
| "publish (AuthzError e # as) ch = (Inl e, ch)"
| "publish (NoHttp01 # as) ch = publish as ch"
| "publish (Http01 token key_auth set_ready # as) ch =
     (case set_ready of
        Inl e \<Rightarrow> (Inl e, ch(token \<mapsto> key_auth))
      | Inr _ \<Rightarrow>
          (case publish as (ch(token \<mapsto> key_auth)) of
             (Inl e, ch) \<Rightarrow> (Inl e, ch)
           | (Inr tokens, ch) \<Rightarrow> (Inr (token # tokens), ch)))"

text \<open>At most thirty attempts to fetch the chain, from the given one on.\<close>

fun fetch_chain :: "(nat \<Rightarrow> string + string option) \<Rightarrow> nat \<Rightarrow> nat \<Rightarrow> string + string option" where
  "fetch_chain answer i 0 = Inr None"
| "fetch_chain answer i (Suc n) =
     and_then (answer i) (\<lambda>c. case c of Some pem \<Rightarrow> Inr (Some pem) | None \<Rightarrow> fetch_chain answer (Suc i) n)"

definition complete_order :: "AcmeOrder \<Rightarrow> string + string \<times> string" where
  "complete_order ao =
     and_then (ao_ready ao) (\<lambda>_.
     and_then (ao_finalize ao) (\<lambda>key_pem.
     and_then (fetch_chain (ao_certificate ao) 0 30) (\<lambda>cert.
       case cert of
         Some cert_pem \<Rightarrow> Inr (cert_pem, key_pem)
       | None \<Rightarrow> Inl ''certificate not ready after finalize'')))"

definition drop_tokens :: "string list \<Rightarrow> Challenges \<Rightarrow> Challenges" where
  "drop_tokens tokens ch = fold (\<lambda>t ch. ch(t := None)) tokens ch"

definition issue_certificate :: "AcmeOrder \<Rightarrow> Challenges \<Rightarrow> (string + string \<times> string) \<times> Challenges" where
  "issue_certificate ao ch =
     (case ao_account ao of
        Inl e \<Rightarrow> (Inl e, ch)
      | Inr _ \<Rightarrow>
          (case ao_order ao of
             Inl _ \<Rightarrow> (Inl ''ACME new order'', ch)
           | Inr _ \<Rightarrow>
               (case publish (ao_authorizations ao) ch of
                  (Inl e, ch) \<Rightarrow> (Inl e, ch)
                | (Inr tokens, ch) \<Rightarrow>
                    (case complete_order ao of Inl _ \<Rightarrow> Inl ''ACME order'' | Inr pems \<Rightarrow> Inr pems, drop_tokens tokens ch))))"

section \<open>State\<close>

text \<open>A domain's directory on disk: the two files, and the seconds since the chain was written.\<close>

record CertFiles =
  cf_cert :: "string option"
  cf_key :: "string option"
  cf_age :: "nat option"

record 'c AcmeState =
  ac_enabled :: bool
  ac_store :: "'c CertStore"
  ac_challenges :: Challenges
  ac_issuing :: "string list"
  ac_disk :: "(string \<times> CertFiles) list"

definition acme_directory :: "string \<Rightarrow> string \<Rightarrow> bool \<Rightarrow> string option \<Rightarrow> string" where
  "acme_directory staging_url production_url staging directory_override =
     (case directory_override of Some url \<Rightarrow> url | None \<Rightarrow> if staging then staging_url else production_url)"

text \<open>Loading the certificates found on disk into the store; unreadable or bad ones are skipped.\<close>

fun load_existing :: "(string \<Rightarrow> string \<Rightarrow> string + 'c) \<Rightarrow> (string \<times> CertFiles) list \<Rightarrow> 'c CertStore \<Rightarrow> 'c CertStore" where
  "load_existing parse [] store = store"
| "load_existing parse ((domain, files) # rest) store =
     load_existing parse rest
       (case (cf_cert files, cf_key files) of
          (Some c, Some k) \<Rightarrow> (case parse c k of Inr ck \<Rightarrow> insert_cert domain ck store | Inl _ \<Rightarrow> store)
        | _ \<Rightarrow> store)"

definition put_files :: "string \<Rightarrow> (CertFiles \<Rightarrow> CertFiles) \<Rightarrow> (string \<times> CertFiles) list \<Rightarrow> (string \<times> CertFiles) list" where
  "put_files domain f disk =
     (if domain \<in> fst ` set disk then map (\<lambda>(d, x). (d, if d = domain then f x else x)) disk
      else disk @ [(domain, f \<lparr> cf_cert = None, cf_key = None, cf_age = None \<rparr>)])"

text \<open>Which of the three steps on the file system fails, if any.\<close>

datatype disk_fault = DirFails | CertFails | KeyFails

definition store_files :: "disk_fault option \<Rightarrow> string \<Rightarrow> string \<Rightarrow> string \<Rightarrow> (string \<times> CertFiles) list \<Rightarrow> (string + unit) \<times> (string \<times> CertFiles) list" where
  "store_files fails domain cert_pem key_pem disk =
     (if fails = Some DirFails then (Inl ''create acme cert dir'', disk)
      else if fails = Some CertFails then (Inl ''write cert.pem'', put_files domain id disk)
      else
        let disk = put_files domain (\<lambda>x. x\<lparr>cf_cert := Some cert_pem, cf_age := Some 0\<rparr>) disk in
        if fails = Some KeyFails then (Inl ''write key.pem'', disk)
        else (Inr (), put_files domain (\<lambda>x. x\<lparr>cf_key := Some key_pem\<rparr>) disk))"

definition issue_and_store ::
    "(string \<Rightarrow> string \<Rightarrow> string + 'c) \<Rightarrow> disk_fault option \<Rightarrow> AcmeOrder \<Rightarrow> string \<Rightarrow> 'c AcmeState
     \<Rightarrow> (string + unit) \<times> 'c AcmeState" where
  "issue_and_store parse fails ao domain s =
     (case issue_certificate ao (ac_challenges s) of
        (res, ch) \<Rightarrow>
          let s = s\<lparr>ac_challenges := ch\<rparr> in
          case res of
            Inl e \<Rightarrow> (Inl e, s)
          | Inr (cert_pem, key_pem) \<Rightarrow>
              (case store_files fails domain cert_pem key_pem (ac_disk s) of
                 (written, disk) \<Rightarrow>
                   let s = s\<lparr>ac_disk := disk\<rparr> in
                   case and_then written (\<lambda>_. parse cert_pem key_pem) of
                     Inl e \<Rightarrow> (Inl e, s)
                   | Inr ck \<Rightarrow> (Inr (), s\<lparr>ac_store := insert_cert domain ck (ac_store s)\<rparr>)))"

text \<open>Re-issuing what is sixty days old; a file without a known age counts as new.\<close>

definition due :: "CertFiles \<Rightarrow> bool" where
  "due files \<longleftrightarrow> 60 \<le> (case cf_age files of Some secs \<Rightarrow> secs div 86400 | None \<Rightarrow> 0)"

fun renew_each ::
    "(string \<Rightarrow> string \<Rightarrow> string + 'c) \<Rightarrow> (string \<Rightarrow> disk_fault option \<times> AcmeOrder) \<Rightarrow> (string \<times> CertFiles) list \<Rightarrow> 'c AcmeState
     \<Rightarrow> 'c AcmeState" where
  "renew_each parse world [] s = s"
| "renew_each parse world ((domain, files) # rest) s =
     renew_each parse world rest
       (if due files then snd (issue_and_store parse (fst (world domain)) (snd (world domain)) domain s) else s)"

definition renew_due ::
    "(string \<Rightarrow> string \<Rightarrow> string + 'c) \<Rightarrow> (string \<Rightarrow> disk_fault option \<times> AcmeOrder) \<Rightarrow> 'c AcmeState \<Rightarrow> 'c AcmeState" where
  "renew_due parse world s = (if \<not> ac_enabled s then s else renew_each parse world (ac_disk s) s)"

section \<open>Orders in the background\<close>

text \<open>
  \<^verbatim>\<open>ensure_cert\<close> spawns a task; the task takes the lock on the set of domains being issued, leaves if
  there is a certificate or an order by now, and otherwise orders and then releases the domain. The
  tasks of many connections interleave; the effects of an order are taken together at its end.
\<close>

datatype issue_task = TaskWaiting string | TaskOrdering string | TaskOver

record 'c AcmeTasks =
  at_state :: "'c AcmeState"
  at_tasks :: "issue_task list"

definition ensure_cert :: "string \<Rightarrow> 'c AcmeTasks \<Rightarrow> 'c AcmeTasks" where
  "ensure_cert domain w =
     (if \<not> ac_enabled (at_state w) \<or> has_cert (ac_store (at_state w)) domain then w
      else w\<lparr>at_tasks := at_tasks w @ [TaskWaiting domain]\<rparr>)"

definition begin_order :: "nat \<Rightarrow> string \<Rightarrow> 'c AcmeTasks \<Rightarrow> 'c AcmeTasks" where
  "begin_order i domain w =
     (let s = at_state w in
      if has_cert (ac_store s) domain \<or> domain \<in> set (ac_issuing s) then w\<lparr>at_tasks := (at_tasks w)[i := TaskOver]\<rparr>
      else w\<lparr>at_state := s\<lparr>ac_issuing := domain # ac_issuing s\<rparr>, at_tasks := (at_tasks w)[i := TaskOrdering domain]\<rparr>)"

definition end_order ::
    "(string \<Rightarrow> string \<Rightarrow> string + 'c) \<Rightarrow> disk_fault option \<Rightarrow> AcmeOrder \<Rightarrow> nat \<Rightarrow> string \<Rightarrow> 'c AcmeTasks \<Rightarrow> 'c AcmeTasks" where
  "end_order parse fails ao i domain w =
     (let s = snd (issue_and_store parse fails ao domain (at_state w))
      in w\<lparr>at_state := s\<lparr>ac_issuing := filter (\<lambda>d. d \<noteq> domain) (ac_issuing s)\<rparr>, at_tasks := (at_tasks w)[i := TaskOver]\<rparr>)"

inductive acme_step :: "(string \<Rightarrow> string \<Rightarrow> string + 'c) \<Rightarrow> 'c AcmeTasks \<Rightarrow> 'c AcmeTasks \<Rightarrow> bool" for parse where
  acme_trigger: "acme_step parse w (ensure_cert domain w)"
| acme_begin: "i < length (at_tasks w) \<Longrightarrow> at_tasks w ! i = TaskWaiting domain \<Longrightarrow> acme_step parse w (begin_order i domain w)"
| acme_end: "i < length (at_tasks w) \<Longrightarrow> at_tasks w ! i = TaskOrdering domain \<Longrightarrow>
    acme_step parse w (end_order parse fails ao i domain w)"

inductive acme_reachable :: "(string \<Rightarrow> string \<Rightarrow> string + 'c) \<Rightarrow> 'c AcmeTasks \<Rightarrow> bool" for parse where
  acme_init: "ac_issuing s = [] \<Longrightarrow> acme_reachable parse \<lparr> at_state = s, at_tasks = [] \<rparr>"
| acme_next: "acme_reachable parse w \<Longrightarrow> acme_step parse w w' \<Longrightarrow> acme_reachable parse w'"

text \<open>The domains being ordered are those of the tasks that order, each once.\<close>

fun ordering :: "issue_task \<Rightarrow> string list" where
  "ordering (TaskOrdering d) = [d]"
| "ordering t = []"

definition orders :: "issue_task list \<Rightarrow> string list" where
  "orders ts = concat (map ordering ts)"

definition guard_inv :: "'c AcmeTasks \<Rightarrow> bool" where
  "guard_inv w \<longleftrightarrow> distinct (orders (at_tasks w)) \<and> set (orders (at_tasks w)) = set (ac_issuing (at_state w))"

lemma orders_append [simp]: "orders [] = []" "orders (a @ b) = orders a @ orders b" "orders (t # ts) = ordering t @ orders ts"
  by (simp_all add: orders_def)

lemma orders_split: "i < length ts \<Longrightarrow> orders ts = orders (take i ts) @ ordering (ts ! i) @ orders (drop (Suc i) ts)"
  using arg_cong [OF id_take_nth_drop [of i ts], of orders] by simp

lemma orders_update: "i < length ts \<Longrightarrow> orders (ts[i := t]) = orders (take i ts) @ ordering t @ orders (drop (Suc i) ts)"
  by (simp add: upd_conv_take_nth_drop)

lemma issue_and_store_guard [simp]: "ac_issuing (snd (issue_and_store parse fails ao domain s)) = ac_issuing s"
  by (auto simp: issue_and_store_def Let_def split: prod.splits sum.splits)

lemma reachable_guard: "acme_reachable parse w \<Longrightarrow> guard_inv w"
proof (induction rule: acme_reachable.induct)
  case (acme_init s)
  then show ?case by (simp add: guard_inv_def orders_def)
next
  case (acme_next w w')
  note inv = acme_next(3)
  from acme_next(2) show ?case
  proof (cases rule: acme_step.cases)
    case (acme_trigger domain)
    then show ?thesis using inv by (simp add: ensure_cert_def guard_inv_def orders_def)
  next
    case (acme_begin i domain)
    note o = orders_split [OF acme_begin(2)] orders_update [OF acme_begin(2)]
    show ?thesis using inv by (auto simp: acme_begin(1,3) begin_order_def guard_inv_def o Let_def)
  next
    case (acme_end i domain fails ao)
    note o = orders_split [OF acme_end(2)] orders_update [OF acme_end(2)]
    show ?thesis using inv by (auto simp: acme_end(1,3) end_order_def guard_inv_def o Let_def)
  qed
qed

lemma ordering_iff: "t = TaskOrdering d \<longleftrightarrow> d \<in> set (ordering t)"
  by (cases t) auto

text \<open>
  C33: at most one order per domain. However many connections ask for a certificate of a domain, and
  however their tasks interleave, no two tasks order one for the same domain at the same time, and a task
  that begins finds neither a certificate nor an order in progress. An order that ends releases the
  domain, so that a later connection can try again.
\<close>

theorem one_order_per_domain:
  assumes "acme_reachable parse w" and "i < length (at_tasks w)" and "at_tasks w ! i = TaskOrdering d"
  shows "(\<forall>j < length (at_tasks w). at_tasks w ! j = TaskOrdering d \<longrightarrow> j = i)
    \<and> d \<in> set (ac_issuing (at_state w))
    \<and> (\<forall>fails ao. d \<notin> set (ac_issuing (at_state (end_order parse fails ao i d w))))"
proof -
  have inv: "distinct (orders (at_tasks w))" "set (orders (at_tasks w)) = set (ac_issuing (at_state w))"
    using reachable_guard [OF assms(1)] by (simp_all add: guard_inv_def)
  note o = orders_split [OF assms(2)]
  have other: "d \<notin> set (orders (take i (at_tasks w)))" "d \<notin> set (orders (drop (Suc i) (at_tasks w)))"
    using inv(1) by (auto simp: o assms(3))
  have "j = i" if j: "j < length (at_tasks w)" "at_tasks w ! j = TaskOrdering d" for j
  proof (rule ccontr)
    assume "j \<noteq> i"
    then consider "j < i" | "i < j" by linarith
    then show False
    proof cases
      case 1
      then have "at_tasks w ! j \<in> set (take i (at_tasks w))" using j(1) assms(2) by (auto simp: in_set_conv_nth)
      then show False using other(1) j(2) by (force simp: orders_def)
    next
      case 2
      then have "drop (Suc i) (at_tasks w) ! (j - Suc i) = at_tasks w ! j" "j - Suc i < length (drop (Suc i) (at_tasks w))"
        using j(1) by auto
      then have "at_tasks w ! j \<in> set (drop (Suc i) (at_tasks w))" by (metis nth_mem)
      then show False using other(2) j(2) by (force simp: orders_def)
    qed
  qed
  moreover have "d \<in> set (ac_issuing (at_state w))" using inv(2) by (auto simp: o assms(3))
  ultimately show ?thesis by (auto simp: end_order_def Let_def)
qed

definition demo_acme :: "unit AcmeState" where
  "demo_acme = \<lparr> ac_enabled = True, ac_store = (\<lambda>_. None), ac_challenges = (\<lambda>_. None), ac_issuing = [], ac_disk = [] \<rparr>"

theorem one_order_per_domain_witness:
  "\<exists>w. acme_reachable (\<lambda>_ _. Inr ()) w \<and> at_tasks w = [TaskOrdering ''a.b'', TaskOver] \<and> ac_issuing (at_state w) = [''a.b'']
     \<and> (\<forall>j < 2. at_tasks w ! j = TaskOrdering ''a.b'' \<longrightarrow> j = 0)"
proof -
  let ?w = "\<lambda>issuing ts. \<lparr> at_state = demo_acme\<lparr>ac_issuing := issuing\<rparr>, at_tasks = ts \<rparr>"
  let ?r = "acme_reachable (\<lambda>_ _. Inr ())"
  have 0: "?r (?w [] [])" by (rule acme_init) simp
  have 1: "?r (?w [] [TaskWaiting ''a.b''])"
    using acme_next [OF 0 acme_trigger [where domain = "''a.b''"]] by (simp add: ensure_cert_def demo_acme_def has_cert_def)
  have 2: "?r (?w [] [TaskWaiting ''a.b'', TaskWaiting ''a.b''])"
    using acme_next [OF 1 acme_trigger [where domain = "''a.b''"]] by (simp add: ensure_cert_def demo_acme_def has_cert_def)
  have 3: "?r (?w [''a.b''] [TaskOrdering ''a.b'', TaskWaiting ''a.b''])"
    using acme_next [OF 2 acme_begin [of 0 _ "''a.b''"]] by (simp add: begin_order_def demo_acme_def has_cert_def Let_def)
  have 4: "?r (?w [''a.b''] [TaskOrdering ''a.b'', TaskOver])"
    using acme_next [OF 3 acme_begin [of 1 _ "''a.b''"]] by (simp add: begin_order_def demo_acme_def has_cert_def Let_def)
  have "\<forall>j < 2. at_tasks (?w [''a.b''] [TaskOrdering ''a.b'', TaskOver]) ! j = TaskOrdering ''a.b'' \<longrightarrow> j = 0"
    using one_order_per_domain [OF 4, of 0 "''a.b''"] by simp
  then show ?thesis using 4 by (intro exI [of _ "?w [''a.b''] [TaskOrdering ''a.b'', TaskOver]"]) simp
qed

section \<open>Challenge responses\<close>

definition token_of :: "authorization \<Rightarrow> string list" where
  "token_of a = (case a of Http01 token _ _ \<Rightarrow> [token] | _ \<Rightarrow> [])"

lemma publish_Inr:
  "publish as ch = (Inr tokens, ch') \<Longrightarrow> tokens = concat (map token_of as) \<and> (\<forall>t. t \<notin> set tokens \<longrightarrow> ch' t = ch t)"
proof (induction as ch arbitrary: tokens ch' rule: publish.induct)
  case (4 token key_auth set_ready as ch)
  show ?case
  proof (cases "set_ready")
    case (Inl e)
    then show ?thesis using 4(2) by simp
  next
    case (Inr u)
    obtain ts where ts: "publish as (ch(token \<mapsto> key_auth)) = (Inr ts, ch')" "tokens = token # ts"
      using 4(2) Inr by (auto split: prod.splits sum.splits)
    then show ?thesis using 4(1) [OF Inr ts(1)] by (auto simp: token_of_def)
  qed
qed (auto simp: token_of_def)

lemma publish_serves:
  "publish as ch = (Inr tokens, ch') \<Longrightarrow> distinct tokens \<Longrightarrow> Http01 t k r \<in> set as \<Longrightarrow> ch' t = Some k"
proof (induction as ch arbitrary: tokens ch' rule: publish.induct)
  case (4 token key_auth set_ready as ch)
  then obtain u ts where ts: "set_ready = Inr u" "publish as (ch(token \<mapsto> key_auth)) = (Inr ts, ch')" "tokens = token # ts"
    by (auto split: sum.splits prod.splits)
  have ch': "t' \<notin> set ts \<Longrightarrow> ch' t' = (ch(token \<mapsto> key_auth)) t'" for t'
    using publish_Inr [OF ts(2)] by blast
  show ?case
  proof (cases "Http01 t k r \<in> set as")
    case True
    then show ?thesis using 4(1) [OF ts(1,2)] 4(3) ts(3) by simp
  next
    case False
    then have "t = token" "k = key_auth" using 4(4) by auto
    then show ?thesis using ch' [of t] 4(3) ts(3) by simp
  qed
qed auto

lemma complete_order_Inr:
  "complete_order ao = Inr (cert, key) \<longleftrightarrow>
     ao_ready ao = Inr () \<and> ao_finalize ao = Inr key \<and> fetch_chain (ao_certificate ao) 0 30 = Inr (Some cert)"
proof (cases "fetch_chain (ao_certificate ao) 0 30")
  case (Inl e)
  then show ?thesis by (simp add: complete_order_def and_then_Inr_iff)
next
  case (Inr c)
  then show ?thesis by (cases c) (auto simp: complete_order_def and_then_Inr_iff)
qed

lemma drop_tokens_lookup: "drop_tokens tokens ch t = (if t \<in> set tokens then None else ch t)"
proof -
  have "fold (\<lambda>t ch. ch(t := None)) tokens ch t = (if t \<in> set tokens then None else ch t)"
    by (induction tokens arbitrary: ch) auto
  then show ?thesis by (simp add: drop_tokens_def)
qed


definition demo_order :: AcmeOrder where
  "demo_order = \<lparr> ao_account = Inr (), ao_order = Inr (), ao_authorizations = [NoHttp01, Http01 ''tok'' ''auth'' (Inr ())],
     ao_ready = Inr (), ao_finalize = Inr ''key'', ao_certificate = (\<lambda>i. Inr (if i = 2 then Some ''pem'' else None)) \<rparr>"


text \<open>
  The comment says the tokens are dropped whether issuance succeeded or not. An authorization that cannot
  be fetched, or a challenge that cannot be set ready, returns before that: the response stays.
\<close>

theorem early_error_keeps_token:
  "\<exists>ao e ch. issue_certificate ao (\<lambda>_. None) = (Inl e, ch) \<and> challenge_response ch ''tok'' = Some ''auth''"
  by (rule exI [of _ "demo_order\<lparr>ao_authorizations := [Http01 ''tok'' ''auth'' (Inr ()), AuthzError ''gone'']\<rparr>"])
    (simp add: issue_certificate_def demo_order_def challenge_response_def)

end
