(* ===== verification/Dns.thy ===== *)
theory Dns
  imports Session
begin

text \<open>
  The SRV records of labelled routes (\<^verbatim>\<open>natforge-node/src/dns.rs\<close>) and their life in a session: provisioned
  when the routes are registered, removed by the teardown. Cloudflare's API is a parameter, a function of
  the token, the request and the zone; a failed call is an error text. What the code relies on is
  \<^verbatim>\<open>srv_api\<close>.
\<close>

section \<open>Requests\<close>

datatype cf_request = CfGet string | CfPost string Json | CfDelete string

type_synonym 'z cloudflare = "string \<Rightarrow> cf_request \<Rightarrow> 'z \<Rightarrow> (string + Json) \<times> 'z"

definition is_mock :: "Config \<Rightarrow> bool" where
  "is_mock cfg \<longleftrightarrow> cf_api_token cfg = ''mock_token'' \<or> cf_api_token cfg = []"

definition srv_name :: "string \<Rightarrow> string \<Rightarrow> string \<Rightarrow> string \<Rightarrow> string" where
  "srv_name service proto subdomain domain = ''_'' @ service @ ''._'' @ proto @ ''.'' @ subdomain @ ''.'' @ domain"

definition records_url :: "Config \<Rightarrow> string" where
  "records_url cfg = ''https://api.cloudflare.com/client/v4/zones/'' @ cf_zone_id cfg @ ''/dns_records''"

definition list_url :: "Config \<Rightarrow> string \<Rightarrow> string" where
  "list_url cfg name = records_url cfg @ ''?type=SRV&name='' @ name"

definition record_url :: "Config \<Rightarrow> string \<Rightarrow> string" where
  "record_url cfg rid = records_url cfg @ ''/'' @ rid"

definition srv_body :: "string \<Rightarrow> u16 \<Rightarrow> string \<Rightarrow> Json" where
  "srv_body name port target =
     JObj [(''type'', JStr ''SRV''), (''name'', JStr name), (''ttl'', JInt 1),
       (''data'', JObj [(''priority'', JInt 0), (''weight'', JInt 5), (''port'', JInt (uint port)), (''target'', JStr target)])]"

definition json_str :: "Json \<Rightarrow> string option" where
  "json_str v = (case v of JStr s \<Rightarrow> Some s | _ \<Rightarrow> None)"

section \<open>Provisioning and removal\<close>

fun delete_records :: "'z cloudflare \<Rightarrow> Config \<Rightarrow> Json list \<Rightarrow> 'z \<Rightarrow> 'z" where
  "delete_records cf cfg [] z = z"
| "delete_records cf cfg (rec # recs) z =
     delete_records cf cfg recs
       (case Option.bind (get_field rec ''id'') json_str of
          Some rid \<Rightarrow> snd (cf (cf_api_token cfg) (CfDelete (record_url cfg rid)) z)
        | None \<Rightarrow> z)"

definition remove_srv ::
    "'z cloudflare \<Rightarrow> Config \<Rightarrow> string \<Rightarrow> string \<Rightarrow> string \<Rightarrow> string \<Rightarrow> 'z \<Rightarrow> (string + unit) \<times> 'z" where
  "remove_srv cf cfg service proto subdomain domain z =
     (if is_mock cfg then (Inr (), z)
      else case cf (cf_api_token cfg) (CfGet (list_url cfg (srv_name service proto subdomain domain))) z of
             (Inl e, z) \<Rightarrow> (Inl e, z)
           | (Inr v, z) \<Rightarrow>
               (Inr (), case Option.bind (get_field v ''result'') as_array of
                          Some recs \<Rightarrow> delete_records cf cfg recs z
                        | None \<Rightarrow> z))"

definition provision_srv ::
    "'z cloudflare \<Rightarrow> (Json \<Rightarrow> string) \<Rightarrow> Config \<Rightarrow> string \<Rightarrow> string \<Rightarrow> string \<Rightarrow> string \<Rightarrow> u16 \<Rightarrow> 'z \<Rightarrow> (string + unit) \<times> 'z" where
  "provision_srv cf show_json cfg service proto subdomain domain port z =
     (let fqdn = subdomain @ ''.'' @ domain;
          name = srv_name service proto subdomain domain
      in if is_mock cfg then (Inr (), z)
         else
           let z = snd (remove_srv cf cfg service proto subdomain domain z)
           in case cf (cf_api_token cfg) (CfPost (records_url cfg) (srv_body name port fqdn)) z of
                (Inl e, z) \<Rightarrow> (Inl e, z)
              | (Inr v, z) \<Rightarrow>
                  (if get_field v ''success'' = Some (JBool True) then Inr ()
                   else Inl (''cloudflare SRV create failed: ''
                          @ show_json (case get_field v ''errors'' of Some x \<Rightarrow> x | None \<Rightarrow> JNull)), z))"

section \<open>In a session\<close>

text \<open>The part of one iteration of step 5 that speaks to Cloudflare, and the last step of a teardown.\<close>

definition srv_proto :: "PlannedRoute \<Rightarrow> string" where
  "srv_proto p = (if p_mode p = Udp then ''udp'' else ''tcp'')"

definition provision_route ::
    "'z cloudflare \<Rightarrow> (Json \<Rightarrow> string) \<Rightarrow> Config \<Rightarrow> string \<Rightarrow> PlannedRoute \<Rightarrow> 'z \<Rightarrow> 'z" where
  "provision_route cf show_json cfg subdomain p z =
     (case (p_srv_service p, p_public_port p) of
        (Some service, Some port) \<Rightarrow>
          snd (provision_srv cf show_json cfg service (srv_proto p) subdomain (public_host cfg) port z)
      | _ \<Rightarrow> z)"

definition remove_srvs :: "'z cloudflare \<Rightarrow> Config \<Rightarrow> string \<Rightarrow> (string \<times> string) list \<Rightarrow> 'z \<Rightarrow> 'z" where
  "remove_srvs cf cfg subdomain srvs z =
     fold (\<lambda>(service, proto) z. snd (remove_srv cf cfg service proto subdomain (public_host cfg) z)) srvs z"

section \<open>What the API promises\<close>

record SrvRecord =
  sr_id :: string
  sr_name :: string
  sr_port :: u16
  sr_target :: string

text \<open>
  Listing by name gives the records of that name with their ids, deleting an id removes its record, and
  creating a record succeeds and adds it under a new id.
\<close>

definition srv_api :: "'z cloudflare \<Rightarrow> Config \<Rightarrow> ('z \<Rightarrow> SrvRecord list) \<Rightarrow> bool" where
  "srv_api cf cfg zone \<longleftrightarrow>
     (\<forall>name z. \<exists>v vs. cf (cf_api_token cfg) (CfGet (list_url cfg name)) z = (Inr v, z)
        \<and> Option.bind (get_field v ''result'') as_array = Some vs
        \<and> map (\<lambda>v. Option.bind (get_field v ''id'') json_str) vs
          = map (\<lambda>r. Some (sr_id r)) (filter (\<lambda>r. sr_name r = name) (zone z)))
   \<and> (\<forall>rid z. zone (snd (cf (cf_api_token cfg) (CfDelete (record_url cfg rid)) z)) = filter (\<lambda>r. sr_id r \<noteq> rid) (zone z))
   \<and> (\<forall>name port target z. \<exists>v z' rid. cf (cf_api_token cfg) (CfPost (records_url cfg) (srv_body name port target)) z = (Inr v, z')
        \<and> get_field v ''success'' = Some (JBool True) \<and> rid \<notin> sr_id ` set (zone z)
        \<and> zone z' = zone z @ [\<lparr> sr_id = rid, sr_name = name, sr_port = port, sr_target = target \<rparr>])"

lemma srv_api_list:
  assumes "srv_api cf cfg zone"
  obtains v vs where "cf (cf_api_token cfg) (CfGet (list_url cfg name)) z = (Inr v, z)"
    and "Option.bind (get_field v ''result'') as_array = Some vs"
    and "map (\<lambda>v. Option.bind (get_field v ''id'') json_str) vs = map Some (map sr_id (filter (\<lambda>r. sr_name r = name) (zone z)))"
proof -
  have "\<exists>v vs. cf (cf_api_token cfg) (CfGet (list_url cfg name)) z = (Inr v, z)
      \<and> Option.bind (get_field v ''result'') as_array = Some vs
      \<and> map (\<lambda>v. Option.bind (get_field v ''id'') json_str) vs = map (\<lambda>r. Some (sr_id r)) (filter (\<lambda>r. sr_name r = name) (zone z))"
    using assms unfolding srv_api_def by blast
  then show ?thesis using that by (auto simp: comp_def)
qed

lemma srv_api_create:
  assumes "srv_api cf cfg zone"
  obtains v z' rid where "cf (cf_api_token cfg) (CfPost (records_url cfg) (srv_body name port target)) z = (Inr v, z')"
    and "get_field v ''success'' = Some (JBool True)" and "rid \<notin> sr_id ` set (zone z)"
    and "zone z' = zone z @ [\<lparr> sr_id = rid, sr_name = name, sr_port = port, sr_target = target \<rparr>]"
  using assms unfolding srv_api_def by blast

definition zone_ok :: "('z \<Rightarrow> SrvRecord list) \<Rightarrow> 'z \<Rightarrow> bool" where
  "zone_ok zone z \<longleftrightarrow> distinct (map sr_id (zone z))"

lemma delete_records_zone:
  "srv_api cf cfg zone \<Longrightarrow> map (\<lambda>v. Option.bind (get_field v ''id'') json_str) vs = map Some ids \<Longrightarrow>
     zone (delete_records cf cfg vs z) = filter (\<lambda>r. sr_id r \<notin> set ids) (zone z)"
proof (induction vs arbitrary: ids z)
  case (Cons v vs)
  obtain rid ids' where ids: "ids = rid # ids'" using Cons.prems(2) by (cases ids) auto
  have d: "zone (snd (cf (cf_api_token cfg) (CfDelete (record_url cfg rid)) z)) = filter (\<lambda>r. sr_id r \<noteq> rid) (zone z)"
    using Cons.prems(1) by (simp add: srv_api_def)
  show ?case
    using Cons.IH [OF Cons.prems(1), of ids' "snd (cf (cf_api_token cfg) (CfDelete (record_url cfg rid)) z)"] Cons.prems(2) d
    by (auto simp: ids intro: filter_cong)
qed simp

lemma remove_srv_zone:
  assumes "srv_api cf cfg zone" and "\<not> is_mock cfg" and "zone_ok zone z"
  shows "zone (snd (remove_srv cf cfg service proto subdomain domain z))
    = filter (\<lambda>r. sr_name r \<noteq> srv_name service proto subdomain domain) (zone z)"
proof -
  let ?name = "srv_name service proto subdomain domain"
  let ?rs = "filter (\<lambda>r. sr_name r = ?name) (zone z)"
  obtain v vs where l: "cf (cf_api_token cfg) (CfGet (list_url cfg ?name)) z = (Inr v, z)"
    "Option.bind (get_field v ''result'') as_array = Some vs"
    "map (\<lambda>v. Option.bind (get_field v ''id'') json_str) vs = map Some (map sr_id ?rs)"
    by (rule srv_api_list [OF assms(1)])
  have "sr_id r \<notin> set (map sr_id ?rs) \<longleftrightarrow> sr_name r \<noteq> ?name" if "r \<in> set (zone z)" for r
    using assms(3) that by (auto simp: zone_ok_def distinct_map inj_on_def)
  then have "filter (\<lambda>r. sr_id r \<notin> set (map sr_id ?rs)) (zone z) = filter (\<lambda>r. sr_name r \<noteq> ?name) (zone z)"
    by (intro filter_cong) simp_all
  then show ?thesis
    using delete_records_zone [OF assms(1) l(3), of z] by (simp add: remove_srv_def assms(2) l(1,2))
qed

lemma zone_ok_filter: "zone_ok zone z \<Longrightarrow> zone z' = filter P (zone z) \<Longrightarrow> zone_ok zone z'"
  by (simp add: zone_ok_def distinct_map_filter)

lemma provision_srv_zone:
  assumes "srv_api cf cfg zone" and "\<not> is_mock cfg" and "zone_ok zone z"
  obtains z' rid where "provision_srv cf show_json cfg service proto subdomain domain port z = (Inr (), z')"
    and "zone z' = filter (\<lambda>r. sr_name r \<noteq> srv_name service proto subdomain domain) (zone z)
      @ [\<lparr> sr_id = rid, sr_name = srv_name service proto subdomain domain, sr_port = port, sr_target = subdomain @ ''.'' @ domain \<rparr>]"
    and "zone_ok zone z'"
proof -
  let ?name = "srv_name service proto subdomain domain" and ?target = "subdomain @ ''.'' @ domain"
  let ?z1 = "snd (remove_srv cf cfg service proto subdomain domain z)"
  note rm = remove_srv_zone [OF assms, of service proto subdomain domain]
  obtain v z' rid where p: "cf (cf_api_token cfg) (CfPost (records_url cfg) (srv_body ?name port ?target)) ?z1 = (Inr v, z')"
    "get_field v ''success'' = Some (JBool True)" "rid \<notin> sr_id ` set (zone ?z1)"
    "zone z' = zone ?z1 @ [\<lparr> sr_id = rid, sr_name = ?name, sr_port = port, sr_target = ?target \<rparr>]"
    by (rule srv_api_create [OF assms(1)])
  have "zone_ok zone z'"
    using zone_ok_filter [OF assms(3) rm] p(3) by (simp add: zone_ok_def p(4))
  then show ?thesis
    using that [of z' rid] p(4) by (simp add: provision_srv_def assms(2) Let_def p(1) [simplified] p(2) rm)
qed

section \<open>Records follow the session\<close>

text \<open>The record name of a labelled route, if it is one.\<close>

definition srv_of :: "Config \<Rightarrow> string \<Rightarrow> PlannedRoute \<Rightarrow> string option" where
  "srv_of cfg subdomain p =
     (case (p_srv_service p, p_public_port p) of
        (Some service, Some port) \<Rightarrow> Some (srv_name service (srv_proto p) subdomain (public_host cfg))
      | _ \<Rightarrow> None)"

definition srv_names :: "Config \<Rightarrow> string \<Rightarrow> PlannedRoute list \<Rightarrow> string set" where
  "srv_names cfg subdomain ps = {n. \<exists>p \<in> set ps. srv_of cfg subdomain p = Some n}"

lemma mock_zone_untouched: "is_mock cfg \<Longrightarrow> provision_route cf show_json cfg subdomain p z = z"
  by (auto simp: provision_route_def provision_srv_def Let_def split: option.split)

lemma provision_route_zone:
  assumes "srv_api cf cfg zone" and "\<not> is_mock cfg" and "zone_ok zone z"
  shows "zone_ok zone (provision_route cf show_json cfg subdomain p z)
    \<and> (srv_of cfg subdomain p = None \<longrightarrow> zone (provision_route cf show_json cfg subdomain p z) = zone z)
    \<and> (\<forall>n. srv_of cfg subdomain p = Some n \<longrightarrow>
         (\<exists>rid. zone (provision_route cf show_json cfg subdomain p z) = filter (\<lambda>r. sr_name r \<noteq> n) (zone z)
            @ [\<lparr> sr_id = rid, sr_name = n, sr_port = the (p_public_port p), sr_target = subdomain @ ''.'' @ public_host cfg \<rparr>]))"
proof (cases "p_srv_service p")
  case (Some service)
  show ?thesis
  proof (cases "p_public_port p")
    case port: (Some port)
    obtain z' rid where "provision_srv cf show_json cfg service (srv_proto p) subdomain (public_host cfg) port z = (Inr (), z')"
      "zone z' = filter (\<lambda>r. sr_name r \<noteq> srv_name service (srv_proto p) subdomain (public_host cfg)) (zone z)
        @ [\<lparr> sr_id = rid, sr_name = srv_name service (srv_proto p) subdomain (public_host cfg), sr_port = port,
             sr_target = subdomain @ ''.'' @ public_host cfg \<rparr>]"
      "zone_ok zone z'"
      by (rule provision_srv_zone [OF assms])
    then show ?thesis by (auto simp: provision_route_def srv_of_def Some port)
  qed (simp add: provision_route_def srv_of_def Some assms(3))
qed (simp add: provision_route_def srv_of_def assms(3))

definition provision_all ::
    "'z cloudflare \<Rightarrow> (Json \<Rightarrow> string) \<Rightarrow> Config \<Rightarrow> string \<Rightarrow> PlannedRoute list \<Rightarrow> 'z \<Rightarrow> 'z" where
  "provision_all cf show_json cfg subdomain ps z = fold (provision_route cf show_json cfg subdomain) ps z"

lemma provision_all_zone:
  assumes "srv_api cf cfg zone" and "\<not> is_mock cfg"
  shows "zone_ok zone z \<Longrightarrow> \<forall>r. sr_name r \<in> srv_names cfg subdomain ps \<longrightarrow> \<not> P r \<Longrightarrow>
    zone_ok zone (provision_all cf show_json cfg subdomain ps z)
    \<and> filter P (zone (provision_all cf show_json cfg subdomain ps z)) = filter P (zone z)"
proof (induction ps arbitrary: z)
  case (Cons p ps)
  let ?z = "provision_route cf show_json cfg subdomain p z"
  note one = provision_route_zone [OF assms Cons.prems(1), of show_json subdomain p]
  have out: "\<forall>r. sr_name r \<in> srv_names cfg subdomain ps \<longrightarrow> \<not> P r" "\<forall>r. srv_of cfg subdomain p = Some (sr_name r) \<longrightarrow> \<not> P r"
    using Cons.prems(2) by (auto simp: srv_names_def)
  have "filter P (zone ?z) = filter P (zone z)"
  proof (cases "srv_of cfg subdomain p")
    case (Some n)
    have "filter P (filter (\<lambda>r. sr_name r \<noteq> n) rs) = filter P rs" for rs
      unfolding filter_filter using out(2) Some by (intro filter_cong) auto
    then show ?thesis using one out(2) Some by auto
  qed (use one in simp)
  then show ?case
    using Cons.IH [OF conjunct1 [OF one] out(1)] by (simp add: provision_all_def)
qed (simp add: provision_all_def)

lemma remove_srvs_zone:
  assumes "srv_api cf cfg zone" and "\<not> is_mock cfg"
  shows "zone_ok zone z \<Longrightarrow> zone (remove_srvs cf cfg subdomain srvs z)
    = filter (\<lambda>r. sr_name r \<notin> (\<lambda>(s, pr). srv_name s pr subdomain (public_host cfg)) ` set srvs) (zone z)"
proof (induction srvs arbitrary: z)
  case (Cons x srvs)
  obtain s pr where x: "x = (s, pr)" by force
  let ?z = "snd (remove_srv cf cfg s pr subdomain (public_host cfg) z)"
  note rm = remove_srv_zone [OF assms Cons.prems, of s pr subdomain "public_host cfg"]
  have "remove_srvs cf cfg subdomain (x # srvs) z = remove_srvs cf cfg subdomain srvs ?z" by (simp add: remove_srvs_def x)
  then show ?case
    using Cons.IH [OF zone_ok_filter [OF Cons.prems rm]] by (auto simp: rm x intro: filter_cong)
qed (simp add: remove_srvs_def)

lemma registered_srv_records:
  "s_srv_records (fold (register_locals sid) ps s) = s_srv_records s
     @ concat (map (\<lambda>p. case (p_srv_service p, p_public_port p) of (Some sv, Some port) \<Rightarrow> [(sv, srv_proto p)] | _ \<Rightarrow> []) ps)"
proof (induction ps arbitrary: s)
  case (Cons p ps)
  have "s_srv_records (register_locals sid p s) = s_srv_records s
      @ (case (p_srv_service p, p_public_port p) of (Some sv, Some port) \<Rightarrow> [(sv, srv_proto p)] | _ \<Rightarrow> [])"
    by (auto simp: register_locals_def add_srv_def srv_proto_def Let_def split: RouteMode.split option.split prod.split)
  then show ?case using Cons.IH by simp
qed simp

lemma srv_names_registered:
  "(\<lambda>(s, pr). srv_name s pr subdomain (public_host cfg)) ` set (concat (map (\<lambda>p. case (p_srv_service p, p_public_port p) of
      (Some sv, Some port) \<Rightarrow> [(sv, srv_proto p)] | _ \<Rightarrow> []) ps)) = srv_names cfg subdomain ps"
proof (induction ps)
  case (Cons p ps)
  have "srv_names cfg subdomain (p # ps) = set_option (srv_of cfg subdomain p) \<union> srv_names cfg subdomain ps"
    by (auto simp: srv_names_def)
  then show ?case using Cons by (auto simp: srv_of_def image_Un split: option.splits)
qed (simp add: srv_names_def)


text \<open>A zone that behaves so.\<close>

definition toy_record :: "string \<Rightarrow> Json \<Rightarrow> SrvRecord option" where
  "toy_record rid body =
     (case (Option.bind (get_field body ''name'') json_str, get_field body ''data'') of
        (Some name, Some data) \<Rightarrow>
          (case (get_field data ''port'', get_field data ''target'') of
             (Some (JInt port), Some (JStr target)) \<Rightarrow>
               Some \<lparr> sr_id = rid, sr_name = name, sr_port = word_of_int port, sr_target = target \<rparr>
           | _ \<Rightarrow> None)
      | _ \<Rightarrow> None)"

definition toy_cloudflare :: "Config \<Rightarrow> SrvRecord list cloudflare" where
  "toy_cloudflare cfg token req z =
     (case req of
        CfGet url \<Rightarrow>
          (case strip_prefix url (records_url cfg @ ''?type=SRV&name='') of
             Some name \<Rightarrow> (Inr (JObj [(''result'', JArr (map (\<lambda>r. JObj [(''id'', JStr (sr_id r))]) (filter (\<lambda>r. sr_name r = name) z)))]), z)
           | None \<Rightarrow> (Inl ''bad request'', z))
      | CfPost url body \<Rightarrow>
          (case toy_record (concat (map sr_id z) @ ''x'') body of
             Some r \<Rightarrow> (Inr (JObj [(''success'', JBool True)]), z @ [r])
           | None \<Rightarrow> (Inr (JObj [(''success'', JBool False)]), z))
      | CfDelete url \<Rightarrow>
          (case strip_prefix url (records_url cfg @ ''/'') of
             Some rid \<Rightarrow> (Inr JNull, filter (\<lambda>r. sr_id r \<noteq> rid) z)
           | None \<Rightarrow> (Inl ''bad request'', z)))"

lemma toy_id_new: "concat (map sr_id z) @ ''x'' \<notin> sr_id ` set z"
proof
  assume "concat (map sr_id z) @ ''x'' \<in> sr_id ` set z"
  then obtain r where r: "r \<in> set z" "sr_id r = concat (map sr_id z) @ ''x''" by auto
  have "length (sr_id r) \<le> length (concat (map sr_id z))" using r(1) by (induction z) auto
  then show False using r(2) by simp
qed

lemma toy_cloudflare_api: "srv_api (toy_cloudflare cfg) cfg id"
proof -
  have l: "strip_prefix (list_url cfg name) (records_url cfg @ ''?type=SRV&name='') = Some name" for name
    by (simp add: strip_prefix_Some_iff list_url_def)
  have d: "strip_prefix (record_url cfg rid) (records_url cfg @ ''/'') = Some rid" for rid
    by (simp add: strip_prefix_Some_iff record_url_def)
  have p: "toy_record rid (srv_body name port target) = Some \<lparr> sr_id = rid, sr_name = name, sr_port = port, sr_target = target \<rparr>"
    for rid name port target by (simp add: toy_record_def srv_body_def get_field_def json_str_def)
  show ?thesis
    unfolding srv_api_def
  proof (intro conjI allI)
    show "\<exists>v vs. toy_cloudflare cfg (cf_api_token cfg) (CfGet (list_url cfg name)) z = (Inr v, z)
        \<and> Option.bind (get_field v ''result'') as_array = Some vs
        \<and> map (\<lambda>v. Option.bind (get_field v ''id'') json_str) vs = map (\<lambda>r. Some (sr_id r)) (filter (\<lambda>r. sr_name r = name) (id z))" for name z
      by (simp add: toy_cloudflare_def l get_field_def as_array_def json_str_def comp_def)
    show "id (snd (toy_cloudflare cfg (cf_api_token cfg) (CfDelete (record_url cfg rid)) z)) = filter (\<lambda>r. sr_id r \<noteq> rid) (id z)" for rid z
      by (simp add: toy_cloudflare_def d)
    show "\<exists>v z' rid. toy_cloudflare cfg (cf_api_token cfg) (CfPost (records_url cfg) (srv_body name port target)) z = (Inr v, z')
        \<and> get_field v ''success'' = Some (JBool True) \<and> rid \<notin> sr_id ` set (id z)
        \<and> id z' = id z @ [\<lparr> sr_id = rid, sr_name = name, sr_port = port, sr_target = target \<rparr>]" for name port target z
      using toy_id_new [of z] by (simp add: toy_cloudflare_def p get_field_def)
  qed
qed

definition cf_cfg :: Config where
  "cf_cfg = (from_env (\<lambda>_. None))\<lparr>cf_api_token := ''live'', cf_zone_id := ''z''\<rparr>"

definition cf_route :: "u16 \<Rightarrow> PlannedRoute" where
  "cf_route port = \<lparr> p_route_id = 1, p_mode = Tcp, p_public_port = Some port, p_public_endpoint = [], p_srv_service = Some ''minecraft'' \<rparr>"

definition cf_stale :: "SrvRecord list" where
  "cf_stale = [\<lparr> sr_id = ''1'', sr_name = ''_minecraft._tcp.duck.natforge.com'', sr_port = 1, sr_target = [] \<rparr>,
     \<lparr> sr_id = ''2'', sr_name = ''_minecraft._tcp.fox.natforge.com'', sr_port = 7, sr_target = [] \<rparr>]"


end
