(* ===== verification/Routes.thy ===== *)
theory Routes
  imports RustStr
begin

text \<open>
  The routing of the website: its table of API endpoints (\<^verbatim>\<open>natforge-backend/src/routes/mod.rs\<close>) and the
  pages, assets and redirect around it (\<^verbatim>\<open>main.rs\<close>). A handler is named by its path in
  \<^verbatim>\<open>handlers\<close>. Matching is axum's: segment by segment, a literal segment before a parameter, a
  parameter any segment that is not empty.
\<close>

section \<open>The table\<close>

datatype verb = GET | POST | PUT | PATCH | DELETE

definition api_router :: "(string \<times> (verb \<times> string) list) list" where
  "api_router =
     [
      (''/api/auth/register'', [(POST, ''auth::register_user'')]),
      (''/api/auth/login'', [(POST, ''auth::login_user'')]),
      (''/api/auth/device/start'', [(POST, ''auth::device_start'')]),
      (''/api/auth/device/token'', [(POST, ''auth::device_token'')]),
      (''/api/auth/device'', [(POST, ''auth::device_approve'')]),
      (''/api/devices/enroll/start'', [(POST, ''devices::enroll_start'')]),
      (''/api/devices/enroll/token'', [(POST, ''devices::enroll_token'')]),
      (''/api/devices/enroll/approve'', [(POST, ''devices::enroll_approve'')]),
      (''/api/devices/me/config'', [(GET, ''tunnels::device_config'')]),
      (''/api/devices'', [(GET, ''devices::list_devices''), (POST, ''devices::create_device'')]),
      (''/api/devices/{id}'', [(PATCH, ''devices::rename_device''), (DELETE, ''devices::delete_device'')]),
      (''/api/devices/{id}/disconnect'', [(POST, ''devices::disconnect_device'')]),
      (''/api/tunnels'', [(GET, ''tunnels::get_tunnels'')]),
      (''/api/tunnels/request'', [(POST, ''tunnels::request_tunnel'')]),
      (''/api/tunnels/{tunnel_id}'', [(DELETE, ''tunnels::delete_tunnel''), (PATCH, ''tunnels::edit_tunnel'')]),
      (''/api/tunnels/{tunnel_id}/routes'', [(PUT, ''tunnels::set_service_routes'')]),
      (''/api/tunnels/{tunnel_id}/stop'', [(POST, ''tunnels::stop_tunnel'')]),
      (''/api/tunnels/{tunnel_id}/start'', [(POST, ''tunnels::start_tunnel'')]),
      (''/api/tunnels/{tunnel_id}/routes/{route_id}/srv'', [(POST, ''tunnels::set_route_srv'')]),
      (''/api/tunnels/{tunnel_id}/bandwidth'', [(GET, ''tunnels::tunnel_bandwidth'')]),
      (''/api/tunnels/{tunnel_id}/logs'', [(GET, ''tunnels::tunnel_logs'')]),
      (''/api/tunnels/{tunnel_id}/region_blocks'', [(GET, ''tunnels::get_tunnel_region_blocks''), (PUT, ''tunnels::set_tunnel_region_blocks'')]),
      (''/api/tunnels/{tunnel_id}/custom_domain'', [(PUT, ''tunnels::set_custom_domain''), (DELETE, ''tunnels::clear_custom_domain'')]),
      (''/api/tunnels/{tunnel_id}/migrate'', [(POST, ''tunnels::migrate_tunnel'')]),
      (''/api/regions'', [(GET, ''tunnels::list_regions'')]),
      (''/api/user/profile'', [(GET, ''user::get_profile''), (PUT, ''user::update_profile'')]),
      (''/api/user/password'', [(PUT, ''user::change_password'')]),
      (''/api/admin/region_blocks'', [(GET, ''admin::get_region_blocks''), (POST, ''admin::add_region_block'')]),
      (''/api/admin/region_blocks/{country_code}'', [(DELETE, ''admin::remove_region_block'')]),
      (''/api/admin/stats'', [(GET, ''admin::network_stats'')]),
      (''/api/admin/tunnels'', [(GET, ''admin::all_tunnels'')]),
      (''/api/admin/users'', [(GET, ''admin::list_users'')]),
      (''/api/admin/users/{user_id}'', [(PATCH, ''admin::set_user_ban''), (DELETE, ''admin::delete_user'')]),
      (''/api/admin/nodes'', [(GET, ''admin::list_nodes'')]),
      (''/api/admin/nodes/{node_id}'', [(PATCH, ''admin::update_node''), (DELETE, ''admin::delete_node'')]),
      (''/api/internal/tunnel_up'', [(POST, ''internal::tunnel_up'')]),
      (''/api/internal/tunnel_down'', [(POST, ''internal::tunnel_down'')]),
      (''/api/internal/bandwidth'', [(POST, ''internal::bandwidth'')]),
      (''/api/internal/conn_log'', [(POST, ''internal::conn_log'')]),
      (''/api/internal/policy'', [(GET, ''internal::policy'')]),
      (''/api/internal/node_register'', [(POST, ''internal::node_register'')])
     ]"

datatype segment = Lit string | Param

definition segment_of :: "string \<Rightarrow> segment" where
  "segment_of s = (case s of c # _ \<Rightarrow> if c = CHR ''{'' then Param else Lit s | [] \<Rightarrow> Lit s)"

definition segments :: "string \<Rightarrow> string list" where
  "segments path = split_on (CHR ''/'') path"

definition pattern :: "string \<Rightarrow> segment list" where
  "pattern path = map segment_of (segments path)"

section \<open>Matching\<close>

definition after :: "segment \<Rightarrow> (segment list \<times> 'h) list \<Rightarrow> (segment list \<times> 'h) list" where
  "after sg es = concat (map (\<lambda>(p, h). case p of x # rest \<Rightarrow> if x = sg then [(rest, h)] else [] | [] \<Rightarrow> []) es)"

fun dispatch :: "(segment list \<times> 'h) list \<Rightarrow> string list \<Rightarrow> ('h \<times> string list) option" where
  "dispatch es [] = map_option (\<lambda>e. (snd e, [])) (find (\<lambda>e. fst e = []) es)"
| "dispatch es (s # ss) =
     (case dispatch (after (Lit s) es) ss of
        Some r \<Rightarrow> Some r
      | None \<Rightarrow>
          if s = [] then None
          else map_option (\<lambda>(h, args). (h, s # args)) (dispatch (after Param es) ss))"

datatype routed = Handler string "string list" | MethodNotAllowed | NoRoute

definition table :: "(segment list \<times> (verb \<times> string) list) list" where
  "table = map (\<lambda>(p, hs). (pattern p, hs)) api_router"

text \<open>A request through a table of patterns and their methods.\<close>

definition route_in :: "(segment list \<times> (verb \<times> string) list) list \<Rightarrow> verb \<Rightarrow> string \<Rightarrow> routed" where
  "route_in es m path =
     (case dispatch es (segments path) of
        None \<Rightarrow> NoRoute
      | Some (hs, args) \<Rightarrow> (case map_of hs m of Some h \<Rightarrow> Handler h args | None \<Rightarrow> MethodNotAllowed))"

definition api_route :: "verb \<Rightarrow> string \<Rightarrow> routed" where
  "api_route = route_in table"

section \<open>The table decides as it reads\<close>

text \<open>A path built from a pattern and its arguments.\<close>

fun fill :: "segment list \<Rightarrow> string list \<Rightarrow> string list" where
  "fill [] args = []"
| "fill (Lit s # p) args = s # fill p args"
| "fill (Param # p) (a # args) = a # fill p args"
| "fill (Param # p) [] = []"

fun params :: "segment list \<Rightarrow> nat" where
  "params [] = 0"
| "params (Lit s # p) = params p"
| "params (Param # p) = Suc (params p)"

definition literals :: "(segment list \<times> 'h) list \<Rightarrow> string set" where
  "literals es = {s. \<exists>e \<in> set es. Lit s \<in> set (fst e)}"

lemma after_in: "(p, h) \<in> set (after sg es) \<longleftrightarrow> (sg # p, h) \<in> set es"
  by (force simp: after_def split: list.splits)

lemma literals_after: "literals (after sg es) \<subseteq> literals es"
  by (force simp: literals_def after_in)

lemma after_Lit_fresh: "s \<notin> literals es \<Longrightarrow> after (Lit s) es = []"
  by (rule ccontr) (force simp: literals_def after_in neq_Nil_conv dest: arg_cong [where f = set])

lemma distinct_after: "distinct (map fst es) \<Longrightarrow> distinct (map fst (after sg es))"
proof (induction es)
  case (Cons e es)
  have "sg # fst x \<in> fst ` set es" if "x \<in> set (after sg es)" for x
    using that after_in [of "fst x" "snd x" sg es] by force
  then show ?case using Cons by (cases e) (force simp: after_def split: list.splits)
qed (simp add: after_def)

lemma dispatch_Nil [simp]: "dispatch [] ss = None"
  by (induction ss) (simp_all add: after_def)

lemma dispatch_sound:
  "dispatch es ss = Some (h, args) \<Longrightarrow>
     \<exists>p. (p, h) \<in> set es \<and> ss = fill p args \<and> length args = params p \<and> [] \<notin> set args"
proof (induction ss arbitrary: es args)
  case Nil
  then obtain e where "find (\<lambda>e. fst e = []) es = Some e" "h = snd e" "args = []" by auto
  then have "([], h) \<in> set es" by (auto simp: find_Some_iff) (metis nth_mem prod.collapse)
  then show ?case using \<open>args = []\<close> by (intro exI [of _ "[]"]) simp
next
  case (Cons s ss)
  show ?case
  proof (cases "dispatch (after (Lit s) es) ss")
    case None
    then obtain as where "s \<noteq> []" "args = s # as" "dispatch (after Param es) ss = Some (h, as)"
      using Cons.prems by (auto split: if_splits)
    then show ?thesis
      using Cons.IH [of "after Param es" as] 
      by (auto simp: after_in intro: fill.simps(3) [symmetric])
  next
    case (Some r)
    then show ?thesis
      using Cons.IH [of "after (Lit s) es" args] Cons.prems
      by (auto simp: after_in intro: fill.simps(2) [symmetric])
  qed
qed

lemma dispatch_complete:
  "(p, h) \<in> set es \<Longrightarrow> distinct (map fst es) \<Longrightarrow> length args = params p \<Longrightarrow>
     \<forall>a \<in> set args. a \<noteq> [] \<and> a \<notin> literals es \<Longrightarrow> dispatch es (fill p args) = Some (h, args)"
proof (induction p args arbitrary: es rule: fill.induct)
  case (1 args)
  have "find (\<lambda>e. fst e = []) es = Some ([], h)"
  proof -
    obtain e where e: "find (\<lambda>e. fst e = []) es = Some e"
      using 1(1) by (cases "find (\<lambda>e. fst e = []) es") (auto simp: find_None_iff)
    then have "e \<in> set es" "fst e = []" by (auto simp: find_Some_iff)
    then show ?thesis using e 1(1,2) by (metis eq_key_imp_eq_value prod.collapse)
  qed
  then show ?case using 1(3) by simp
next
  case (2 s p args)
  have "dispatch (after (Lit s) es) (fill p args) = Some (h, args)"
    using 2 literals_after [of "Lit s" es] by (intro 2(1)) (auto simp: after_in distinct_after)
  then show ?case by simp
next
  case (3 p a args)
  have "dispatch (after Param es) (fill p args) = Some (h, args)"
    using 3 literals_after [of Param es] by (intro 3(1)) (auto simp: after_in distinct_after)
  then show ?case using 3(5) by (simp add: after_Lit_fresh)
qed simp

lemma table_distinct: "distinct (map fst table)" and verbs_distinct: "\<forall>e \<in> set table. distinct (map fst (snd e))"
  by code_simp+

lemma table_entry:
  "(q, hs) \<in> set table \<Longrightarrow> (\<And>p. q = pattern p \<Longrightarrow> P p hs) \<Longrightarrow> \<exists>(p, hs) \<in> set api_router. P p hs"
  unfolding table_def by (auto simp del: api_router_def)

lemma fill_pieces: "(\<And>s. Lit s \<in> set p \<Longrightarrow> c \<notin> set s) \<Longrightarrow> \<forall>a \<in> set args. c \<notin> set a \<Longrightarrow> \<forall>s \<in> set (fill p args). c \<notin> set s"
  by (induction p args rule: fill.induct) auto

lemma pattern_pieces: "Lit s \<in> set (pattern path) \<Longrightarrow> CHR ''/'' \<notin> set s"
proof -
  assume "Lit s \<in> set (pattern path)"
  then have "s \<in> set (split_on (CHR ''/'') path)"
    by (auto simp: pattern_def segments_def segment_of_def simp del: split_on.simps split: list.splits if_splits)
  then show ?thesis by (rule split_on_pieces)
qed

lemma fill_not_Nil: "p \<noteq> [] \<Longrightarrow> length args = params p \<Longrightarrow> fill p args \<noteq> []"
  by (cases "(p, args)" rule: fill.cases) auto



section \<open>Pages\<close>

text \<open>
  Everything that is no endpoint, asset or redirect is a page: the path without its outer slashes names
  a file of the views directory, some names stand for others, and a name may hold letters, digits,
  hyphens and underscores only. The files are a map from paths to contents.
\<close>

definition page_name :: "string \<Rightarrow> string" where
  "page_name path =
     (let raw = trim_end_matches (CHR ''/'') (trim_start_matches (CHR ''/'') path) in
      if raw = [] then ''landing''
      else if raw = ''admin/network'' then ''admin''
      else if raw = ''admin/users'' then ''users''
      else if raw = ''admin/tunnels'' then ''tunnels''
      else if raw = ''admin/profile'' then ''profile''
      else raw)"

fun name_is_safe :: "string \<Rightarrow> bool" where
  "name_is_safe [] = True"
| "name_is_safe (c # cs) =
     (if \<not> (is_ascii_alphanumeric c \<or> c = CHR ''-'' \<or> c = CHR ''_'') then False else name_is_safe cs)"

datatype page = Html string | PageNotFound

definition view_file :: "string \<Rightarrow> string \<Rightarrow> string" where
  "view_file views_dir name = views_dir @ ''/'' @ name @ ''.html''"

definition serve_page :: "(string \<Rightarrow> string option) \<Rightarrow> string \<Rightarrow> string \<Rightarrow> page" where
  "serve_page files views_dir path =
     (let name = page_name path in
      if \<not> name_is_safe name then PageNotFound
      else case files (view_file views_dir name) of Some html \<Rightarrow> Html html | None \<Rightarrow> PageNotFound)"

lemma name_is_safe_iff:
  "name_is_safe name \<longleftrightarrow> (\<forall>c \<in> set name. is_ascii_alphanumeric c \<or> c = CHR ''-'' \<or> c = CHR ''_'')"
  by (induction name) auto

lemma page_name_not_Nil: "page_name path \<noteq> []"
  by (simp add: page_name_def Let_def)

lemma safe_char: "is_ascii_alphanumeric c \<or> c = CHR ''-'' \<or> c = CHR ''_'' \<Longrightarrow> c \<noteq> CHR ''/'' \<and> c \<noteq> CHR ''.''"
  by (auto simp: is_ascii_alphanumeric_def is_ascii_alphabetic_def is_ascii_digit_def
      is_ascii_upper_def is_ascii_lowercase_def)

lemma safe_name: "name_is_safe name \<Longrightarrow> CHR ''/'' \<notin> set name \<and> CHR ''.'' \<notin> set name"
  using safe_char by (auto simp only: name_is_safe_iff)

lemma page_name_safe:
  assumes "page \<noteq> []" and "name_is_safe page"
  shows "page_name (CHR ''/'' # page) = page"
proof -
  note slash = conjunct1 [OF safe_name [OF assms(2)]]
  have "trim_start_matches (CHR ''/'') (CHR ''/'' # page) = page"
    using assms(1) slash by (cases page) (auto simp: trim_start_matches_def)
  moreover have "trim_end_matches (CHR ''/'') page = page"
    using slash last_in_set [OF assms(1)] by (intro trim_end_matches_id) metis
  moreover have "page \<noteq> a @ CHR ''/'' # b" for a b using slash by auto
  from this [of "''admin''"] have "page \<noteq> ''admin/network''" "page \<noteq> ''admin/users''" "page \<noteq> ''admin/tunnels''"
    "page \<noteq> ''admin/profile''" by simp_all
  ultimately show ?thesis using assms(1) by (simp add: page_name_def Let_def)
qed

text \<open>
  The site around the pages: the API first, then the assets, the client script and the sign-in redirect,
  and the page handler for all the rest. What the file services answer is theirs.
\<close>

datatype site_answer = ApiCall string "string list" | WrongMethod | AssetFile string | ClientScript | SignInRedirect | Page page

definition site_route :: "(string \<Rightarrow> string option) \<Rightarrow> string \<Rightarrow> verb \<Rightarrow> string \<Rightarrow> site_answer" where
  "site_route files frontend_dir m path =
     (case api_route m path of
        Handler h args \<Rightarrow> ApiCall h args
      | MethodNotAllowed \<Rightarrow> WrongMethod
      | NoRoute \<Rightarrow>
          if path = ''/assets'' \<or> prefix ''/assets/'' path then AssetFile (drop 7 path)
          else if path = ''/client.js'' then ClientScript
          else if path = ''/device'' then (if m = GET then SignInRedirect else WrongMethod)
          else Page (serve_page files (frontend_dir @ ''/views'') path))"

lemma fill_length: "length args = params p \<Longrightarrow> length (fill p args) = length p"
  by (induction p args rule: fill.induct) auto

lemma endpoints_are_deep: "\<forall>e \<in> set table. 3 \<le> length (fst e)"
  by code_simp

lemma page_is_no_endpoint:
  assumes "name_is_safe page"
  shows "api_route m (CHR ''/'' # page) = NoRoute"
proof -
  have "segments (CHR ''/'' # page) = [[], page]"
    using safe_name [OF assms] by (simp add: segments_def split_on_free)
  moreover have "dispatch table [[], page] = None"
  proof (cases "dispatch table [[], page]")
    case (Some r)
    then obtain q where "(q, fst r) \<in> set table" "[[], page] = fill q (snd r)" "length (snd r) = params q"
      using dispatch_sound [of table "[[], page]" "fst r" "snd r"] by auto
    then have "length q = 2" using fill_length [of "snd r" q] by (metis length_Cons list.size(3) numeral_2_eq_2)
    then show ?thesis using endpoints_are_deep \<open>(q, fst r) \<in> set table\<close> by fastforce
  qed
  ultimately show ?thesis by (simp add: api_route_def route_in_def)
qed

lemma page_served:
  assumes "page \<noteq> []" "name_is_safe page" "page \<noteq> ''assets''" "page \<noteq> ''device''"
  shows "site_route files dir m (CHR ''/'' # page) = Page (serve_page files (dir @ ''/views'') (CHR ''/'' # page))"
proof -
  have "\<not> name_is_safe ''client.js''" by code_simp
  then have "page \<noteq> ''client.js''" using assms(2) by metis
  moreover have "\<not> prefix ''/assets/'' (CHR ''/'' # page)"
    using safe_name [OF assms(2)] by (auto simp: prefix_def)
  ultimately show ?thesis using assms(3,4) by (simp add: site_route_def page_is_no_endpoint [OF assms(2)])
qed

text \<open>
  C36: no request reads a file outside the views directory. Whatever path a client sends, the answer of
  the page handler depends on one file only, named directly in the views directory by a nonempty name
  without slash or dot; a page is what that file holds. Every page with a safe name is served under its
  name whatever the method, since no endpoint of the API, asset or redirect but two takes such a path.
\<close>

theorem pages_confined:
  "(\<exists>name. name \<noteq> [] \<and> CHR ''/'' \<notin> set name \<and> CHR ''.'' \<notin> set name
      \<and> (\<forall>files. serve_page files views_dir path \<noteq> PageNotFound
            \<longrightarrow> (\<exists>html. files (view_file views_dir name) = Some html \<and> serve_page files views_dir path = Html html))
      \<and> (\<forall>files files'. files (view_file views_dir name) = files' (view_file views_dir name)
            \<longrightarrow> serve_page files views_dir path = serve_page files' views_dir path))
    \<and> (page \<noteq> [] \<and> name_is_safe page \<and> page \<noteq> ''assets'' \<and> page \<noteq> ''device'' \<and> files (view_file (dir @ ''/views'') page) = Some html
         \<longrightarrow> site_route files dir m (CHR ''/'' # page) = Page (Html html))"
proof (rule conjI)
  let ?n = "page_name path"
  show "\<exists>name. name \<noteq> [] \<and> CHR ''/'' \<notin> set name \<and> CHR ''.'' \<notin> set name
      \<and> (\<forall>files. serve_page files views_dir path \<noteq> PageNotFound
            \<longrightarrow> (\<exists>html. files (view_file views_dir name) = Some html \<and> serve_page files views_dir path = Html html))
      \<and> (\<forall>files files'. files (view_file views_dir name) = files' (view_file views_dir name)
            \<longrightarrow> serve_page files views_dir path = serve_page files' views_dir path)"
  proof (cases "name_is_safe ?n")
    case True
    then show ?thesis
      using page_name_not_Nil safe_name [OF True]
      by (intro exI [of _ ?n]) (auto simp: serve_page_def Let_def split: option.splits)
  next
    case False
    then show ?thesis by (intro exI [of _ "''landing''"]) (simp add: serve_page_def Let_def)
  qed
qed (auto simp: page_served serve_page_def Let_def page_name_safe)

theorem pages_confined_witness:
  "site_route [''f/views/admin.html'' \<mapsto> ''<p>''] ''f'' GET ''/admin'' = Page (Html ''<p>'')
   \<and> serve_page [''v/admin.html'' \<mapsto> ''<p>''] ''v'' ''/admin/network/'' = Html ''<p>''
   \<and> serve_page [''v/../admin.html'' \<mapsto> ''<p>''] ''v'' ''/../admin'' = PageNotFound"
proof (intro conjI)
  show "site_route [''f/views/admin.html'' \<mapsto> ''<p>''] ''f'' GET ''/admin'' = Page (Html ''<p>'')"
    by (rule pages_confined [THEN conjunct2, rule_format])
      (simp add: name_is_safe_iff view_file_def is_ascii_alphanumeric_def is_ascii_alphabetic_def is_ascii_lowercase_def)
qed (simp_all add: serve_page_def page_name_def trim_start_matches_def trim_end_matches_def view_file_def
    name_is_safe_iff is_ascii_alphanumeric_def is_ascii_alphabetic_def is_ascii_lowercase_def is_ascii_upper_def is_ascii_digit_def)

end
