(* ===== verification/Reports.thy ===== *)
theory Reports
  imports Router DeviceProps Routes
begin

text \<open>
  What a node reports to the website (\<^verbatim>\<open>natforge-node/src/reporter.rs\<close>) and what the website makes of
  it: the bodies of the reports, the call that carries them with the internal secret, the decoding of
  the bodies by the handlers' request types (\<^verbatim>\<open>handlers/internal.rs\<close>). The
  network and axum's text for a body it rejects are parameters; a body arrives as the JSON value that
  was sent.
\<close>

section \<open>The bodies\<close>

definition json_opt :: "string option \<Rightarrow> Json" where
  "json_opt x = (case x of Some s \<Rightarrow> JStr s | None \<Rightarrow> JNull)"

definition node_register_body :: "Config \<Rightarrow> string \<Rightarrow> Json" where
  "node_register_body cfg control_cert_fp =
     JObj [(''node_id'', JStr (node_id cfg)), (''name'', JStr (node_name cfg)), (''region'', json_opt (node_region cfg)),
       (''public_host'', JStr (public_host cfg)), (''control_endpoint'', JStr (control_endpoint cfg)),
       (''internal_url'', JStr (internal_url cfg)), (''http_port'', JInt (int (http_port cfg))),
       (''https_port'', JInt (int (https_port cfg))), (''port_min'', JInt (public_port_min cfg)),
       (''port_max'', JInt (public_port_max cfg)), (''control_cert_fp'', JStr control_cert_fp)]"

definition tunnel_up_body :: "Config \<Rightarrow> int \<Rightarrow> string \<Rightarrow> Json" where
  "tunnel_up_body cfg tid agent_ip =
     JObj [(''tunnel_id'', JInt tid), (''node_id'', JStr (node_id cfg)), (''agent_ip'', JStr agent_ip)]"

definition tunnel_down_body :: "int \<Rightarrow> Json" where
  "tunnel_down_body tid = JObj [(''tunnel_id'', JInt tid)]"

definition bandwidth_body :: "int \<Rightarrow> int \<Rightarrow> nat \<Rightarrow> nat \<Rightarrow> Json" where
  "bandwidth_body tid owner bytes_in bytes_out =
     JObj [(''tunnel_id'', JInt tid), (''owner_id'', JInt owner),
       (''bytes_in'', JInt (min (int bytes_in) i64_max)), (''bytes_out'', JInt (min (int bytes_out) i64_max))]"

definition conn_log_body :: "ConnLog \<Rightarrow> Json" where
  "conn_log_body cl =
     JObj [(''tunnel_id'', JInt (cl_tunnel_id cl)), (''owner_id'', JInt (cl_owner_id cl)),
       (''route_id'', JInt (uint (cl_route_id cl))), (''kind'', JStr (cl_kind cl)), (''peer_ip'', JStr (cl_peer_ip cl)),
       (''country'', json_opt (cl_country cl)), (''bytes_in'', JInt (cl_bytes_in cl)),
       (''bytes_out'', JInt (cl_bytes_out cl)), (''duration_ms'', JInt (cl_duration_ms cl)),
       (''blocked'', JBool (cl_blocked cl))]"

section \<open>Posting\<close>

text \<open>
  A site answers a request with its headers, URL and body, or not at all. The secret must be a value a
  header can have, otherwise the request is never built.
\<close>

type_synonym 's site = "headers \<Rightarrow> string \<Rightarrow> Json \<Rightarrow> 's \<Rightarrow> nat option \<times> 's"

definition header_value :: "string \<Rightarrow> bool" where
  "header_value v = list_all (\<lambda>c. (32 \<le> byte_val c \<and> byte_val c \<noteq> 127) \<or> byte_val c = 9) v"

definition secret_header :: "string \<Rightarrow> headers" where
  "secret_header sec = [''x-internal-secret'' \<mapsto> sec]"

definition post_ok :: "'s site \<Rightarrow> Config \<Rightarrow> string \<Rightarrow> Json \<Rightarrow> 's \<Rightarrow> bool \<times> 's" where
  "post_ok site cfg path body s =
     (if \<not> header_value (internal_secret cfg) then (False, s)
      else case site (secret_header (internal_secret cfg)) (website_url cfg @ path) body s of
             (Some status, s) \<Rightarrow> (200 \<le> status \<and> status < 300, s)
           | (None, s) \<Rightarrow> (False, s))"

definition announce_node :: "'s site \<Rightarrow> Config \<Rightarrow> string \<Rightarrow> 's \<Rightarrow> bool \<times> 's" where
  "announce_node site cfg control_cert_fp s =
     post_ok site cfg ''/api/internal/node_register'' (node_register_body cfg control_cert_fp) s"

definition report_tunnel_up :: "'s site \<Rightarrow> Config \<Rightarrow> int \<Rightarrow> string \<Rightarrow> 's \<Rightarrow> 's" where
  "report_tunnel_up site cfg tid agent_ip s =
     snd (post_ok site cfg ''/api/internal/tunnel_up'' (tunnel_up_body cfg tid agent_ip) s)"

definition report_tunnel_down :: "'s site \<Rightarrow> Config \<Rightarrow> int \<Rightarrow> 's \<Rightarrow> 's" where
  "report_tunnel_down site cfg tid s = snd (post_ok site cfg ''/api/internal/tunnel_down'' (tunnel_down_body tid) s)"

definition report_bandwidth :: "'s site \<Rightarrow> Config \<Rightarrow> int \<Rightarrow> int \<Rightarrow> nat \<Rightarrow> nat \<Rightarrow> 's \<Rightarrow> 's" where
  "report_bandwidth site cfg tid owner bytes_in bytes_out s =
     snd (post_ok site cfg ''/api/internal/bandwidth'' (bandwidth_body tid owner bytes_in bytes_out) s)"

definition post_conn_log :: "'s site \<Rightarrow> Config \<Rightarrow> ConnLog \<Rightarrow> 's \<Rightarrow> 's" where
  "post_conn_log site cfg cl s = snd (post_ok site cfg ''/api/internal/conn_log'' (conn_log_body cl) s)"

section \<open>Decoding\<close>

text \<open>
  The fields of the request types: integers within their width, strings, and the two kinds of field
  with a default, where \<^verbatim>\<open>null\<close> is absence for an option only.
\<close>

definition int_field :: "int \<Rightarrow> int \<Rightarrow> string \<Rightarrow> Json \<Rightarrow> int option" where
  "int_field lo hi k v =
     (case get_field v k of Some (JInt i) \<Rightarrow> if lo \<le> i \<and> i \<le> hi then Some i else None | _ \<Rightarrow> None)"

definition i64_field :: "string \<Rightarrow> Json \<Rightarrow> int option" where
  "i64_field = int_field i64_min i64_max"

definition i32_field :: "string \<Rightarrow> Json \<Rightarrow> int option" where
  "i32_field = int_field (- 2147483648) 2147483647"

definition i16_field :: "string \<Rightarrow> Json \<Rightarrow> int option" where
  "i16_field = int_field (- 32768) 32767"

definition str_field :: "string \<Rightarrow> Json \<Rightarrow> string option" where
  "str_field k v = (case get_field v k of Some (JStr s) \<Rightarrow> Some s | _ \<Rightarrow> None)"

definition opt_field :: "string \<Rightarrow> Json \<Rightarrow> string option option" where
  "opt_field k v =
     (case get_field v k of None \<Rightarrow> Some None | Some JNull \<Rightarrow> Some None | Some (JStr s) \<Rightarrow> Some (Some s) | _ \<Rightarrow> None)"

definition flag_field :: "string \<Rightarrow> Json \<Rightarrow> bool option" where
  "flag_field k v = (case get_field v k of None \<Rightarrow> Some False | Some (JBool b) \<Rightarrow> Some b | _ \<Rightarrow> None)"

text \<open>A body that does not decode is rejected before the handler runs, so before the secret is checked.\<close>

definition rejected :: "string \<Rightarrow> Json handler" where
  "rejected reject s = (Inl (422, reject), s)"

definition tunnel_up_request :: "Env \<Rightarrow> string \<Rightarrow> headers \<Rightarrow> Json \<Rightarrow> Json handler" where
  "tunnel_up_request env reject hs v =
     (case (i64_field ''tunnel_id'' v, str_field ''node_id'' v, opt_field ''agent_ip'' v) of
        (Some tid, Some node, Some ip) \<Rightarrow> tunnel_up env hs tid node ip
      | _ \<Rightarrow> rejected reject)"

definition tunnel_down_request :: "Env \<Rightarrow> string \<Rightarrow> headers \<Rightarrow> Json \<Rightarrow> Json handler" where
  "tunnel_down_request env reject hs v =
     (case i64_field ''tunnel_id'' v of Some tid \<Rightarrow> tunnel_down env hs tid | None \<Rightarrow> rejected reject)"

definition bandwidth_request :: "Env \<Rightarrow> string \<Rightarrow> headers \<Rightarrow> Json \<Rightarrow> Json handler" where
  "bandwidth_request env reject hs v =
     (case (i64_field ''tunnel_id'' v, i32_field ''owner_id'' v, i64_field ''bytes_in'' v, i64_field ''bytes_out'' v) of
        (Some tid, Some owner, Some bytes_in, Some bytes_out) \<Rightarrow> bandwidth env hs tid owner bytes_in bytes_out
      | _ \<Rightarrow> rejected reject)"

definition conn_log_request :: "Env \<Rightarrow> string \<Rightarrow> headers \<Rightarrow> Json \<Rightarrow> Json handler" where
  "conn_log_request env reject hs v =
     (case (i64_field ''tunnel_id'' v, i32_field ''owner_id'' v, i16_field ''route_id'' v, str_field ''kind'' v,
            str_field ''peer_ip'' v) of
        (Some tid, Some owner, Some rid, Some kind, Some ip) \<Rightarrow>
          (case (opt_field ''country'' v, i64_field ''bytes_in'' v, i64_field ''bytes_out'' v, i64_field ''duration_ms'' v,
                 flag_field ''blocked'' v) of
             (Some country, Some bytes_in, Some bytes_out, Some ms, Some blocked) \<Rightarrow>
               conn_log env hs tid owner rid kind ip country bytes_in bytes_out ms blocked
           | _ \<Rightarrow> rejected reject)
      | _ \<Rightarrow> rejected reject)"

definition node_register_request :: "Env \<Rightarrow> string \<Rightarrow> headers \<Rightarrow> Json \<Rightarrow> Json handler" where
  "node_register_request env reject hs v =
     (case (str_field ''node_id'' v, str_field ''name'' v, opt_field ''region'' v, str_field ''public_host'' v,
            str_field ''control_endpoint'' v) of
        (Some nid, Some name, Some reg, Some host, Some control) \<Rightarrow>
          (case (str_field ''internal_url'' v, i32_field ''http_port'' v, i32_field ''https_port'' v,
                 i32_field ''port_min'' v, i32_field ''port_max'' v, opt_field ''control_cert_fp'' v) of
             (Some url, Some http, Some https, Some lo, Some hi, Some fp) \<Rightarrow>
               node_register env hs
                 \<lparr> n_node_id = nid, n_name = name, n_region = reg, n_public_host = host,
                   n_control_endpoint = control, n_internal_url = url, n_http_port = http, n_https_port = https,
                   n_active = True, n_control_cert_fp = fp, n_last_seen = None, n_created_at = 0 \<rparr> lo hi
           | _ \<Rightarrow> rejected reject)
      | _ \<Rightarrow> rejected reject)"

section \<open>The website as a node sees it\<close>

definition status_of :: "(http_error + 'a) \<times> App \<Rightarrow> nat option \<times> App" where
  "status_of r = (case r of (Inl e, s) \<Rightarrow> (Some (fst e), s) | (Inr _, s) \<Rightarrow> (Some 200, s))"

definition internal_api :: "Env \<Rightarrow> string \<Rightarrow> headers \<Rightarrow> Json \<Rightarrow> string \<Rightarrow> Json handler option" where
  "internal_api env reject hs v handler =
     (if handler = ''internal::tunnel_up'' then Some (tunnel_up_request env reject hs v)
      else if handler = ''internal::tunnel_down'' then Some (tunnel_down_request env reject hs v)
      else if handler = ''internal::bandwidth'' then Some (bandwidth_request env reject hs v)
      else if handler = ''internal::conn_log'' then Some (conn_log_request env reject hs v)
      else if handler = ''internal::node_register'' then Some (node_register_request env reject hs v)
      else None)"

text \<open>The website at a URL, for requests that reach it; what it does elsewhere is a parameter.\<close>

definition website :: "Env \<Rightarrow> string \<Rightarrow> string \<Rightarrow> App site \<Rightarrow> App site" where
  "website env reject base elsewhere hs url v s =
     (case strip_prefix url base of
        None \<Rightarrow> elsewhere hs url v s
      | Some path \<Rightarrow>
          (case api_route POST path of
             Handler h _ \<Rightarrow>
               (case internal_api env reject hs v h of
                  Some act \<Rightarrow> status_of (act s)
                | None \<Rightarrow> elsewhere hs url v s)
           | _ \<Rightarrow> elsewhere hs url v s))"

section \<open>Reports arrive\<close>

lemma internal_routes [simp]:
  "api_route POST ''/api/internal/tunnel_up'' = Handler ''internal::tunnel_up'' []"
  "api_route POST ''/api/internal/tunnel_down'' = Handler ''internal::tunnel_down'' []"
  "api_route POST ''/api/internal/bandwidth'' = Handler ''internal::bandwidth'' []"
  "api_route POST ''/api/internal/conn_log'' = Handler ''internal::conn_log'' []"
  "api_route POST ''/api/internal/node_register'' = Handler ''internal::node_register'' []"
  by code_simp+

text \<open>A secret of visible characters can be sent and is read back.\<close>

lemma header_value_str: "header_str v = Some w \<longleftrightarrow> w = v \<and> list_all (\<lambda>c. (32 \<le> byte_val c \<and> byte_val c < 127) \<or> byte_val c = 9) v"
  by (auto simp: header_str_def)

lemma visible_header_value: "header_str v = Some v \<Longrightarrow> header_value v"
  by (auto simp: header_value_str header_value_def list_all_iff)

lemma get_field_JObj [simp]: "get_field (JObj fs) k = map_of fs k"
  by (simp add: get_field_def)

lemma post_to_website:
  assumes "header_str (internal_secret cfg) = Some (internal_secret cfg)" and "api_route POST path = Handler h args"
    and "internal_api env reject (secret_header (internal_secret cfg)) body h = Some act"
  shows "post_ok (website env reject (website_url cfg) elsewhere) cfg path body s
    = (case act s of (Inl e, s') \<Rightarrow> (200 \<le> fst e \<and> fst e < 300, s') | (Inr _, s') \<Rightarrow> (True, s'))"
proof -
  have "strip_prefix (website_url cfg @ path) (website_url cfg) = Some path" by (simp add: strip_prefix_Some_iff)
  then show ?thesis
    by (simp add: post_ok_def visible_header_value [OF assms(1)] website_def assms(2,3) status_of_def split: prod.split sum.split)
qed

lemma secret_accepted:
  assumes "header_str sec = Some sec"
  shows "internal_secret_ok env (secret_header sec)
    = (if sec = bc_internal_secret (e_cfg env) then Inr () else Inl (401, ''bad internal secret''))"
  by (simp add: internal_secret_ok_def secret_header_def assms coalesce_def)

lemma sort_key_snoc_min: "\<forall>y \<in> set xs. f x < f y \<Longrightarrow> sort_key f (xs @ [x]) = x # sort_key f xs"
  by (induction xs) auto

lemma recent_conn_logs_snoc:
  assumes "\<forall>l \<in> set (logs_t db). l_id l < l_id row"
  shows "recent_conn_logs (l_tunnel_id row) (Suc n) (db\<lparr>logs_t := logs_t db @ [row], next_id := i\<rparr>)
    = row # recent_conn_logs (l_tunnel_id row) n db"
  using sort_key_snoc_min [of "filter (\<lambda>l. l_tunnel_id l = l_tunnel_id row) (logs_t db)" "\<lambda>l. - l_id l" row] assms
  by (simp add: recent_conn_logs_def)

lemma field_simps_hit [simp]:
  "map_of fs k = Some (JInt i) \<Longrightarrow> int_field lo hi k (JObj fs) = (if lo \<le> i \<and> i \<le> hi then Some i else None)"
  "map_of fs k = Some (JStr x) \<Longrightarrow> str_field k (JObj fs) = Some x"
  "map_of fs k = Some (json_opt y) \<Longrightarrow> opt_field k (JObj fs) = Some y"
  "map_of fs k = Some (JStr x) \<Longrightarrow> opt_field k (JObj fs) = Some (Some x)"
  "map_of fs k = Some (JBool b) \<Longrightarrow> flag_field k (JObj fs) = Some b"
  by (auto simp: int_field_def str_field_def opt_field_def flag_field_def json_opt_def split: option.split)

lemmas fields = i64_field_def i32_field_def i16_field_def

lemma conn_log_decoded:
  assumes "i64_min \<le> cl_tunnel_id cl" "cl_tunnel_id cl \<le> i64_max" "- 2147483648 \<le> cl_owner_id cl" "cl_owner_id cl \<le> 2147483647"
    and "i64_min \<le> cl_bytes_in cl" "cl_bytes_in cl \<le> i64_max" "i64_min \<le> cl_bytes_out cl" "cl_bytes_out cl \<le> i64_max"
    and "i64_min \<le> cl_duration_ms cl" "cl_duration_ms cl \<le> i64_max"
  shows "conn_log_request env reject hs (conn_log_body cl)
    = (if uint (cl_route_id cl) \<le> 32767
       then conn_log env hs (cl_tunnel_id cl) (cl_owner_id cl) (uint (cl_route_id cl)) (cl_kind cl) (cl_peer_ip cl)
              (cl_country cl) (cl_bytes_in cl) (cl_bytes_out cl) (cl_duration_ms cl) (cl_blocked cl)
       else rejected reject)"
  using assms order_trans [of "- 32768" 0 "uint (cl_route_id cl)"]
  by (auto simp: conn_log_request_def conn_log_body_def fields)

lemma bandwidth_decoded:
  assumes "i64_min \<le> tid" "tid \<le> i64_max" "- 2147483648 \<le> owner" "owner \<le> 2147483647"
  shows "bandwidth_request env reject hs (bandwidth_body tid owner bi bo)
    = bandwidth env hs tid owner (min (int bi) i64_max) (min (int bo) i64_max)"
  using assms by (simp add: bandwidth_request_def bandwidth_body_def fields i64_min_def i64_max_def)

lemma tunnel_up_decoded:
  "i64_min \<le> tid \<Longrightarrow> tid \<le> i64_max \<Longrightarrow>
     tunnel_up_request env reject hs (tunnel_up_body cfg tid ip) = tunnel_up env hs tid (node_id cfg) (Some ip)"
  by (simp add: tunnel_up_request_def tunnel_up_body_def fields)

lemma tunnel_down_decoded:
  "i64_min \<le> tid \<Longrightarrow> tid \<le> i64_max \<Longrightarrow> tunnel_down_request env reject hs (tunnel_down_body tid) = tunnel_down env hs tid"
  by (simp add: tunnel_down_request_def tunnel_down_body_def fields)

definition announced :: "Config \<Rightarrow> string \<Rightarrow> NodeRow" where
  "announced cfg fp =
     \<lparr> n_node_id = node_id cfg, n_name = node_name cfg, n_region = node_region cfg, n_public_host = public_host cfg,
       n_control_endpoint = control_endpoint cfg, n_internal_url = internal_url cfg, n_http_port = int (http_port cfg),
       n_https_port = int (https_port cfg), n_active = True, n_control_cert_fp = Some fp, n_last_seen = None, n_created_at = 0 \<rparr>"

lemma node_register_decoded:
  assumes "http_port cfg \<le> 65535" "https_port cfg \<le> 65535" "0 \<le> public_port_min cfg" "public_port_min cfg \<le> 65535"
    and "0 \<le> public_port_max cfg" "public_port_max cfg \<le> 65535"
  shows "node_register_request env reject hs (node_register_body cfg fp)
    = node_register env hs (announced cfg fp) (public_port_min cfg) (public_port_max cfg)"
  using assms by (simp add: node_register_request_def node_register_body_def fields announced_def)

text \<open>A report whose handler runs a statement for the node.\<close>

lemma report_delivered:
  assumes "header_str (internal_secret cfg) = Some (internal_secret cfg)" and "api_route POST path = Handler h args"
    and "internal_api env reject (secret_header (internal_secret cfg)) body h
      = Some (as_node env (secret_header (internal_secret cfg)) stmt)"
  shows "post_ok (website env reject (website_url cfg) elsewhere) cfg path body s
    = (if internal_secret cfg = bc_internal_secret (e_cfg env)
       then (case stmt (app_db s) of Inl f \<Rightarrow> (False, s) | Inr (u, db) \<Rightarrow> (True, s\<lparr>app_db := db\<rparr>))
       else (False, s))"
  by (simp add: post_to_website [OF assms(1-3)] as_node_def secret_accepted [OF assms(1)] err_def
      split: sum.split prod.split)

abbreviation same_secret :: "Config \<Rightarrow> Env \<Rightarrow> bool" where
  "same_secret cfg env \<equiv> internal_secret cfg = bc_internal_secret (e_cfg env)"

lemma announce_delivered:
  assumes "header_str (internal_secret cfg) = Some (internal_secret cfg)"
    and "http_port cfg \<le> 65535" "https_port cfg \<le> 65535" "0 \<le> public_port_min cfg" "public_port_min cfg \<le> 65535"
    and "0 \<le> public_port_max cfg" "public_port_max cfg \<le> 65535"
  shows "announce_node (website env reject (website_url cfg) elsewhere) cfg fp s
    = (if same_secret cfg env
       then (True, s\<lparr>app_db := register_node (e_now env) (announced cfg fp) (public_port_min cfg) (public_port_max cfg) (app_db s)\<rparr>)
       else (False, s))"
proof -
  have "internal_api env reject hs (node_register_body cfg fp) ''internal::node_register''
      = Some (as_node env hs (\<lambda>db. Inr ((), register_node (e_now env) (announced cfg fp) (public_port_min cfg) (public_port_max cfg) db)))"
    for hs by (simp add: internal_api_def node_register_decoded [OF assms(2-7)] node_register_def)
  from report_delivered [OF assms(1) internal_routes(5) this] show ?thesis by (simp add: announce_node_def)
qed

lemma tunnel_status_delivered:
  assumes "header_str (internal_secret cfg) = Some (internal_secret cfg)" and "i64_min \<le> tid" "tid \<le> i64_max"
    and "same_secret cfg env"
  shows "app_db (report_tunnel_up (website env reject (website_url cfg) elsewhere) cfg tid ip s)
      = set_tunnel_online (e_now env) tid (node_id cfg) (Some ip) (app_db s)"
    and "app_db (report_tunnel_down (website env reject (website_url cfg) elsewhere) cfg tid s)
      = set_tunnel_offline (e_now env) tid (app_db s)"
proof -
  have "internal_api env reject hs (tunnel_up_body cfg tid ip) ''internal::tunnel_up''
      = Some (as_node env hs (\<lambda>db. Inr ((), set_tunnel_online (e_now env) tid (node_id cfg) (Some ip) db)))" for hs
    by (simp add: internal_api_def tunnel_up_decoded assms(2,3) tunnel_up_def)
  from report_delivered [OF assms(1) internal_routes(1) this]
  show "app_db (report_tunnel_up (website env reject (website_url cfg) elsewhere) cfg tid ip s)
      = set_tunnel_online (e_now env) tid (node_id cfg) (Some ip) (app_db s)"
    by (simp add: report_tunnel_up_def assms(4))
  have "internal_api env reject hs (tunnel_down_body tid) ''internal::tunnel_down''
      = Some (as_node env hs (\<lambda>db. Inr ((), set_tunnel_offline (e_now env) tid db)))" for hs
    by (simp add: internal_api_def tunnel_down_decoded assms(2,3) tunnel_down_def)
  from report_delivered [OF assms(1) internal_routes(2) this]
  show "app_db (report_tunnel_down (website env reject (website_url cfg) elsewhere) cfg tid s)
      = set_tunnel_offline (e_now env) tid (app_db s)"
    by (simp add: report_tunnel_down_def assms(4))
qed

lemma bandwidth_delivered:
  assumes "header_str (internal_secret cfg) = Some (internal_secret cfg)" and "same_secret cfg env"
    and "i64_min \<le> tid" "tid \<le> i64_max" "- 2147483648 \<le> owner" "owner \<le> 2147483647"
    and "append_bandwidth (e_now env) tid owner (min (int bi) i64_max) (min (int bo) i64_max) (app_db s) = Inr (u, db)"
  shows "app_db (report_bandwidth (website env reject (website_url cfg) elsewhere) cfg tid owner bi bo s) = db"
proof -
  have "internal_api env reject hs (bandwidth_body tid owner bi bo) ''internal::bandwidth''
      = Some (as_node env hs (append_bandwidth (e_now env) tid owner (min (int bi) i64_max) (min (int bo) i64_max)))" for hs
    by (simp add: internal_api_def bandwidth_decoded [OF assms(3-6)] bandwidth_def)
  from report_delivered [OF assms(1) internal_routes(3) this] show ?thesis
    by (simp add: report_bandwidth_def assms(2,7))
qed

lemma i64_min_le [simp]: "i64_min \<le> int n" "i64_min \<le> i64_max"
  by (simp_all add: i64_min_def i64_max_def)

lemma conn_log_delivered:
  assumes "header_str (internal_secret cfg) = Some (internal_secret cfg)"
    and "i64_min \<le> h_tunnel_id h" "h_tunnel_id h \<le> i64_max" "- 2147483648 \<le> h_owner_id h" "h_owner_id h \<le> 2147483647"
    and "uint (h_route_id h) \<le> 32767"
    and "insert_conn_log (h_tunnel_id h) (h_owner_id h) (uint (h_route_id h)) (as_str (h_mode h)) ip country
           (min (int bi) i64_max) (min (int bo) i64_max) (min (int ms) i64_max) blocked (app_db s) = Inr (u, db)"
  shows "post_conn_log (website env reject (website_url cfg) elsewhere) cfg (report_conn_log h ip country bi bo ms blocked) s
    = (if same_secret cfg env then s\<lparr>app_db := db\<rparr> else s)"
proof -
  let ?cl = "report_conn_log h ip country bi bo ms blocked"
  have "internal_api env reject hs (conn_log_body ?cl) ''internal::conn_log''
      = Some (as_node env hs (insert_conn_log (h_tunnel_id h) (h_owner_id h) (uint (h_route_id h)) (as_str (h_mode h)) ip country
          (min (int bi) i64_max) (min (int bo) i64_max) (min (int ms) i64_max) blocked))" for hs
    using assms(2-6) conn_log_decoded [of ?cl env reject hs]
    by (simp add: internal_api_def report_conn_log_def conn_log_def )
  from report_delivered [OF assms(1) internal_routes(4) this] show ?thesis
    by (simp add: post_conn_log_def assms(7))
qed

lemma conn_log_lost:
  assumes "header_str (internal_secret cfg) = Some (internal_secret cfg)"
    and "i64_min \<le> h_tunnel_id h" "h_tunnel_id h \<le> i64_max" "- 2147483648 \<le> h_owner_id h" "h_owner_id h \<le> 2147483647"
    and "32767 < uint (h_route_id h)"
  shows "post_conn_log (website env reject (website_url cfg) elsewhere) cfg (report_conn_log h ip country bi bo ms blocked) s = s"
proof -
  let ?cl = "report_conn_log h ip country bi bo ms blocked"
  have "internal_api env reject hs (conn_log_body ?cl) ''internal::conn_log'' = Some (rejected reject)" for hs
    using assms(2-6) conn_log_decoded [of ?cl env reject hs] by (simp add: internal_api_def report_conn_log_def)
  from post_to_website [OF assms(1) internal_routes(4) this] show ?thesis by (simp add: post_conn_log_def rejected_def)
qed


definition default_cfg :: Config where
  "default_cfg = from_env (\<lambda>_. None)"

definition demo_visit :: RouteHandle where
  "demo_visit = (demo_handle 0)\<lparr>h_tunnel_id := 1\<rparr>"

lemma default_cfg_facts:
  "internal_secret default_cfg = ''natforge-internal-dev-secret''"
  "http_port default_cfg \<le> 65535" "https_port default_cfg \<le> 65535" "0 \<le> public_port_min default_cfg" "public_port_min default_cfg \<le> 65535"
  "0 \<le> public_port_max default_cfg" "public_port_max default_cfg \<le> 65535"
  by (simp_all add: default_cfg_def from_env_def env_or_def env_u16_def Let_def)


end
