(* ===== verification/NodeBoot.thy ===== *)
theory NodeBoot
  imports EndToEnd Reports
begin

text \<open>
  A node from its start on (\<^verbatim>\<open>natforge-node/src/main.rs\<close>, \<^verbatim>\<open>tls.rs\<close>, \<^verbatim>\<open>geo.rs\<close> and the rest of \<^verbatim>\<open>state.rs\<close>):
  the certificate of its control listener and the fingerprint it announces, the wildcard certificate and
  the country database with their reloads, and the announcements to the control plane. Certificate
  generation, PEM, rustls, the database reader, SHA-256 and the file system are parameters.
\<close>

section \<open>The control certificate\<close>

definition cert_fingerprint :: "(bytes \<Rightarrow> bytes) \<Rightarrow> bytes \<Rightarrow> string" where
  "cert_fingerprint sha256 der = foldl (\<lambda>s b. s @ hex_byte b) [] (sha256 der)"

text \<open>
  A generated certificate and key, the protocol versions and the installation may each fail; the value is
  the acceptor and the fingerprint.
\<close>

definition generate_control_tls ::
    "string + bytes \<times> bytes \<Rightarrow> string + unit \<Rightarrow> (bytes \<Rightarrow> bytes \<Rightarrow> string + 'a) \<Rightarrow> (bytes \<Rightarrow> bytes) \<Rightarrow> string + 'a \<times> string" where
  "generate_control_tls generated versions install sha256 =
     (case generated of
        Inl _ \<Rightarrow> Inl ''generate self-signed certificate''
      | Inr (der, key) \<Rightarrow>
          let fp = cert_fingerprint sha256 der in
          case versions of
            Inl _ \<Rightarrow> Inl ''tls protocol versions''
          | Inr _ \<Rightarrow> (case install der key of Inl _ \<Rightarrow> Inl ''install self-signed cert'' | Inr acceptor \<Rightarrow> Inr (acceptor, fp)))"

section \<open>The wildcard certificate\<close>

record 'a CertReader =
  cr_chain :: "string \<Rightarrow> string + (string + bytes) list"
  cr_key :: "string \<Rightarrow> string + bytes"
  cr_versions :: "string + unit"
  cr_install :: "bytes list \<Rightarrow> bytes \<Rightarrow> string + 'a"

definition load_wildcard_acceptor :: "'a CertReader \<Rightarrow> string \<Rightarrow> string \<Rightarrow> string + 'a" where
  "load_wildcard_acceptor cr cert_path key_path =
     (case cr_chain cr cert_path of
        Inl _ \<Rightarrow> Inl (''read '' @ cert_path)
      | Inr chain \<Rightarrow>
          if \<exists>c \<in> set chain. isl c then Inl ''parse certificate chain''
          else if chain = [] then Inl (''no certificates found in '' @ cert_path)
          else case cr_key cr key_path of
                 Inl _ \<Rightarrow> Inl (''read/parse '' @ key_path)
               | Inr key \<Rightarrow>
                   (case cr_versions cr of
                      Inl _ \<Rightarrow> Inl ''tls protocol versions''
                    | Inr _ \<Rightarrow>
                        (case cr_install cr (map projr chain) key of
                           Inl _ \<Rightarrow> Inl ''install wildcard cert''
                         | Inr acceptor \<Rightarrow> Inr acceptor)))"

definition load_wildcard_from_config :: "'a CertReader \<Rightarrow> Config \<Rightarrow> 'a option" where
  "load_wildcard_from_config cr cfg =
     (case (wildcard_cert_path cfg, wildcard_key_path cfg) of
        (Some cert, Some key) \<Rightarrow> (case load_wildcard_acceptor cr cert key of Inr a \<Rightarrow> Some a | Inl _ \<Rightarrow> None)
      | _ \<Rightarrow> None)"

text \<open>One tick of the reload task: the acceptor in use and the modification time it was loaded at.\<close>

definition wildcard_tick :: "string + 'a \<Rightarrow> nat option \<Rightarrow> 'a option \<times> nat option \<Rightarrow> 'a option \<times> nat option" where
  "wildcard_tick loaded now st =
     (if now \<noteq> snd st then (case loaded of Inr a \<Rightarrow> (Some a, now) | Inl _ \<Rightarrow> st) else st)"

section \<open>The country database\<close>

text \<open>A file: what opening it gives, and its modification time if that can be read.\<close>

type_synonym 'r geo_file = "(string + 'r) \<times> nat option"

record 'r GeoDb =
  gd_reader :: "'r option"
  gd_path :: string
  gd_mtime :: "nat option"

definition geo_load :: "'r geo_file \<Rightarrow> 'r GeoDb \<Rightarrow> bool \<times> 'r GeoDb" where
  "geo_load file g =
     (case fst file of
        Inr r \<Rightarrow> (True, g\<lparr>gd_reader := Some r, gd_mtime := snd file\<rparr>)
      | Inl _ \<Rightarrow> (False, g))"

definition geo_open :: "(string \<Rightarrow> 'r geo_file) \<Rightarrow> string \<Rightarrow> 'r GeoDb" where
  "geo_open fs path =
     (let db = \<lparr> gd_reader = None, gd_path = path, gd_mtime = None \<rparr>
      in if trim path = [] then db else snd (geo_load (fs path) db))"

definition reload_if_changed :: "(string \<Rightarrow> 'r geo_file) \<Rightarrow> 'r GeoDb \<Rightarrow> 'r GeoDb" where
  "reload_if_changed fs g =
     (if trim (gd_path g) = [] then g
      else
        let current = snd (fs (gd_path g)) in
        if current \<noteq> None \<and> current \<noteq> gd_mtime g then snd (geo_load (fs (gd_path g)) g) else g)"

text \<open>A lookup may fail, its record may not decode, be missing, or have no country code.\<close>

definition geo_country ::
    "('r \<Rightarrow> IpAddr \<Rightarrow> string + (string + string option option)) \<Rightarrow> (string \<Rightarrow> string) \<Rightarrow> 'r GeoDb \<Rightarrow> IpAddr \<Rightarrow> string option" where
  "geo_country lookup upper g ip =
     (case gd_reader g of
        None \<Rightarrow> None
      | Some r \<Rightarrow>
          (case lookup r ip of
             Inl _ \<Rightarrow> None
           | Inr rec \<Rightarrow>
               (case rec of
                  Inl _ \<Rightarrow> None
                | Inr None \<Rightarrow> None
                | Inr (Some iso_code) \<Rightarrow> map_option upper iso_code)))"

section \<open>Announcements\<close>

text \<open>
  At most thirty attempts, one second apart, in which the rest of the world moves; then, on every tick,
  the node announces itself again and pulls the policy.
\<close>

fun boot_register :: "('s \<Rightarrow> bool \<times> 's) \<Rightarrow> ('s \<Rightarrow> 's) \<Rightarrow> nat \<Rightarrow> 's \<Rightarrow> bool \<times> 's" where
  "boot_register announce world 0 s = (False, s)"
| "boot_register announce world (Suc n) s =
     (case announce s of (ok, s) \<Rightarrow> if ok then (True, s) else boot_register announce world n (world s))"

definition BOOT_ATTEMPTS :: nat where
  "BOOT_ATTEMPTS = 30"

definition policy_tick ::
    "'s site \<Rightarrow> Config \<Rightarrow> string \<Rightarrow> (string \<Rightarrow> string) \<Rightarrow> ('s \<Rightarrow> Json option) \<Rightarrow> 's \<times> CoreState \<Rightarrow> 's \<times> CoreState" where
  "policy_tick site cfg fp upper pull w =
     (let s = snd (announce_node site cfg fp (fst w)) in (s, refresh_policy upper (pull s) (snd w)))"

section \<open>Reloads\<close>

lemma wildcard_kept:
  "fst w = Some a \<Longrightarrow>
     \<exists>b. fst (fold (\<lambda>(loaded, now). wildcard_tick loaded now) ticks w) = Some b \<and> (b = a \<or> Inr b \<in> fst ` set ticks)"
proof (induction ticks arbitrary: w a)
  case (Cons t ticks)
  obtain loaded now where t: "t = (loaded, now)" by force
  have "\<exists>b. fst (wildcard_tick loaded now w) = Some b \<and> (b = a \<or> Inr b = loaded)"
    using Cons.prems by (cases loaded) (auto simp: wildcard_tick_def)
  then obtain b where b: "fst (wildcard_tick loaded now w) = Some b" "b = a \<or> Inr b = loaded" by blast
  from Cons.IH [OF b(1)] b(2) show ?case by (auto simp: t)
qed simp

lemma reload_path [simp]: "gd_path (reload_if_changed fs g) = gd_path g"
  by (auto simp: reload_if_changed_def geo_load_def Let_def split: sum.split)

lemma reader_kept:
  "gd_reader g = Some r \<Longrightarrow>
     \<exists>r'. gd_reader (fold reload_if_changed fss g) = Some r' \<and> (r' = r \<or> (\<exists>fs \<in> set fss. fst (fs (gd_path g)) = Inr r'))"
proof (induction fss arbitrary: g r)
  case (Cons fs fss)
  have "\<exists>r1. gd_reader (reload_if_changed fs g) = Some r1 \<and> (r1 = r \<or> fst (fs (gd_path g)) = Inr r1)"
    using Cons.prems by (auto simp: reload_if_changed_def geo_load_def Let_def split: sum.split)
  then obtain r1 where r1: "gd_reader (reload_if_changed fs g) = Some r1" "r1 = r \<or> fst (fs (gd_path g)) = Inr r1" by blast
  from Cons.IH [OF r1(1)] r1(2) show ?case by auto
qed simp

text \<open>
  C39: a reload never takes away what is being served. Through any sequence of hourly ticks and whatever
  the files hold at each, a wildcard acceptor or country database that is in use stays in use until a
  newer one has loaded, and what is in use was once on disk; a file that could not be loaded is tried
  again at the next tick, and a changed file that loads is in use from that tick on.
\<close>

theorem reloads_keep_serving:
  "(fst w = Some a \<longrightarrow>
      (\<exists>b. fst (fold (\<lambda>(loaded, now). wildcard_tick loaded now) ticks w) = Some b \<and> (b = a \<or> Inr b \<in> fst ` set ticks)))
    \<and> wildcard_tick (Inl e) now w = w
    \<and> (now \<noteq> snd w \<longrightarrow> wildcard_tick (Inr a') now w = (Some a', now))
    \<and> (gd_reader g = Some r \<longrightarrow>
      (\<exists>r'. gd_reader (fold reload_if_changed fss g) = Some r' \<and> (r' = r \<or> (\<exists>fs \<in> set fss. fst (fs (gd_path g)) = Inr r'))))
    \<and> (fst (fs (gd_path g)) = Inl e \<longrightarrow> reload_if_changed fs g = g)
    \<and> (trim (gd_path g) \<noteq> [] \<and> fs (gd_path g) = (Inr r', Some m) \<and> gd_mtime g \<noteq> Some m
         \<longrightarrow> reload_if_changed fs g = g\<lparr>gd_reader := Some r', gd_mtime := Some m\<rparr>)"
proof (intro conjI impI)
  assume "fst w = Some a"
  then show "\<exists>b. fst (fold (\<lambda>(loaded, now). wildcard_tick loaded now) ticks w) = Some b \<and> (b = a \<or> Inr b \<in> fst ` set ticks)"
    by (rule wildcard_kept)
next
  assume "gd_reader g = Some r"
  then show "\<exists>r'. gd_reader (fold reload_if_changed fss g) = Some r' \<and> (r' = r \<or> (\<exists>fs \<in> set fss. fst (fs (gd_path g)) = Inr r'))"
    by (rule reader_kept)
qed (auto simp: wildcard_tick_def reload_if_changed_def geo_load_def Let_def)

theorem reloads_keep_serving_witness:
  "fst (fold (\<lambda>(loaded, now). wildcard_tick loaded now) [(Inl ''bad'', Some 2), (Inr (5::nat), Some 2)] (Some 4, Some 1)) \<noteq> None
    \<and> wildcard_tick (Inr (5::nat)) (Some 2) (Some 4, Some 1) = (Some 5, Some 2)
    \<and> gd_reader (fold reload_if_changed [\<lambda>_. (Inl ''gone'', None), \<lambda>_. (Inl ''torn'', Some 9)]
        \<lparr> gd_reader = Some (7::nat), gd_path = ''geo.mmdb'', gd_mtime = Some 3 \<rparr>) = Some 7"
proof -
  have "fst (fold (\<lambda>(loaded, now). wildcard_tick loaded now) [(Inl ''bad'', Some 2), (Inr (5::nat), Some 2)] (Some 4, Some 1)) \<noteq> None"
    using reloads_keep_serving [THEN conjunct1, rule_format, of "(Some 4, Some 1)" 4 "[(Inl ''bad'', Some 2), (Inr (5::nat), Some 2)]"]
    by auto
  then show ?thesis by (simp add: wildcard_tick_def reload_if_changed_def geo_load_def Let_def)
qed

section \<open>Trust from the announcement to the handshake\<close>

lemma cert_fingerprint_eq: "cert_fingerprint sha256 der = fingerprint_of sha256 der"
proof -
  have "foldl (\<lambda>s b. s @ hex_byte b) acc bs = acc @ concat (map hex_byte bs)" for acc bs
    by (induction bs arbitrary: acc) simp_all
  then show ?thesis by (simp add: cert_fingerprint_def fingerprint_of_def)
qed

lemma reserve_routes_nodes: "reserve_routes locked node tid i reqs db = Inr (out, db') \<Longrightarrow> nodes_t db' = nodes_t db"
  by (induction reqs arbitrary: i db out) (auto simp: Let_def and_then_Inr_iff dest: new_route_fields(5))

lemma reserve_tunnel_nodes:
  assumes "reserve_tunnel lower locked draws now owner node host requested custom mx reuse device db = Inr (rt, db')"
  shows "nodes_t db' = nodes_t db"
  using assms
proof (cases rule: reserve_tunnel_cases)
  case (created tid sub db1 out)
  have "nodes_t db1 = nodes_t db"
    using created(2) by (auto simp: insert_tunnel_def Let_def split: if_splits)
  then show ?thesis using reserve_routes_nodes [OF created(6)] by simp
qed simp

text \<open>After an announcement every row of the node has its fingerprint, and the node has a row.\<close>

lemma registered_fingerprint:
  assumes "m \<in> set (nodes_t (register_node now n lo hi db))" and "n_node_id m = n_node_id n"
  shows "n_control_cert_fp m = n_control_cert_fp n"
  using assms by (auto simp: register_node_def upsert_node_def update_where_def split: if_splits)

lemma choose_node_row: "choose_node env wanted_node db = Inr n \<Longrightarrow> n \<in> set (nodes_t db)"
proof (cases wanted_node)
  case None
  assume "choose_node env wanted_node db = Inr n"
  then have d: "default_node (e_now env) db = Some n" by (simp add: choose_node_def None split: option.splits)
  let ?act = "filter n_active (nodes_t db)"
  let ?xs = "sort_key n_created_at (filter (seen_recently (e_now env)) ?act)
      @ sort_key n_created_at (filter (\<lambda>n. \<not> seen_recently (e_now env) n) ?act)"
  have "n \<in> set ?xs" using d by (cases ?xs) (auto simp: default_node_def Let_def)
  then show ?thesis by auto
qed (auto simp: choose_node_def get_node_def split: option.splits if_splits dest: fetch_optional_Some)

lemma answer_node:
  assumes "request_tunnel env locked draws user req s = (Inr ans, s')"
  obtains n where "n \<in> set (nodes_t (app_db s))" "tr_node_id ans = n_node_id n" "tr_control_cert_fingerprint ans = n_control_cert_fp n"
proof -
  obtain node rt where chk: "request_checks env user req (app_db s) = Inr node"
    and res: "reserve_tunnel (e_lower env) locked draws (e_now env) (au_user_id user) (n_node_id node)
       (n_public_host node) (to_requests (rt_req_routes req)) (trimmed (rt_req_subdomain req))
       (user_max_tunnels (au_user_id user) (app_db s)) (\<not> rt_req_create_new req) (rt_req_device_id req) (app_db s)
       = Inr (rt, app_db s')"
    and ans: "ans = request_answer env user node rt (app_db s')"
    using request_tunnel_Inr [OF assms] by metis
  have node: "node \<in> set (nodes_t (app_db s))" using chk by (auto simp: request_checks_def and_then_Inr_iff
      split: if_splits sum.splits dest: choose_node_row)
  let ?hn = "coalesce (get_node (rt_node_id rt) (app_db s')) node"
  have "?hn \<in> set (nodes_t (app_db s))"
    using node fetch_optional_Some [of _ "nodes_t (app_db s')"] reserve_tunnel_nodes [OF res]
    by (cases "get_node (rt_node_id rt) (app_db s')") (auto simp: coalesce_def get_node_def)
  then show ?thesis by (rule that) (simp_all add: ans request_answer_def Let_def split: prod.split)
qed


definition trusted_cfg :: Config where
  "trusted_cfg = default_cfg\<lparr>node_id := ''a''\<rparr>"

definition trusted_db :: DB where
  "trusted_db = demo_db\<lparr>nodes_t := upsert_node 5 (announced trusted_cfg ''4a'') (nodes_t demo_db)\<rparr>"

definition web_request :: RequestTunnelReq where
  "web_request = nas_request\<lparr>rt_req_device_id := None\<rparr>"

definition trusted_row :: NodeRow where
  "trusted_row = (demo_node ''a'' 0 (Some 10))\<lparr>n_public_host := ''natforge.com'', n_control_endpoint := ''natforge.com:4000'',
     n_internal_url := ''http://127.0.0.1:3001'', n_http_port := 8080, n_https_port := 8443,
     n_control_cert_fp := Some ''4a'', n_last_seen := Some 5\<rparr>"

lemma trusted_nodes: "upsert_node 5 (announced trusted_cfg ''4a'') (nodes_t demo_db) = [trusted_row, demo_node ''b'' 1 (Some 990)]"
  by (simp add: upsert_node_def update_where_def announced_def trusted_cfg_def default_cfg_def from_env_def env_or_def env_u16_def
      trusted_row_def demo_db_def demo_node_def Let_def nat_str_literals)

definition trusted_db1 :: DB where
  "trusted_db1 = trusted_db\<lparr>tunnels_t := [demo_tunnel\<lparr>t_public_host := ''natforge.com'', t_route_sig := ''http:8080''\<rparr>], next_id := 2\<rparr>"

lemma trusted_request:
  "\<exists>ans db. request_tunnel demo_env [] [(0, 0, 27, 1, 28)] demo_owner web_request (demo_app trusted_db) = (Inr ans, demo_app db)
     \<and> tr_node_id ans = ''a'' \<and> reservation_of ans \<noteq> None"
proof -
  have db: "trusted_db = demo_db\<lparr>nodes_t := [trusted_row, demo_node ''b'' 1 (Some 990)]\<rparr>"
    by (simp add: trusted_db_def trusted_nodes)
  have row: "n_node_id trusted_row = ''a''" "n_active trusted_row" "n_public_host trusted_row = ''natforge.com''"
    by (simp_all add: trusted_row_def demo_node_def)
  have r: "to_requests (rt_req_routes web_request) = [(Http, 8080, None)]"
    by (simp add: to_requests_def web_request_def nas_request_def)
  have c: "request_checks demo_env demo_owner web_request trusted_db = Inr trusted_row"
    by (simp add: request_checks_def demo_owner_def web_request_def nas_request_def is_user_banned_def user_by_id_def fetch_optional_def
      demo_db_def db row demo_user_def check_route_policy_def count_mode_def no_routes_def choose_node_def get_node_def device_check_def)
  have m: "user_max_tunnels 7 trusted_db = 10"
    by (simp add: user_max_tunnels_def user_by_id_def fetch_optional_def db demo_db_def demo_user_def)
  have sig: "route_signature (pairs [(Http, 8080, None)]) = ''http:8080''"
    by (simp add: route_signature_def pairs_def route_part_def)
  have none: "fetch_optional (same_set 7 ''http:8080'' None) (tunnels_t trusted_db) = None"
    and count: "count_where (\<lambda>t. t_owner_id t = 7) (tunnels_t trusted_db) = 0"
    by (simp_all add: db demo_db_def fetch_optional_def count_where_def)
  have pick: "pick_random 5 7 ''http:8080'' ''natforge.com'' ''a'' None (map random_subdomain (take 10 [(0, 0, 27, 1, 28)]))
     (Some trusted_db) = Inr (1, ''duck-a1b2'', trusted_db1)" unfolding trusted_db1_def db by code_simp
  let ?out = "[\<lparr> r_id = 0, r_tunnel_id = 1, r_route_id = 1, r_kind = ''http'', r_local_port = 8080, r_public_port = None,
      r_label = None, r_srv_service = None \<rparr>]"
  have "\<exists>db. reserve_routes [] ''a'' 1 0 [(Http, 8080, None)] trusted_db1 = Inr (?out, db)"
    unfolding trusted_db1_def db by (simp add: new_route_def port_for_def insert_route_def demo_db_def and_then_def demo_tunnel_def
        to_i16_def clean_label_def)
  then obtain db1 where routes: "reserve_routes [] ''a'' 1 0 [(Http, 8080, None)] trusted_db1 = Inr (?out, db1)" by blast
  have "\<exists>rt. reserve_tunnel id [] [(0, 0, 27, 1, 28)] 5 7 ''a'' ''natforge.com'' [(Http, 8080, None)] None 10 True None trusted_db
     = Inr (rt, db1) \<and> rt_node_id rt = ''a'' \<and> rt_routes rt = ?out"
    unfolding reserve_tunnel_def sig Let_def none count option.case pick by (simp add: routes del: reserve_routes.simps)
  then obtain rt where res: "reserve_tunnel id [] [(0, 0, 27, 1, 28)] 5 7 ''a'' ''natforge.com'' [(Http, 8080, None)] None 10 True None trusted_db
     = Inr (rt, db1)" and nid: "rt_node_id rt = ''a''" "rt_routes rt = ?out" by blast
  have "tr_node_id (request_answer demo_env demo_owner trusted_row rt db1) = ''a''"
    using reserve_tunnel_nodes [OF res]
    by (simp add: request_answer_def Let_def nid get_node_def fetch_optional_def db row coalesce_def split: prod.split)
  moreover have "reservation_of (request_answer demo_env demo_owner trusted_row rt db1) \<noteq> None"
    by (simp add: reservation_of_def request_answer_fields nid expand_routes_def expand_route_def parse_kind_def Let_def agent_route_def mode_of_str_def)
  moreover have f: "e_lower demo_env = id" "e_now demo_env = 5" "au_user_id demo_owner = 7"
    "trimmed (rt_req_subdomain web_request) = None" "rt_req_device_id web_request = None"
    "rt_req_create_new web_request = False"
    by (simp_all add: demo_env_def demo_owner_def web_request_def nas_request_def)
  moreover have a: "app_db (demo_app db) = db" "(demo_app db)\<lparr>app_db := db'\<rparr> = demo_app db'" for db db'
    by (simp_all add: demo_app_def)
  ultimately show ?thesis
    unfolding request_tunnel_def Let_def a c r f m row not_False_eq_True sum.case res prod.case by blast
qed


end
