(* ===== verification/ControlPlane.thy ===== *)
theory ControlPlane
  imports Sweeps Backend
begin

text \<open>
  The website as a process (\<^verbatim>\<open>natforge-backend/src/main.rs\<close>, \<^verbatim>\<open>metrics.rs\<close> and \<^verbatim>\<open>geo.rs\<close>): the
  housekeeping it runs on its database every minute, the gauges it shows to Prometheus, its country
  database and its start. The database pool, the migrations, the database reader and the metrics
  library are parameters.
\<close>

section \<open>Housekeeping\<close>

definition RECONCILE_GRACE_SECS :: int where
  "RECONCILE_GRACE_SECS = 3600"

definition DEVICE_OFFLINE_GRACE_SECS :: int where
  "DEVICE_OFFLINE_GRACE_SECS = 45"

definition SERVICE_HOST_IDLE_SECS :: int where
  "SERVICE_HOST_IDLE_SECS = 31 * 24 * 3600"

definition CONN_LOG_KEEP_PER_TUNNEL :: int where
  "CONN_LOG_KEEP_PER_TUNNEL = 2000"

definition NODE_FAILOVER_GRACE_SECS :: int where
  "NODE_FAILOVER_GRACE_SECS = 90"

text \<open>One tick: the five sweeps in order; what they count and whom they move is logged.\<close>

definition housekeeping :: "locks \<Rightarrow> int \<Rightarrow> DB \<Rightarrow> (string \<times> string \<times> string) list \<times> DB" where
  "housekeeping locked now db =
     (let db = snd (reconcile_abandoned now RECONCILE_GRACE_SECS db);
          db = snd (mark_stale_devices_offline now DEVICE_OFFLINE_GRACE_SECS db);
          db = snd (expire_idle_service_hosts now SERVICE_HOST_IDLE_SECS db);
          db = snd (prune_conn_logs CONN_LOG_KEEP_PER_TUNNEL db)
      in failover_stale_nodes locked now NODE_FAILOVER_GRACE_SECS db)"

section \<open>Metrics\<close>

record Gauges =
  g_active_tunnels :: int
  g_total_users :: int
  g_tcp_ports_used :: int
  g_tcp_ports_total :: int

definition new_gauges :: Gauges where
  "new_gauges = \<lparr> g_active_tunnels = 0, g_total_users = 0, g_tcp_ports_used = 0, g_tcp_ports_total = 0 \<rparr>"

text \<open>
  One scrape, for the answers of its two queries, which may fail; a gauge whose query failed keeps its
  value.
\<close>

definition scrape :: "string + Stats \<Rightarrow> string + int \<times> int \<Rightarrow> Gauges \<Rightarrow> Gauges" where
  "scrape stats_answer usage_answer g =
     (let g = (case stats_answer of
                 Inr s \<Rightarrow> g\<lparr>g_active_tunnels := st_active_tunnels s, g_total_users := st_total_users s\<rparr>
               | Inl _ \<Rightarrow> g)
      in case usage_answer of
           Inr (used, capacity) \<Rightarrow> g\<lparr>g_tcp_ports_used := used, g_tcp_ports_total := capacity\<rparr>
         | Inl _ \<Rightarrow> g)"

section \<open>Countries\<close>

text \<open>No path or an unreadable file leaves the database off.\<close>

definition open_geo :: "(string \<Rightarrow> string + 'r) \<Rightarrow> string \<Rightarrow> 'r option" where
  "open_geo read path =
     (if trim path = [] then None else case read path of Inr r \<Rightarrow> Some r | Inl _ \<Rightarrow> None)"

definition country_of ::
    "('r \<Rightarrow> IpAddr \<Rightarrow> string + (string + string option option)) \<Rightarrow> (string \<Rightarrow> string) \<Rightarrow> 'r option \<Rightarrow> IpAddr \<Rightarrow> string option" where
  "country_of lookup upper reader ip =
     (case reader of
        None \<Rightarrow> None
      | Some r \<Rightarrow>
          (case lookup r ip of
             Inr (Inr (Some (Some code))) \<Rightarrow> Some (upper code)
           | _ \<Rightarrow> None))"

section \<open>Start\<close>

text \<open>The steps of \<^verbatim>\<open>AppState::connect\<close> that can fail, in their order, with the text of each failure.\<close>

definition connect_app ::
    "BackendConfig \<Rightarrow> string + 'pg \<Rightarrow> ('pg \<Rightarrow> string + 'db) \<Rightarrow> string + 'rc \<Rightarrow> ('rc \<Rightarrow> string + 'r) \<Rightarrow> (string \<Rightarrow> 'g)
     \<Rightarrow> string + ('db \<times> 'r \<times> 'g \<times> Gauges)" where
  "connect_app cfg pg migrate redis_client redis open_db =
     (case pg of
        Inl _ \<Rightarrow> Inl (''failed to connect to PostgreSQL at '' @ bc_database_url cfg @ '' - is `docker compose up -d` running?'')
      | Inr pool \<Rightarrow>
          (case migrate pool of
             Inl _ \<Rightarrow> Inl ''failed to run database migrations''
           | Inr db \<Rightarrow>
               (case redis_client of
                  Inl _ \<Rightarrow> Inl ''invalid REDIS_URL''
                | Inr client \<Rightarrow>
                    (case redis client of
                       Inl _ \<Rightarrow> Inl (''failed to connect to Redis at '' @ bc_redis_url cfg @ '' - is `docker compose up -d` running?'')
                     | Inr conn \<Rightarrow> Inr (db, conn, open_db (bc_geoip_db cfg), new_gauges)))))"

section \<open>What a tick leaves alone\<close>

text \<open>The routes of one tunnel are those of another's move.\<close>

abbreviation routes_of :: "int \<Rightarrow> DB \<Rightarrow> RouteRow list" where
  "routes_of tid db \<equiv> filter (\<lambda>r. r_tunnel_id r = tid) (routes_t db)"

lemma migrate_routes_others:
  "migrate_routes locked target tid rs db = Inr db' \<Longrightarrow> other \<noteq> tid \<Longrightarrow> routes_of other db' = routes_of other db"
proof (induction rs arbitrary: db)
  case (Cons r rs)
  show ?case
  proof (cases "r_kind r = ''tcp'' \<or> r_kind r = ''udp''")
    case False
    then show ?thesis using Cons by simp
  next
    case True
    then obtain p db1 where c: "claim_port locked target tid (r_route_id r) db = (Some p, db1)"
      and m: "migrate_routes locked target tid rs (db1\<lparr>routes_t := update_where
                (\<lambda>x. r_tunnel_id x = tid \<and> r_route_id x = r_route_id r)
                (\<lambda>x. x\<lparr>r_public_port := Some p\<rparr>) (routes_t db1)\<rparr>) = Inr db'"
      using Cons.prems(1) by (auto split: prod.splits option.splits)
    have "routes_t db1 = routes_t db" using claim_port_fields [OF c] by auto
    then show ?thesis
      using Cons.IH [OF m Cons.prems(2)] Cons.prems(2)
      by (simp, subst filter_update_where) auto
  qed
qed simp

lemma migrate_tunnel_others:
  "migrate_tunnel locked tid target host db = Inr db' \<Longrightarrow> other \<noteq> tid \<Longrightarrow> routes_of other db' = routes_of other db"
  by (auto simp: migrate_tunnel_def and_then_Inr_iff move_tunnel_def free_tunnel_ports_def dest!: migrate_routes_others)

lemma failover_each_others:
  "failover_each locked dead target host ps db = (moved, db') \<Longrightarrow> other \<notin> fst ` set ps \<Longrightarrow> routes_of other db' = routes_of other db"
proof (induction ps arbitrary: db moved)
  case (Cons q ps)
  obtain tid sub src where q: "q = (tid, sub, src)" by (cases q)
  have ne: "other \<noteq> tid" "other \<notin> fst ` set ps" using Cons.prems(2) by (auto simp: q)
  show ?case
  proof (cases "src = target \<or> isl (migrate_tunnel locked tid target host db)")
    case True
    then have "failover_each locked dead target host ps db = (moved, db')"
      using Cons.prems(1) by (auto simp: q split: sum.splits)
    then show ?thesis using Cons.IH ne(2) by blast
  next
    case False
    then obtain db1 where m: "migrate_tunnel locked tid target host db = Inr db1" and s: "src \<noteq> target"
      by (cases "migrate_tunnel locked tid target host db") auto
    obtain f m2 where "failover_each locked dead target host ps
        (db1\<lparr>tunnels_t := update_where (\<lambda>t. t_id t = tid) f (tunnels_t db1)\<rparr>) = (m2, db')"
      using Cons.prems(1) s m by (auto simp: q Let_def split: prod.splits)
    from Cons.IH [OF this ne(2)] migrate_tunnel_others [OF m ne(1)] show ?thesis by simp
  qed
qed simp

lemma failover_others:
  assumes ids: "distinct (map t_id (tunnels_t db))" and f: "failover_stale_nodes locked now stale db = (moved, db')"
    and t: "t \<in> set (tunnels_t db)" "\<forall>n \<in> set (nodes_t db). node_stale now stale n \<longrightarrow> t_node_id t \<noteq> Some (n_node_id n)"
  shows "routes_of (t_id t) db' = routes_of (t_id t) db"
proof -
  let ?dead = "map (\<lambda>n. (n_node_id n, region_label n)) (filter (node_stale now stale) (nodes_t db))"
  let ?ps = "map (\<lambda>t. (t_id t, t_subdomain t, the (t_node_id t)))
    (filter (\<lambda>t. t_node_id t \<in> Some ` set (map fst ?dead)) (tunnels_t db))"
  have "t_id t \<notin> fst ` set ?ps"
  proof
    assume "t_id t \<in> fst ` set ?ps"
    then obtain u where u: "u \<in> set (tunnels_t db)" "t_id u = t_id t" "t_node_id u \<in> Some ` set (map fst ?dead)" by auto
    then have "u = t" using ids t(1) by (auto simp: distinct_map dest: inj_onD)
    then show False using u(3) t(2) by auto
  qed
  then show ?thesis
    using f failover_each_others
    by (auto simp: failover_stale_nodes_def Let_def split: if_splits list.splits)
qed

text \<open>What the sweeps before the failover leave of tunnels, routes and nodes.\<close>

definition swept :: "int \<Rightarrow> DB \<Rightarrow> DB" where
  "swept now db = snd (prune_conn_logs CONN_LOG_KEEP_PER_TUNNEL (snd (expire_idle_service_hosts now SERVICE_HOST_IDLE_SECS
     (snd (mark_stale_devices_offline now DEVICE_OFFLINE_GRACE_SECS (snd (reconcile_abandoned now RECONCILE_GRACE_SECS db)))))))"

lemma housekeeping_swept: "housekeeping locked now db = failover_stale_nodes locked now NODE_FAILOVER_GRACE_SECS (swept now db)"
  by (simp add: housekeeping_def swept_def Let_def)

text \<open>A sweep that spares a tunnel keeps its row, its routes and the nodes, and no route becomes unmovable.\<close>

definition spared :: "Tunnel \<Rightarrow> DB \<Rightarrow> DB \<Rightarrow> bool" where
  "spared t db db' \<longleftrightarrow> db_ok db' \<and> t \<in> set (tunnels_t db') \<and> routes_of (t_id t) db' = routes_of (t_id t) db
     \<and> nodes_t db' = nodes_t db \<and> set (routes_t db') \<subseteq> set (routes_t db)"

lemma spared_trans: "spared t db db1 \<Longrightarrow> spared t db1 db2 \<Longrightarrow> spared t db db2"
  by (auto simp: spared_def)

lemma same_tunnel: "db_ok db \<Longrightarrow> t \<in> set (tunnels_t db) \<Longrightarrow> u \<in> set (tunnels_t db) \<Longrightarrow> t_id u = t_id t \<Longrightarrow> u = t"
  by (auto simp: db_ok_def ids_ok_def distinct_map dest: inj_onD)

lemma kept_routes:
  assumes "db_ok db" and "t \<in> set (tunnels_t db)" and "\<not> P t"
    and "routes_t db' = filter (\<lambda>r. \<forall>u \<in> set (tunnels_t db). t_id u = r_tunnel_id r \<longrightarrow> \<not> P u) (routes_t db)"
  shows "routes_of (t_id t) db' = routes_of (t_id t) db" and "set (routes_t db') \<subseteq> set (routes_t db)"
proof -
  show "routes_of (t_id t) db' = routes_of (t_id t) db"
    unfolding assms(4) filter_filter by (rule filter_cong) (use assms(3) same_tunnel [OF assms(1,2)] in metis)+
qed (auto simp: assms(4))

lemma reconcile_spares:
  assumes "db_ok db" and "t \<in> set (tunnels_t db)" and "\<not> abandoned now grace t"
  shows "spared t db (snd (reconcile_abandoned now grace db))"
proof -
  obtain n db' where r: "reconcile_abandoned now grace db = (n, db')" by force
  note R = reconcile_spec [OF assms(1) r]
  have "nodes_t db' = nodes_t db"
    using r by (auto simp: reconcile_abandoned_def Let_def cascade_where_def cascade_tunnels_def free_ports_of_def split: if_splits)
  moreover have "routes_of (t_id t) db' = routes_of (t_id t) db" "set (routes_t db') \<subseteq> set (routes_t db)"
    using kept_routes [where P = "abandoned now grace", OF assms] R by blast+
  ultimately show ?thesis using reconcile_ok [OF assms(1) r] R assms(2,3) by (simp add: spared_def r)
qed

lemma expire_spares:
  assumes "db_ok db" and "t \<in> set (tunnels_t db)" and "\<not> idle_host now secs t"
  shows "spared t db (snd (expire_idle_service_hosts now secs db))"
proof -
  obtain n db' where r: "expire_idle_service_hosts now secs db = (n, db')" by force
  note R = expire_spec [OF assms(1) r]
  have "nodes_t db' = nodes_t db"
    using r by (auto simp: expire_idle_service_hosts_def Let_def free_ports_of_def split: if_splits)
  moreover have "routes_of (t_id t) db' = routes_of (t_id t) db" "set (routes_t db') \<subseteq> set (routes_t db)"
    using kept_routes [where P = "idle_host now secs", OF assms] R by blast+
  moreover have "t \<in> set (tunnels_t db')" using R assms(2,3) by (auto simp: in_update_where)
  ultimately show ?thesis using expire_ok [OF assms(1) r] by (simp add: spared_def r)
qed

lemma log_and_device_sweeps_spare:
  assumes "db_ok db" and "t \<in> set (tunnels_t db)"
  shows "spared t db (snd (mark_stale_devices_offline now secs db))" and "spared t db (snd (prune_conn_logs keep db))"
  using assms user_device_ok(8) [OF assms(1), of now secs] log_ok(2) [OF assms(1), of keep]
  by (simp_all add: spared_def mark_stale_devices_offline_def prune_conn_logs_def)

lemma swept_spares:
  assumes "db_ok db" and "t \<in> set (tunnels_t db)"
    and "\<not> abandoned now RECONCILE_GRACE_SECS t" and "\<not> idle_host now SERVICE_HOST_IDLE_SECS t"
  shows "spared t db (swept now db)"
proof -
  let ?a = "snd (reconcile_abandoned now RECONCILE_GRACE_SECS db)"
  let ?b = "snd (mark_stale_devices_offline now DEVICE_OFFLINE_GRACE_SECS ?a)"
  let ?c = "snd (expire_idle_service_hosts now SERVICE_HOST_IDLE_SECS ?b)"
  have ok: "db_ok x" "t \<in> set (tunnels_t x)" if "spared t y x" for x y using that by (simp_all add: spared_def)
  have a: "spared t db ?a" by (rule reconcile_spares [OF assms(1-3)])
  have b: "spared t ?a ?b" by (rule log_and_device_sweeps_spare [OF ok [OF a]])
  have c: "spared t ?b ?c" by (rule expire_spares [OF ok [OF b] assms(4)])
  have "spared t ?c (swept now db)" unfolding swept_def by (rule log_and_device_sweeps_spare [OF ok [OF c]])
  then show ?thesis using a b c spared_trans by blast
qed

lemma stale_90: "node_stale now NODE_FAILOVER_GRACE_SECS n \<longleftrightarrow> n_active n \<and> (\<forall>seen. n_last_seen n = Some seen \<longrightarrow> seen < now - 90)"
  by (auto simp: node_stale_def NODE_FAILOVER_GRACE_SECS_def split: option.splits)

lemma healthy_90: "node_healthy now NODE_FAILOVER_GRACE_SECS n \<longleftrightarrow> n_active n \<and> (\<exists>seen. n_last_seen n = Some seen \<and> now - 90 \<le> seen)"
  by (auto simp: node_healthy_def NODE_FAILOVER_GRACE_SECS_def split: option.splits)



end
