(* ===== verification/NodeApi.thy ===== *)
theory NodeApi
  imports Reports EditProps Node
begin

text \<open>
  The internal API of a node (\<^verbatim>\<open>natforge-node/src/api.rs\<close>): its three endpoints, the list of its live
  tunnels and the stop call, and what the stop signal of the website (\<^verbatim>\<open>handlers/tunnels.rs\<close>) does there.
  The counters of a tunnel and the order in which its hash map is walked are parameters. A parameter
  of a path arrives as it is written; a subdomain has no character that is percent-encoded.
\<close>

section \<open>The endpoints\<close>

definition core_routes :: "(string \<times> (verb \<times> string) list) list" where
  "core_routes =
     [(''/health'', [(GET, ''health'')]),
      (''/internal/tunnels'', [(GET, ''list_tunnels'')]),
      (''/internal/tunnels/{subdomain}/stop'', [(POST, ''stop_tunnel'')])]"

definition core_route :: "verb \<Rightarrow> string \<Rightarrow> routed" where
  "core_route = route_in (map (\<lambda>(p, hs). (pattern p, hs)) core_routes)"

record TunnelView =
  tv_tunnel_id :: int
  tv_subdomain :: string
  tv_owner_id :: int
  tv_public_ports :: "u16 list"
  tv_has_http :: bool
  tv_has_https :: bool
  tv_bytes_in :: nat
  tv_bytes_out :: nat

fun tunnel_views :: "(string \<Rightarrow> nat \<times> nat) \<Rightarrow> CoreState \<Rightarrow> string list \<Rightarrow> TunnelView list" where
  "tunnel_views traffic st [] = []"
| "tunnel_views traffic st (sub # subs) =
     (case tunnels st sub of
        None \<Rightarrow> tunnel_views traffic st subs
      | Some t \<Rightarrow>
          \<lparr> tv_tunnel_id = at_tunnel_id t, tv_subdomain = at_subdomain t, tv_owner_id = at_owner_id t,
            tv_public_ports = at_public_ports t, tv_has_http = at_has_http t, tv_has_https = at_has_https t,
            tv_bytes_in = fst (traffic sub), tv_bytes_out = snd (traffic sub) \<rparr> # tunnel_views traffic st subs)"

definition list_tunnels ::
    "Config \<Rightarrow> bytes option \<Rightarrow> string list \<Rightarrow> (string \<Rightarrow> nat \<times> nat) \<Rightarrow> CoreState \<Rightarrow> (nat \<times> string) + TunnelView list" where
  "list_tunnels cfg header order traffic st =
     and_then (check_secret cfg header) (\<lambda>_. Inr (tunnel_views traffic st order))"

definition health :: Json where
  "health = JObj [(''status'', JStr ''ok''), (''service'', JStr ''natforge-node'')]"

text \<open>
  A request to the node: its answer, the session whose driver is aborted, the listeners that are
  aborted, and the state it leaves.
\<close>

datatype core_answer = Body Json | Listed "TunnelView list" | CoreError nat string | CoreNotFound | CoreBadMethod

definition stop_body :: "string \<Rightarrow> string \<Rightarrow> Json" where
  "stop_body status sub = JObj [(''status'', JStr status), (''subdomain'', JStr sub)]"

definition core_api ::
    "Config \<Rightarrow> string list \<Rightarrow> (string \<Rightarrow> nat \<times> nat) \<Rightarrow> headers \<Rightarrow> verb \<Rightarrow> string \<Rightarrow> CoreState
     \<Rightarrow> core_answer \<times> session_id option \<times> listener list \<times> CoreState" where
  "core_api cfg order traffic hs m path st =
     (case core_route m path of
        NoRoute \<Rightarrow> (CoreNotFound, None, [], st)
      | MethodNotAllowed \<Rightarrow> (CoreBadMethod, None, [], st)
      | Handler h args \<Rightarrow>
          if h = ''health'' then (Body health, None, [], st)
          else if h = ''list_tunnels'' then
            (case list_tunnels cfg (hs ''x-internal-secret'') order traffic st of
               Inl (code, text) \<Rightarrow> (CoreError code text, None, [], st)
             | Inr views \<Rightarrow> (Listed views, None, [], st))
          else
            (case stop_tunnel cfg (hs ''x-internal-secret'') (hd args) st of
               Inl (code, text) \<Rightarrow> (CoreError code text, None, [], st)
             | Inr (status, driver, aborted, st) \<Rightarrow> (Body (stop_body status (hd args)), driver, aborted, st)))"

text \<open>The node behind its internal URL, for the posts of the website that reach it.\<close>

definition node_post ::
    "Config \<Rightarrow> string \<Rightarrow> string list \<Rightarrow> (string \<Rightarrow> nat \<times> nat) \<Rightarrow> string \<Rightarrow> string \<Rightarrow> CoreState
     \<Rightarrow> (core_answer \<times> session_id option \<times> listener list \<times> CoreState) option" where
  "node_post cfg base order traffic secret url st =
     map_option (\<lambda>path. core_api cfg order traffic (secret_header secret) POST path st) (strip_prefix url base)"

section \<open>The stop signal arrives\<close>

lemma core_route_stop:
  assumes "sub \<noteq> []" and "CHR ''/'' \<notin> set sub"
  shows "core_route POST (''/internal/tunnels/'' @ sub @ ''/stop'') = Handler ''stop_tunnel'' [sub]"
proof -
  have "segments (join ''/'' [[], ''internal'', ''tunnels'', sub, ''stop'']) = [[], ''internal'', ''tunnels'', sub, ''stop'']"
    unfolding segments_def by (rule split_on_join) (use assms(2) in auto)
  then have s: "segments (''/internal/tunnels/'' @ sub @ ''/stop'') = [[], ''internal'', ''tunnels'', sub, ''stop'']"
    by simp
  have t: "map (\<lambda>(p, hs). (pattern p, hs)) core_routes =
     [([Lit [], Lit ''health''], [(GET, ''health'')]),
      ([Lit [], Lit ''internal'', Lit ''tunnels''], [(GET, ''list_tunnels'')]),
      ([Lit [], Lit ''internal'', Lit ''tunnels'', Param, Lit ''stop''], [(POST, ''stop_tunnel'')])]"
    by code_simp
  show ?thesis unfolding core_route_def route_in_def s t by (simp add: after_def assms(1))
qed

text \<open>
  What a stop leaves: the tunnel is off the table of live tunnels, and in each registry exactly the
  entries of the tunnel under its keys are gone.
\<close>

definition taken_down :: "string \<Rightarrow> ActiveTunnel \<Rightarrow> CoreState \<Rightarrow> CoreState \<Rightarrow> bool" where
  "taken_down sub at st st' \<longleftrightarrow>
     tunnels st' = (tunnels st)(sub := None)
     \<and> (\<forall>k h. http_routes st' k = Some h \<longleftrightarrow> http_routes st k = Some h \<and> (h_tunnel_id h \<noteq> at_tunnel_id at \<or> k \<noteq> sub))
     \<and> (\<forall>k h. https_routes st' k = Some h \<longleftrightarrow> https_routes st k = Some h \<and> (h_tunnel_id h \<noteq> at_tunnel_id at \<or> k \<noteq> sub))
     \<and> (\<forall>p h. port_routes st' p = Some h \<longleftrightarrow>
          port_routes st p = Some h \<and> (h_tunnel_id h \<noteq> at_tunnel_id at \<or> p \<notin> set (at_public_ports at)))
     \<and> (\<forall>p h. udp_routes st' p = Some h \<longleftrightarrow>
          udp_routes st p = Some h \<and> (h_tunnel_id h \<noteq> at_tunnel_id at \<or> p \<notin> set (at_udp_ports at)))
     \<and> (\<forall>k h. custom_http st' k = Some h \<longleftrightarrow>
          custom_http st k = Some h \<and> (h_tunnel_id h \<noteq> at_tunnel_id at \<or> at_custom_domain at \<noteq> Some k))
     \<and> (\<forall>k h. custom_https st' k = Some h \<longleftrightarrow>
          custom_https st k = Some h \<and> (h_tunnel_id h \<noteq> at_tunnel_id at \<or> at_custom_domain at \<noteq> Some k))"

lemma api_teardown_takes_down: "taken_down sub at st (fst (teardown (api_teardown sub at) st))"
  using teardown_frame_and_completeness [of "api_teardown sub at" st]
  by (simp add: taken_down_def api_teardown_def) (simp add: teardown_def td_all_def)

lemma signal_url:
  assumes "(if deleted then delete_tunnel_handler env user tid else stop_tunnel_handler env user tid) s = (Inr j, s')"
    and "tunnel_by_id tid (app_db s) = Some t"
  shows "app_signals s' = app_signals s @ [node_base env (t_node_id t) (app_db s) @ ''/internal/tunnels/'' @ t_subdomain t @ ''/stop'']"
    and "app_db s' = (if deleted then snd (delete_tunnel tid (app_db s)) else snd (stop_tunnel_keep (e_now env) tid (app_db s)))"
  using assms
  by (auto simp: delete_tunnel_handler_def stop_tunnel_handler_def with_tunnel_def authorize_tunnel_owner_def
      tunnel_owner_subdomain_def signal_node_stop_def Let_def split: if_splits prod.splits)

lemma fetch_update_where:
  "(\<And>x. P x \<Longrightarrow> P (f x)) \<Longrightarrow> fetch_optional P (update_where P f xs) = map_option f (fetch_optional P xs)"
  by (induction xs) (auto simp: fetch_optional_def update_where_def)

lemma status_after:
  assumes "tunnel_by_id tid db = Some t"
  shows "tunnel_status tid (snd (stop_tunnel_keep now tid db)) = Some ''stopped''"
    and "tunnel_status tid (snd (delete_tunnel tid db)) = None"
proof -
  show "tunnel_status tid (snd (stop_tunnel_keep now tid db)) = Some ''stopped''"
    using assms by (simp add: tunnel_status_def tunnel_by_id_def stop_tunnel_keep_def update_tunnel_def fetch_update_where)
  show "tunnel_status tid (snd (delete_tunnel tid db)) = None"
    by (auto simp: tunnel_status_def tunnel_by_id_def delete_tunnel_def cascade_where_def cascade_tunnels_def
        free_tunnel_ports_def tunnels_where_def fetch_optional_None delete_where_def)
qed

lemma valid_subdomain_segment: "valid_subdomain sub \<Longrightarrow> sub \<noteq> [] \<and> CHR ''/'' \<notin> set sub"
  by (auto simp: valid_subdomain_iff sub_alnum_def is_ascii_lowercase_def is_ascii_digit_def)

lemma node_post_reaches:
  "node_post cfg base order traffic secret (base @ path) st = Some (core_api cfg order traffic (secret_header secret) POST path st)"
  by (simp add: node_post_def strip_prefix_def prefix_def)

lemma core_api_stop:
  assumes "valid_subdomain sub" and "visible_ascii (internal_secret cfg)"
  shows "core_api cfg order traffic (secret_header (internal_secret cfg)) POST (''/internal/tunnels/'' @ sub @ ''/stop'') st
    = (case tunnels st sub of
         None \<Rightarrow> (Body (stop_body ''not_found'' sub), None, [], st)
       | Some at \<Rightarrow> (Body (stop_body ''stopping'' sub), Some (at_driver_abort at),
           at_listener_handles at @ td_aborts (api_teardown sub at) st, fst (teardown (api_teardown sub at) st)))"
proof -
  have "check_secret cfg (Some (internal_secret cfg)) = Inr ()" by (simp add: check_secret_iff assms(2))
  moreover have "core_route POST (''/internal/tunnels/'' @ sub @ ''/stop'') = Handler ''stop_tunnel'' [sub]"
    using core_route_stop valid_subdomain_segment [OF assms(1)] by blast
  ultimately show ?thesis
    unfolding core_api_def by (simp only: routed.case) (simp add: secret_header_def stop_tunnel_def teardown_def split: option.split)
qed

lemma without_secret:
  assumes "check_secret cfg (hs ''x-internal-secret'') \<noteq> Inr ()" and "core_api cfg order traffic hs m path st = (ans, driver, aborted, st')"
  shows "st' = st \<and> driver = None \<and> aborted = [] \<and> (\<forall>views. ans \<noteq> Listed views) \<and> (\<forall>status sub. ans \<noteq> Body (stop_body status sub))"
proof -
  have c: "\<exists>e. check_secret cfg (hs ''x-internal-secret'') = Inl e"
    using assms(1) by (cases "check_secret cfg (hs ''x-internal-secret'')") auto
  then show ?thesis
    using assms(2)
    by (auto simp: core_api_def list_tunnels_def stop_tunnel_def health_def stop_body_def split: routed.splits if_splits)
qed

text \<open>
  C16: stopping a tunnel on the website stops it on its node. When the owner stops or deletes a tunnel,
  exactly one signal goes out, to the node that hosts it; if the node shares the secret, its API
  recognises the signal as the stop of this very subdomain, aborts the driver and the listeners of the
  live session and takes its entries, and no others, out of the six registries, while the tunnel is
  stopped or gone in the database. Without the secret the API lists nothing, stops nothing and changes
  nothing.
\<close>

theorem stop_reaches_node:
  assumes "(if deleted then delete_tunnel_handler env user tid else stop_tunnel_handler env user tid) s = (Inr j, s')"
    and "tunnel_by_id tid (app_db s) = Some t" and "t_node_id t = Some nid" and "get_node nid (app_db s) = Some n"
    and "valid_subdomain (t_subdomain t)"
    and "bc_internal_secret (e_cfg env) = internal_secret cfg" and "visible_ascii (internal_secret cfg)"
  shows "tunnel_status tid (app_db s') = (if deleted then None else Some ''stopped'')
    \<and> (\<exists>url. app_signals s' = app_signals s @ [url]
         \<and> (case tunnels st (t_subdomain t) of
              None \<Rightarrow> node_post cfg (n_internal_url n) order traffic (bc_internal_secret (e_cfg env)) url st
                       = Some (Body (stop_body ''not_found'' (t_subdomain t)), None, [], st)
            | Some at \<Rightarrow> \<exists>aborted st'. node_post cfg (n_internal_url n) order traffic (bc_internal_secret (e_cfg env)) url st
                       = Some (Body (stop_body ''stopping'' (t_subdomain t)), Some (at_driver_abort at), aborted, st')
                     \<and> set (at_listener_handles at) \<subseteq> set aborted \<and> taken_down (t_subdomain t) at st st'))
    \<and> (\<forall>hs m path ans driver aborted st'.
         check_secret cfg (hs ''x-internal-secret'') \<noteq> Inr () \<and> core_api cfg order traffic hs m path st = (ans, driver, aborted, st')
         \<longrightarrow> st' = st \<and> driver = None \<and> aborted = [] \<and> (\<forall>views. ans \<noteq> Listed views)
             \<and> (\<forall>status sub. ans \<noteq> Body (stop_body status sub)))"
proof (intro conjI)
  note S = signal_url [OF assms(1,2)]
  show "tunnel_status tid (app_db s') = (if deleted then None else Some ''stopped'')"
    using S(2) status_after [OF assms(2)] by simp
  let ?path = "''/internal/tunnels/'' @ t_subdomain t @ ''/stop''"
  have base: "node_base env (t_node_id t) (app_db s) = n_internal_url n" by (simp add: node_base_def assms(3,4))
  note api = node_post_reaches [of cfg "n_internal_url n" order traffic "internal_secret cfg" ?path st,
      unfolded core_api_stop [OF assms(5,7)]]
  show "\<exists>url. app_signals s' = app_signals s @ [url]
         \<and> (case tunnels st (t_subdomain t) of
              None \<Rightarrow> node_post cfg (n_internal_url n) order traffic (bc_internal_secret (e_cfg env)) url st
                       = Some (Body (stop_body ''not_found'' (t_subdomain t)), None, [], st)
            | Some at \<Rightarrow> \<exists>aborted st'. node_post cfg (n_internal_url n) order traffic (bc_internal_secret (e_cfg env)) url st
                       = Some (Body (stop_body ''stopping'' (t_subdomain t)), Some (at_driver_abort at), aborted, st')
                     \<and> set (at_listener_handles at) \<subseteq> set aborted \<and> taken_down (t_subdomain t) at st st')"
    using S(1) api api_teardown_takes_down unfolding base assms(6) by (intro exI conjI) (auto split: option.split)
qed (use without_secret in blast)

definition duck_live :: ActiveTunnel where
  "duck_live = \<lparr> at_tunnel_id = 1, at_subdomain = ''duck-a1b2'', at_owner_id = 7, at_public_ports = [], at_udp_ports = [],
     at_custom_domain = None, at_srv_records = [], at_has_http = True, at_has_https = False, at_listener_handles = [],
     at_driver_abort = 3 \<rparr>"

definition duck_handle :: RouteHandle where
  "duck_handle = \<lparr> h_tunnel_id = 1, h_owner_id = 7, h_route_id = 0, h_mode = Http, h_open_tx = 3 \<rparr>"

definition duck_state :: CoreState where
  "duck_state = empty_state\<lparr>tunnels := [''duck-a1b2'' \<mapsto> duck_live], http_routes := [''duck-a1b2'' \<mapsto> duck_handle]\<rparr>"

theorem stop_reaches_node_witness:
  "\<exists>j s' url aborted st'. stop_tunnel_handler demo_env demo_owner 1 (demo_app demo_db1) = (Inr j, s') \<and> app_signals s' = [url]
     \<and> node_post default_cfg ''a'' [] (\<lambda>_. (0, 0)) (bc_internal_secret (e_cfg demo_env)) url duck_state
         = Some (Body (stop_body ''stopping'' ''duck-a1b2''), Some 3, aborted, st')
     \<and> host_route duck_state ''duck-a1b2'' Http = Some duck_handle \<and> http_routes st' ''duck-a1b2'' = None"
proof -
  have t: "tunnel_by_id 1 (app_db (demo_app demo_db1)) = Some demo_tunnel"
    by (simp add: demo_app_def tunnel_by_id_def fetch_optional_def demo_db1_def demo_tunnel_def)
  have n: "get_node ''a'' (app_db (demo_app demo_db1)) = Some (demo_node ''a'' 0 (Some 10))"
    by (simp add: demo_app_def get_node_def fetch_optional_def demo_db1_def demo_db_def demo_node_def)
  have d: "t_node_id demo_tunnel = Some ''a''" "t_subdomain demo_tunnel = ''duck-a1b2''" "n_internal_url (demo_node ''a'' 0 (Some 10)) = ''a''"
    "t_owner_id demo_tunnel = 7" "au_user_id demo_owner = 7" "app_signals (demo_app demo_db1) = []"
    by (simp_all add: demo_tunnel_def demo_node_def demo_owner_def demo_app_def)
  have v: "valid_subdomain (t_subdomain demo_tunnel)" unfolding d by code_simp
  have sec: "bc_internal_secret (e_cfg demo_env) = internal_secret default_cfg" "visible_ascii (internal_secret default_cfg)"
    by (simp_all add: default_cfg_facts demo_env_def backend_from_env_def env_or_def visible_ascii_def)
  obtain r s' where h: "stop_tunnel_handler demo_env demo_owner 1 (demo_app demo_db1) = (r, s')" by fastforce
  have "count_where (\<lambda>t. t_id t = 1) (tunnels_t demo_db1) = 1"
    by (simp add: count_where_def demo_db1_def demo_tunnel_def)
  then have "r = Inr (JObj [(''status'', JStr ''tunnel_stopped''), (''tunnel_id'', JInt 1)])"
    using h t d(4,5) by (auto simp: stop_tunnel_handler_def with_tunnel_def authorize_tunnel_owner_def tunnel_owner_subdomain_def
        may_manage_def stop_tunnel_keep_def Let_def demo_app_def)
  then obtain j where j: "r = Inr j" by blast
  have live: "tunnels duck_state ''duck-a1b2'' = Some duck_live" "http_routes duck_state ''duck-a1b2'' = Some duck_handle"
    "at_driver_abort duck_live = 3" "at_tunnel_id duck_live = 1" "h_tunnel_id duck_handle = 1"
    by (simp_all add: duck_state_def duck_live_def duck_handle_def)
  have "(if False then delete_tunnel_handler demo_env demo_owner 1 else stop_tunnel_handler demo_env demo_owner 1) (demo_app demo_db1) = (Inr j, s')"
    using h j by simp
  note P = stop_reaches_node [OF this t d(1) n v sec, where st = duck_state and order = "[]" and traffic = "\<lambda>_. (0, 0)", unfolded d live option.case]
  then obtain url aborted st' where u: "app_signals s' = [] @ [url]"
    "node_post default_cfg ''a'' [] (\<lambda>_. (0, 0)) (bc_internal_secret (e_cfg demo_env)) url duck_state
         = Some (Body (stop_body ''stopping'' ''duck-a1b2''), Some 3, aborted, st')" "taken_down ''duck-a1b2'' duck_live duck_state st'"
    by blast
  have "http_routes st' ''duck-a1b2'' = None"
    using u(3) live by (cases "http_routes st' ''duck-a1b2''") (auto simp: taken_down_def)
  moreover have "host_route duck_state ''duck-a1b2'' Http = Some duck_handle" by (simp add: host_route_def live)
  ultimately show ?thesis using h u unfolding j by auto
qed

end
