(* ===== verification/Liveness.thy ===== *)
theory Liveness
  imports Redis NodeConfig
begin

text \<open>
  The mirror of live tunnels a node keeps in Redis (\<^verbatim>\<open>natforge-node/src/reporter.rs\<close>): keys with a
  deadline, written when a tunnel comes up and again on every report tick of its session
  (\<^verbatim>\<open>tunnel/mod.rs\<close>), deleted when it goes down. A write is best effort: \<^verbatim>\<open>ok\<close> says for which keys the
  server executes the command.
\<close>

section \<open>The mirror\<close>

definition LIVE_TTL :: int where
  "LIVE_TTL = 30"

definition live_key :: "string \<Rightarrow> string" where
  "live_key sub = ''nf:tunnel:live:'' @ sub"

definition route_host_key :: "string \<Rightarrow> string" where
  "route_host_key sub = ''nf:route:host:'' @ sub"

definition route_port_key :: "nat \<Rightarrow> string" where
  "route_port_key p = ''nf:route:port:'' @ nat_str p"

definition set_live :: "(string \<Rightarrow> bool) \<Rightarrow> int \<Rightarrow> string \<Rightarrow> string \<Rightarrow> Redis \<Rightarrow> Redis" where
  "set_live ok now key v r = (if ok key then r_set_ex now key v LIVE_TTL r else r)"

definition redis_mirror_up ::
    "(string \<Rightarrow> bool) \<Rightarrow> Config \<Rightarrow> int \<Rightarrow> string \<Rightarrow> bool \<Rightarrow> bool \<Rightarrow> nat list \<Rightarrow> int \<Rightarrow> Redis \<Rightarrow> Redis" where
  "redis_mirror_up ok cfg tid sub has_http has_https ports now r =
     (let r = set_live ok now (live_key sub) (node_id cfg @ '':'' @ int_str tid) r;
          r = (if has_http \<or> has_https then set_live ok now (route_host_key sub) (node_id cfg) r else r)
      in fold (\<lambda>p. set_live ok now (route_port_key p) sub) ports r)"

definition redis_mirror_down :: "(string \<Rightarrow> bool) \<Rightarrow> string \<Rightarrow> int \<Rightarrow> Redis \<Rightarrow> Redis" where
  "redis_mirror_down ok sub now r =
     (let r = (if ok (live_key sub) then snd (r_del now (live_key sub) r) else r)
      in if ok (route_host_key sub) then snd (r_del now (route_host_key sub) r) else r)"

text \<open>The mirror at a time, for the times at which the session has refreshed it.\<close>

definition mirrored ::
    "Config \<Rightarrow> int \<Rightarrow> string \<Rightarrow> bool \<Rightarrow> bool \<Rightarrow> nat list \<Rightarrow> int list \<Rightarrow> int \<Rightarrow> Redis \<Rightarrow> Redis" where
  "mirrored cfg tid sub has_http has_https ports ticks now =
     fold (redis_mirror_up (\<lambda>_. True) cfg tid sub has_http has_https ports) (filter (\<lambda>t. t \<le> now) ticks)"

section \<open>What a refresh writes\<close>

lemma mirror_keys_differ [simp]:
  "live_key sub \<noteq> route_host_key sub'" "route_host_key sub \<noteq> live_key sub'"
  "live_key sub \<noteq> route_port_key p" "route_port_key p \<noteq> live_key sub"
  "route_host_key sub \<noteq> route_port_key p" "route_port_key p \<noteq> route_host_key sub"
  by (simp_all add: live_key_def route_host_key_def route_port_key_def)

lemma route_port_key_eq [simp]: "route_port_key p = route_port_key q \<longleftrightarrow> p = q"
  using digits_val_nat_str by (auto simp: route_port_key_def dest: arg_cong [where f = digits_val])

text \<open>What a session mirrors: the value each of its keys has while it lives.\<close>

definition mirror_value :: "Config \<Rightarrow> int \<Rightarrow> string \<Rightarrow> bool \<Rightarrow> bool \<Rightarrow> nat list \<Rightarrow> string \<Rightarrow> string option" where
  "mirror_value cfg tid sub has_http has_https ports key =
     (if key = live_key sub then Some (node_id cfg @ '':'' @ int_str tid)
      else if key = route_host_key sub \<and> (has_http \<or> has_https) then Some (node_id cfg)
      else if \<exists>p \<in> set ports. key = route_port_key p then Some sub
      else None)"

lemma set_ports:
  "fold (\<lambda>p. set_live (\<lambda>_. True) now (route_port_key p) sub) ports r key =
     (if \<exists>p \<in> set ports. key = route_port_key p then Some (RStr sub, Some (now + LIVE_TTL)) else r key)"
  by (induction ports arbitrary: r) (auto simp: set_live_def r_set_ex_def)

lemma mirror_up_key:
  "redis_mirror_up (\<lambda>_. True) cfg tid sub h hs ports now r key =
     (case mirror_value cfg tid sub h hs ports key of Some v \<Rightarrow> Some (RStr v, Some (now + LIVE_TTL)) | None \<Rightarrow> r key)"
  by (auto simp: redis_mirror_up_def set_ports mirror_value_def set_live_def r_set_ex_def Let_def)

lemma fold_mirror_key:
  "fold (redis_mirror_up (\<lambda>_. True) cfg tid sub h hs ports) ts r key =
     (case mirror_value cfg tid sub h hs ports key of
        Some v \<Rightarrow> if ts = [] then r key else Some (RStr v, Some (last ts + LIVE_TTL))
      | None \<Rightarrow> r key)"
  by (induction ts arbitrary: r) (auto simp: mirror_up_key split: option.splits)

text \<open>Refreshes less than the deadline apart.\<close>

fun steady :: "int list \<Rightarrow> bool" where
  "steady (t # t' # ts) \<longleftrightarrow> t \<le> t' \<and> t' < t + LIVE_TTL \<and> steady (t' # ts)"
| "steady _ \<longleftrightarrow> True"

lemma steady_first: "steady (t # ts) \<Longrightarrow> x \<in> set ts \<Longrightarrow> t \<le> x"
  by (induction ts arbitrary: t) force+

lemma steady_last: "steady (t # ts) \<Longrightarrow> x \<in> set (t # ts) \<Longrightarrow> x \<le> last (t # ts)"
proof (induction ts arbitrary: t)
  case (Cons u ts)
  have "x \<le> last (u # ts)"
  proof (cases "x = t")
    case True
    then show ?thesis using Cons.IH [of u] Cons.prems(1) Cons.prems(2) steady_first [of u ts "last (u # ts)"]
      by (cases "ts = []") auto
  next
    case False
    then show ?thesis using Cons.IH [of u] Cons.prems by auto
  qed
  then show ?case by simp
qed simp

lemma steady_latest:
  "steady (t0 # ts) \<Longrightarrow> t0 \<le> now \<Longrightarrow> now < last (t0 # ts) + LIVE_TTL \<Longrightarrow>
     filter (\<lambda>t. t \<le> now) (t0 # ts) \<noteq> [] \<and> now < last (filter (\<lambda>t. t \<le> now) (t0 # ts)) + LIVE_TTL"
proof (induction ts arbitrary: t0)
  case (Cons t ts)
  show ?case
  proof (cases "t \<le> now")
    case True
    then show ?thesis using Cons.IH [of t] Cons.prems by auto
  next
    case False
    then have "filter (\<lambda>t. t \<le> now) (t # ts) = []"
      using steady_first [of t ts] Cons.prems(1) by (force simp: filter_empty_conv)
    then show ?thesis using Cons.prems False by auto
  qed
qed simp

text \<open>
  The mirror in Redis follows the session. As long as a session refreshes it less than the deadline
  apart, each of its keys holds the session's value at every moment from the first refresh until the
  deadline after the last, and no other key changes; once the session has gone down the host and the
  live key are gone, and whether or not it could say so, thirty seconds after the last refresh none of
  its keys exists.
\<close>

theorem mirror_follows_session:
  assumes "steady (t0 # ts)"
  shows "(t0 \<le> now \<and> now < last (t0 # ts) + LIVE_TTL \<and> mirror_value cfg tid sub h hs ports key = Some v \<longrightarrow>
            r_get_str now key (mirrored cfg tid sub h hs ports (t0 # ts) now r) = Inr (Some v))
    \<and> (mirror_value cfg tid sub h hs ports key = None \<longrightarrow> mirrored cfg tid sub h hs ports (t0 # ts) now r key = r key)
    \<and> (key = live_key sub \<or> key = route_host_key sub \<longrightarrow>
         \<not> r_exists now key (redis_mirror_down (\<lambda>_. True) sub d (mirrored cfg tid sub h hs ports (t0 # ts) d r)))
    \<and> (last (t0 # ts) + LIVE_TTL \<le> now \<and> mirror_value cfg tid sub h hs ports key \<noteq> None \<longrightarrow>
         \<not> r_exists now key (mirrored cfg tid sub h hs ports (t0 # ts) now r))"
proof (intro conjI impI)
  assume a: "t0 \<le> now \<and> now < last (t0 # ts) + LIVE_TTL \<and> mirror_value cfg tid sub h hs ports key = Some v"
  then show "r_get_str now key (mirrored cfg tid sub h hs ports (t0 # ts) now r) = Inr (Some v)"
    using steady_latest [OF assms, of now] unfolding mirrored_def
    by (simp only: r_get_str_def r_get_def fold_mirror_key) (simp add: alive_def del: filter.simps)
next
  assume a: "last (t0 # ts) + LIVE_TTL \<le> now \<and> mirror_value cfg tid sub h hs ports key \<noteq> None"
  have "filter (\<lambda>t. t \<le> now) (t0 # ts) = t0 # ts"
    using steady_last [OF assms] a by (force simp: filter_id_conv LIVE_TTL_def)
  then show "\<not> r_exists now key (mirrored cfg tid sub h hs ports (t0 # ts) now r)"
    using a by (auto simp: mirrored_def r_exists_def r_get_def fold_mirror_key alive_def simp del: fold.simps)
qed (auto simp: mirrored_def fold_mirror_key redis_mirror_down_def r_del_def r_exists_def r_get_def Let_def simp del: filter.simps)

theorem mirror_follows_session_witness:
  "r_get_str 17 (live_key ''duck'') (mirrored (from_env (\<lambda>_. None)) 3 ''duck'' True False [20000] [0, 5, 10, 15, 20] 17 (\<lambda>_. None))
     = Inr (Some (node_id (from_env (\<lambda>_. None)) @ '':'' @ int_str 3))"
  using mirror_follows_session [of 0 "[5, 10, 15, 20]", THEN conjunct1, rule_format, of 17
      "from_env (\<lambda>_. None)" 3 "''duck''" True False "[20000]" "live_key ''duck''" _ "\<lambda>_. None"]
  by (simp add: LIVE_TTL_def mirror_value_def)

end
