(* ===== verification/AgentMain.thy ===== *)
theory AgentMain
  imports AgentProps
begin

text \<open>
  The agent as a command (\<^verbatim>\<open>natforge-agent/src/main.rs\<close>): its five modes, what each does with the control
  plane and the files of the user, and the endless loop of an enrolled device. The answers of the
  control plane, the system and its commands are a record of parameters; the command-line parser has
  run and its defaults are filled in.
\<close>

section \<open>Modes\<close>

datatype Mode =
    ServiceHost "string list" "u16 option" string "string option" "string option" "string option" "string option" "string option"
  | Enroll string
  | Run "string option" "string option"
  | InstallService
  | UninstallService

text \<open>
  One invocation sees: \<^verbatim>\<open>HOME\<close>, the executable's path and the outcomes of commands; the serialisation
  of the stored device and the writes the system refuses; the answers to a login, to the two device
  flows and to their polls, to the reservations and re-reservations; and for each turn of the device
  loop the serve tasks that have ended since and the answer to the configuration request.
\<close>

record AgentWorld =
  aw_home :: "string option"
  aw_exe :: "string + string"
  aw_commands :: commands
  aw_to_json :: "StoredDevice \<Rightarrow> string"
  aw_from_json :: "string \<Rightarrow> string + StoredDevice"
  aw_refused :: "string \<Rightarrow> string option"
  aw_status :: "nat \<Rightarrow> string"
  aw_login :: "HttpReq \<Rightarrow> string response"
  aw_device_start :: "string \<Rightarrow> DeviceStart response"
  aw_device_polls :: "DeviceToken response list"
  aw_enroll_start :: "string \<Rightarrow> EnrollStart response"
  aw_enroll_polls :: "EnrollPoll response list"
  aw_reserve :: "HttpReq \<Rightarrow> Reservation response"
  aw_again :: "(HttpReq \<Rightarrow> Reservation response) list"
  aw_turns :: "(int list \<times> (HttpReq \<Rightarrow> Reservation list response)) list"

section \<open>The loop of an enrolled device\<close>

definition end_tasks :: "int list \<Rightarrow> Supervisor \<Rightarrow> Supervisor" where
  "end_tasks tids sv =
     sv\<lparr>sv_tasks := (\<lambda>tid. if tid \<in> set tids then map_option (\<lambda>t. t\<lparr>tk_finished := True\<rparr>) (sv_tasks sv tid)
                          else sv_tasks sv tid)\<rparr>"

fun run_device ::
    "(nat \<Rightarrow> string) \<Rightarrow> string \<Rightarrow> string \<Rightarrow> string option \<Rightarrow> (int list \<times> (HttpReq \<Rightarrow> Reservation list response)) list
     \<Rightarrow> Supervisor \<Rightarrow> Supervisor" where
  "run_device show_status control_plane token ts [] sv = sv"
| "run_device show_status control_plane token ts ((ended, answer) # turns) sv =
     run_device show_status control_plane token ts turns
       (fst (device_cycle ts (fetch_config show_status (answer (config_request control_plane token))) (end_tasks ended sv)))"

section \<open>Main\<close>

text \<open>
  How far an invocation has come: it is still polling, it returned an error, it connects as a service
  host, it stopped with an error that is only logged, it enrolled, it supervises, or it is done.
\<close>

datatype progress =
    Polling
  | Exit string
  | Hosting "(string \<times> Reservation) list"
  | HostStopped string
  | EnrolledAs StoredDevice string
  | Supervising Supervisor
  | Done

definition main_service_host ::
    "AgentWorld \<Rightarrow> string list \<Rightarrow> u16 option \<Rightarrow> string \<Rightarrow> string option \<Rightarrow> string option \<Rightarrow> string option \<Rightarrow> string option
     \<Rightarrow> string option \<Rightarrow> progress" where
  "main_service_host w routes local_port control_plane region tunnel_server token email password =
     (case parse_routes routes local_port of
        Inl e \<Rightarrow> Exit e
      | Inr specs \<Rightarrow>
          (case obtain_token (aw_status w) token email password
                  (aw_login w (login_request control_plane (case email of Some e \<Rightarrow> e | None \<Rightarrow> []) (case password of Some p \<Rightarrow> p | None \<Rightarrow> [])))
                  (aw_device_start w control_plane) (aw_device_polls w) of
             None \<Rightarrow> Polling
           | Some (Inl e) \<Rightarrow> Exit e
           | Some (Inr session) \<Rightarrow>
               let req = reserve_request control_plane session specs region in
               (case run tunnel_server (reserve (aw_status w) (aw_reserve w req))
                       (map (\<lambda>answer. reserve (aw_status w) (answer req)) (aw_again w)) of
                  Inl e \<Rightarrow> HostStopped e
                | Inr connections \<Rightarrow> Hosting connections)))"

definition main_enroll :: "AgentWorld \<Rightarrow> string \<Rightarrow> Files \<Rightarrow> progress \<times> Files" where
  "main_enroll w control_plane fs =
     (case enroll control_plane (aw_enroll_start w control_plane) (aw_enroll_polls w) of
        None \<Rightarrow> (Polling, fs)
      | Some (Inl e) \<Rightarrow> (Exit e, fs)
      | Some (Inr dev) \<Rightarrow>
          (case save_device (aw_to_json w) (aw_refused w) (aw_home w) dev fs of
             Inl e \<Rightarrow> (Exit e, fs)
           | Inr fs \<Rightarrow>
               (case config_path (aw_home w) of Inl e \<Rightarrow> (Exit e, fs) | Inr path \<Rightarrow> (EnrolledAs dev path, fs))))"

definition main_run :: "AgentWorld \<Rightarrow> string option \<Rightarrow> string option \<Rightarrow> Files \<Rightarrow> progress" where
  "main_run w control_plane tunnel_server fs =
     (case load_device (aw_from_json w) (aw_home w) fs of
        Inl e \<Rightarrow> Exit e
      | Inr dev \<Rightarrow>
          let cp = (case control_plane of Some v \<Rightarrow> v | None \<Rightarrow> sd_control_plane dev) in
          Supervising (run_device (aw_status w) cp (sd_device_token dev) tunnel_server (aw_turns w) new_supervisor))"

fun agent_main :: "AgentWorld \<Rightarrow> Mode \<Rightarrow> Files \<Rightarrow> progress \<times> Files" where
  "agent_main w (ServiceHost routes local_port control_plane region tunnel_server token email password) fs =
     (main_service_host w routes local_port control_plane region tunnel_server token email password, fs)"
| "agent_main w (Enroll control_plane) fs = main_enroll w control_plane fs"
| "agent_main w (Run control_plane tunnel_server) fs = (main_run w control_plane tunnel_server fs, fs)"
| "agent_main w InstallService fs =
     (case install_service (aw_commands w) (aw_exe w) (aw_home w) fs of
        (Inl e, fs) \<Rightarrow> (Exit e, fs)
      | (Inr _, fs) \<Rightarrow> (Done, fs))"
| "agent_main w UninstallService fs = (Done, uninstall_service (aw_home w) fs)"

text \<open>A history of invocations on the same files.\<close>

fun invocations :: "(AgentWorld \<times> Mode) list \<Rightarrow> Files \<Rightarrow> Files" where
  "invocations [] fs = fs"
| "invocations ((w, m) # ms) fs = invocations ms (snd (agent_main w m fs))"

section \<open>The loop stays within the supervisor's states\<close>

lemma end_task: "sv_reachable ts sv \<Longrightarrow> sv_reachable ts (end_tasks tids sv)"
proof (induction tids arbitrary: sv)
  case Nil
  then show ?case by (simp add: end_tasks_def)
next
  case (Cons tid tids)
  show ?case
  proof (cases "sv_tasks sv tid")
    case None
    then have "end_tasks (tid # tids) sv = end_tasks tids sv"
      unfolding end_tasks_def by (intro arg_cong [where f = "\<lambda>f. sv\<lparr>sv_tasks := f\<rparr>"]) (rule ext, simp add: None)
    then show ?thesis using Cons by simp
  next
    case (Some t)
    let ?sv = "sv\<lparr>sv_tasks := (sv_tasks sv)(tid \<mapsto> t\<lparr>tk_finished := True\<rparr>)\<rparr>"
    have "end_tasks (tid # tids) sv = end_tasks tids ?sv" using Some by (auto simp: end_tasks_def fun_eq_iff)
    moreover have "sv_reachable ts ?sv" using Cons.prems Some by (blast intro: sv_next sv_ended)
    ultimately show ?thesis using Cons.IH by simp
  qed
qed

lemma run_device_reachable: "sv_reachable ts sv \<Longrightarrow> sv_reachable ts (run_device show_status cp token ts turns sv)"
proof (induction show_status cp token ts turns sv rule: run_device.induct)
  case (2 show_status cp token ts ended answer turns sv)
  have "sv_reachable ts (fst (device_cycle ts (fetch_config show_status (answer (config_request cp token))) (end_tasks ended sv)))"
    using end_task [OF 2(2)] by (blast intro: sv_next sv_cycle prod.collapse [symmetric])
  then show ?case using 2(1) by simp
qed simp

section \<open>Enrolled once, served ever after\<close>

lemma enroll_cp: "enroll cp start polls = Some (Inr dev) \<Longrightarrow> sd_control_plane dev = cp"
proof -
  have "poll_loop (enroll_poll cp) ps = Some (Inr dev) \<Longrightarrow> sd_control_plane dev = cp" for ps
    by (induction ps) (auto simp: enroll_poll_def split: option.splits sum.splits if_splits)
  then show "enroll cp start polls = Some (Inr dev) \<Longrightarrow> sd_control_plane dev = cp"
    by (auto simp: enroll_def split: sum.splits)
qed

lemma other_modes_keep_device:
  "config_path (aw_home w) = Inr path \<Longrightarrow> (\<And>c. m \<noteq> Enroll c) \<Longrightarrow> snd (agent_main w m fs) path = fs path"
  by (cases m) (auto simp: config_path_def config_dir_def service_unit_path_def and_then_Inr_iff
      install_service_def uninstall_service_def split: prod.splits sum.splits option.splits)

lemma invocations_keep_device:
  "config_path home = Inr path \<Longrightarrow> \<forall>(v, m) \<in> set ms. aw_home v = home \<and> (\<forall>c. m \<noteq> Enroll c) \<Longrightarrow>
     invocations ms fs path = fs path"
  by (induction ms fs rule: invocations.induct) (auto simp: other_modes_keep_device)

lemma main_enroll_saved:
  "main_enroll w cp fs = (EnrolledAs dev path, fs') \<longleftrightarrow>
     enroll cp (aw_enroll_start w cp) (aw_enroll_polls w) = Some (Inr dev) \<and> config_path (aw_home w) = Inr path
     \<and> aw_refused w path = None \<and> fs' = fs(path \<mapsto> aw_to_json w dev)"
  by (auto simp: main_enroll_def save_device_def split: option.splits sum.splits)


definition laptop :: "string \<Rightarrow> StoredDevice" where
  "laptop token = \<lparr> sd_control_plane = ''https://c'', sd_device_id = 9, sd_name = ''laptop'', sd_device_token = token \<rparr>"

definition laptop_world :: AgentWorld where
  "laptop_world =
     \<lparr> aw_home = Some ''/home/u'', aw_exe = Inr ''/bin/natforge'', aw_commands = (\<lambda>_ _. Inr ([], True)),
       aw_to_json = sd_device_token, aw_from_json = (\<lambda>t. Inr (laptop t)), aw_refused = (\<lambda>_. None), aw_status = (\<lambda>_. []),
       aw_login = (\<lambda>_. SendFailed []), aw_device_start = (\<lambda>_. SendFailed []), aw_device_polls = [],
       aw_enroll_start = (\<lambda>_. Responded 200 None (Inr \<lparr> en_device_code = ''dc'', en_user_code = ''UC'', en_interval = 5 \<rparr>)),
       aw_enroll_polls =
         [Responded 200 None (Inr \<lparr> ep_status = ''authorization_pending'', ep_device_token = None, ep_device_id = None, ep_name = None \<rparr>),
          Responded 200 None (Inr \<lparr> ep_status = ''approved'', ep_device_token = Some ''tok'', ep_device_id = Some 9, ep_name = Some ''laptop'' \<rparr>)],
       aw_reserve = (\<lambda>_. SendFailed []), aw_again = [],
       aw_turns = [([], \<lambda>req. if req = config_request ''https://c'' ''tok'' then Responded 200 None (Inr [demo_reservation 1 ''x'']) else SendFailed [])] \<rparr>"


end
