(* ===== verification/Spec2Isabelle.thy ===== *)
theory Spec2Isabelle
  imports Node Router DeviceProps Management EndToEnd Udp Mux Acme Dns Reports Routes NodeBoot ControlPlane NodeApi Liveness
    AgentMain
begin

text \<open>
  NatForge: reverse tunnels from machines behind NAT to public host names and ports. Four crates are
  modelled here.

  \<^item> \<^verbatim>\<open>natforge-proto\<close>: the messages between the agent and a node: token claims, the hello frame, the
    preamble of a stream and the framing of datagrams.
  \<^item> \<^verbatim>\<open>natforge-backend\<close>: the website, that is the control plane. It keeps users, devices, tunnels, routes
    and the pools of public ports of all nodes in PostgreSQL and short-lived codes in Redis, answers the
    dashboard and the agents, and signs the tunnel tokens.
  \<^item> \<^verbatim>\<open>natforge-node\<close>: a node. It admits agents by their tokens, keeps the registries from host names and
    ports to sessions, and routes public HTTP, HTTPS, TCP and UDP traffic into the streams of a session.
  \<^item> \<^verbatim>\<open>natforge-agent\<close>: the command on the user's machine. It reserves a tunnel or enrolls as a device,
    keeps the control connection, and relays each stream to a local port.

  They meet in these places. The website mints a token in the answer to a reservation; the agent presents
  it to the node; the node decodes and checks it (\<^verbatim>\<open>Handshake\<close>, \<^verbatim>\<open>ApiProps\<close>, \<^verbatim>\<open>EndToEnd\<close>). The node
  announces itself and its certificate and reports sessions, traffic and connections to the website
  (\<^verbatim>\<open>Reports\<close>, \<^verbatim>\<open>NodeBoot\<close>). The website posts stop signals to the node (\<^verbatim>\<open>NodeApi\<close>), and the node
  pulls the block lists (\<^verbatim>\<open>DeviceProps\<close>). A public byte goes through the node's router, a preamble and
  the agent to the local service (\<^verbatim>\<open>AgentProps\<close>, \<^verbatim>\<open>Udp\<close>).
\<close>

section \<open>Where the program is\<close>

text \<open>
  Shared ground:

  \<^item> \<^verbatim>\<open>Prelude\<close>, \<^verbatim>\<open>RustStr\<close>: results, words, byte lists, and what the sources use of Rust's \<^verbatim>\<open>str\<close> and
    \<^verbatim>\<open>[u8]\<close>. A \<^verbatim>\<open>u8\<close> is a \<^typ>\<open>char\<close>, so bytes and UTF-8 strings share a type.
  \<^item> \<^verbatim>\<open>Proto\<close>: \<^verbatim>\<open>natforge-proto/src/lib.rs\<close>, the whole crate; its three framings are instances of one
    locale of prefix codes.

  The node (\<^verbatim>\<open>natforge-node/src\<close>):

  \<^item> \<^verbatim>\<open>NodeConfig\<close>: \<^verbatim>\<open>config.rs\<close>. \<^verbatim>\<open>NodeState\<close>: \<^verbatim>\<open>state.rs\<close>, the registries as maps, and
    \<^verbatim>\<open>refresh_policy\<close> of \<^verbatim>\<open>reporter.rs\<close>.
  \<^item> \<^verbatim>\<open>Session\<close>: \<^verbatim>\<open>handle_agent\<close> and \<^verbatim>\<open>teardown\<close> of \<^verbatim>\<open>tunnel/mod.rs\<close>, \<^verbatim>\<open>jwt.rs\<close>, the stop call of \<^verbatim>\<open>api.rs\<close>.
    \<^verbatim>\<open>Node\<close>: sessions, stops and teardowns that interleave, as a step relation on a state that has the
    registries, the sockets and the sessions; a teardown is one step per registry it locks.
  \<^item> \<^verbatim>\<open>HttpHead\<close>, \<^verbatim>\<open>Sni\<close>, \<^verbatim>\<open>Router\<close>: \<^verbatim>\<open>tunnel/shared.rs\<close>: host and header handling, the ClientHello
    parser, the two public routers and the bridge of raw connections.
  \<^item> \<^verbatim>\<open>Udp\<close>: the datagram listener of \<^verbatim>\<open>tunnel/mod.rs\<close> as a step relation. \<^verbatim>\<open>Mux\<close>: \<^verbatim>\<open>tunnel/mux.rs\<close>.
  \<^item> \<^verbatim>\<open>Acme\<close>: \<^verbatim>\<open>acme.rs\<close>. \<^verbatim>\<open>Dns\<close>: \<^verbatim>\<open>dns.rs\<close> and its calls. \<^verbatim>\<open>Reports\<close>, \<^verbatim>\<open>Liveness\<close>: \<^verbatim>\<open>reporter.rs\<close>.
    \<^verbatim>\<open>NodeApi\<close>: \<^verbatim>\<open>api.rs\<close>. \<^verbatim>\<open>NodeBoot\<close>: \<^verbatim>\<open>main.rs\<close>, \<^verbatim>\<open>tls.rs\<close>, \<^verbatim>\<open>geo.rs\<close>.

  The website (\<^verbatim>\<open>natforge-backend/src\<close>):

  \<^item> \<^verbatim>\<open>Db\<close>: the tables of \<^verbatim>\<open>models.rs\<close> and the constraints of the migrations. \<^verbatim>\<open>Reserve\<close>, \<^verbatim>\<open>Lifecycle\<close>,
    \<^verbatim>\<open>Views\<close>: \<^verbatim>\<open>db/queries.rs\<close>, one definition per query; a transaction is a function whose error
    discards the new tables.
  \<^item> \<^verbatim>\<open>ReserveProofs\<close>, \<^verbatim>\<open>Reservations\<close>, \<^verbatim>\<open>LifecycleProofs\<close>, \<^verbatim>\<open>Sweeps\<close>: the invariant \<^verbatim>\<open>db_ok\<close> and what the
    queries do. \<^verbatim>\<open>Redis\<close>: \<^verbatim>\<open>db/connection.rs\<close>.
  \<^item> \<^verbatim>\<open>Backend\<close>: \<^verbatim>\<open>config.rs\<close>, \<^verbatim>\<open>jwt.rs\<close>, the request extractors; \<^verbatim>\<open>Tunnels\<close>, \<^verbatim>\<open>TunnelEdits\<close>:
    \<^verbatim>\<open>handlers/tunnels.rs\<close>; \<^verbatim>\<open>Accounts\<close>: \<^verbatim>\<open>auth.rs\<close>, \<^verbatim>\<open>user.rs\<close>; \<^verbatim>\<open>Management\<close>: \<^verbatim>\<open>devices.rs\<close>, \<^verbatim>\<open>admin.rs\<close>,
    \<^verbatim>\<open>internal.rs\<close>. \<^verbatim>\<open>EditProps\<close>, \<^verbatim>\<open>DeviceProps\<close>: what these handlers keep.
  \<^item> \<^verbatim>\<open>Routes\<close>: \<^verbatim>\<open>routes/mod.rs\<close> and the pages of \<^verbatim>\<open>main.rs\<close>. \<^verbatim>\<open>ControlPlane\<close>: the rest of \<^verbatim>\<open>main.rs\<close>,
    \<^verbatim>\<open>metrics.rs\<close>, \<^verbatim>\<open>geo.rs\<close>.

  The agent (\<^verbatim>\<open>natforge-agent/src\<close>): \<^verbatim>\<open>Agent\<close> has \<^verbatim>\<open>auth.rs\<close>, \<^verbatim>\<open>device.rs\<close>, \<^verbatim>\<open>tls.rs\<close>, \<^verbatim>\<open>service_host.rs\<close>
  and the helpers of \<^verbatim>\<open>main.rs\<close>; \<^verbatim>\<open>AgentMain\<close> its modes and the device loop; \<^verbatim>\<open>AgentProps\<close> what the
  agent and a node do together.
\<close>

section \<open>What is shown\<close>

text \<open>
  \<^item> Isolation on a node: in every reachable state a host or port leads only to a live session whose token
    grants it; admission, registration, teardown and the stop call, and their interleavings.
  \<^item> The wire: encoders and decoders are inverse, the ClientHello parser is total and finds the name, the
    header rewriting replaces exactly the forwarding headers, and payloads arrive byte for byte.
  \<^item> The database: one invariant of ids, subdomains, ports and routes, kept by every statement; what
    reservation, edits, moves and sweeps do; what housekeeping must not touch.
  \<^item> The API: who may edit what, revocation, exclusive local ports, block lists that reach the nodes,
    routing that matches its table, confined pages.
  \<^item> The programs together: a reserved agent is admitted, its routes are those that were asked for, an
    enrollment completes and lasts, a certificate announced is the one that is trusted, a stop is carried
    out, reports are stored, SRV records follow the session.

  Interfaces are locales, interpreted on the definitions that provide them: prefix codes (\<^verbatim>\<open>Proto\<close>), the
  clean-up of a registry by its owner (\<^verbatim>\<open>NodeState\<close>), an invariant of all steps of a node (\<^verbatim>\<open>Node\<close>) and
  the allocator of ports (\<^verbatim>\<open>ReserveProofs\<close>).
\<close>

section \<open>Bounds\<close>

text \<open>
  Loops end by structural recursion on what they consume: the chunks of a socket, the answers of a peer,
  the rows of a table. A loop that never ends in the code is a function of the answers it has seen so far.
  The bounds are those of the code: 30 attempts of the first registration, 30 of a certificate chain,
  10 subdomain draws, 4096 flows of a datagram route and 256 queued datagrams each, 1 MiB for a control
  frame, 65535 bytes for a datagram and a replay, and the constants of the sweeps (an hour, 45 seconds,
  31 days, 2000 log rows, 90 seconds).
  No further fuel is used. Integers keep their width where the code can wrap: route ids and ports are
  16-bit words, preamble lengths are cut as the encoder cuts them; times and counters of the database
  are integers.
\<close>

section \<open>Parameters, and what is left out\<close>

text \<open>
  Parameters: JWT signing and decoding, TLS, SHA-256, argon2, the random generator, JSON text, the case
  tables of Unicode, the country databases, the certificate authority, the API of Cloudflare (with its
  documented behaviour as hypotheses), the HTTP client, the operating system's sockets and files, and the
  yamux connection. The language's own library is modelled.

  Left out: the browser frontend, the benchmarks, the scripts and the monitoring files, since they are not
  part of the service; the tracing texts; socket options and keep-alive; the Prometheus text format;
  static file serving, CORS and cache headers of the website, which are layers of its HTTP library; file
  permissions of certificates and of the device file; the binding of the listeners at start.
  Statements of one transaction are not interleaved with those of another, except through the rows another
  transaction has locked; a connection to the database that fails is not modelled, a constraint that fails
  is.
\<close>

end
